(* ===== verification/Prelude.thy ===== *)
theory Prelude
  imports Main "HOL-Library.Word" "HOL-Library.Monad_Syntax"
begin

text \<open>
  What every component of the development shares.

  Code that can fail is a function into \<open>'a option\<close>: \<open>None\<close> is a failed check, an array
  access outside its bounds or another operation the language leaves undefined, and the monad of
  \<open>HOL-Library.Monad_Syntax\<close> sequences it. \<open>ok m Q\<close> says that \<open>m\<close> does not fail and that its
  result satisfies \<open>Q\<close> (total correctness); the collection \<open>ok_simps\<close> computes it through a
  sequence of statements and \<open>ok_cfor\<close> is its rule for a counted \<open>for\<close> loop. \<open>wrote\<close> is the
  frame of a piece of code that stores into one array, and \<open>cfor_wrote\<close> its rule for loops.
\<close>

unbundle bit_operations_syntax

type_synonym i8 = "8 word"
type_synonym i16 = "16 word"
type_synonym i32 = "32 word"
type_synonym i64 = "64 word"

named_theorems ok_simps \<open>rules that compute ok through statements\<close>

section \<open>Outcomes\<close>

definition ok :: "'a option \<Rightarrow> ('a \<Rightarrow> bool) \<Rightarrow> bool" where
  "ok m Q = (case m of None \<Rightarrow> False | Some x \<Rightarrow> Q x)"

lemma ok_Some [ok_simps]: "ok (Some x) Q \<longleftrightarrow> Q x"
  by (simp add: ok_def)

lemma ok_None [ok_simps]: "ok None Q \<longleftrightarrow> False"
  by (simp add: ok_def)

lemma ok_bind [ok_simps]: "ok (Option.bind m f) Q \<longleftrightarrow> ok m (\<lambda>x. ok (f x) Q)"
  by (cases m) (simp_all add: ok_def)

lemma ok_if [ok_simps]: "ok (if b then m else n) Q \<longleftrightarrow> (if b then ok m Q else ok n Q)"
  by simp

lemma okI: "m = Some x \<Longrightarrow> Q x \<Longrightarrow> ok m Q"
  by (simp add: ok_def)

lemma okE: "ok m Q \<Longrightarrow> (\<And>x. m = Some x \<Longrightarrow> Q x \<Longrightarrow> R) \<Longrightarrow> R"
  by (cases m) (auto simp: ok_def)

lemma ok_iff: "ok m Q \<longleftrightarrow> (\<exists>x. m = Some x \<and> Q x)"
  by (cases m) (auto simp: ok_def)

lemma ok_eq_iff: "ok m (\<lambda>x. x = y) \<longleftrightarrow> m = Some y"
  by (cases m) (auto simp: ok_def)

lemma ok_mono: "ok m P \<Longrightarrow> (\<And>x. P x \<Longrightarrow> Q x) \<Longrightarrow> ok m Q"
  by (cases m) (auto simp: ok_def)

lemma ok_conj: "ok m P \<Longrightarrow> ok m Q \<Longrightarrow> ok m (\<lambda>x. P x \<and> Q x)"
  by (cases m) (auto simp: ok_def)

text \<open>Sequencing: of a statement, and of one that returns a value and a new state.\<close>

lemma ok_bindI: "ok m P \<Longrightarrow> (\<And>x. P x \<Longrightarrow> ok (f x) Q) \<Longrightarrow> ok (Option.bind m f) Q"
  by (cases m) (auto simp: ok_def)

lemma ok_bind_pair:
  "ok m (\<lambda>(x, s). P x s) \<Longrightarrow> (\<And>x s. P x s \<Longrightarrow> ok (f x s) Q) \<Longrightarrow> ok (Option.bind m (\<lambda>(x, s). f x s)) Q"
  by (cases m) (auto simp: ok_def)

section \<open>Checks and arrays\<close>

text \<open>
  \<open>TFLITE_DCHECK\<close> and \<open>assert\<close>: compiled out when \<open>NDEBUG\<close> is defined (first argument),
  abort otherwise.
\<close>

definition dcheck :: "bool \<Rightarrow> bool \<Rightarrow> unit option" where
  "dcheck ndebug c = (if ndebug \<or> c then Some () else None)"

lemma ok_dcheck [ok_simps]: "ok (dcheck nd c) Q \<longleftrightarrow> (nd \<or> c) \<and> Q ()"
  by (simp add: dcheck_def ok_def)

text \<open>Array accesses through an \<open>int\<close> index; an access outside the array is \<open>None\<close>.\<close>

definition rd :: "'a list \<Rightarrow> int \<Rightarrow> 'a option" where
  "rd xs i = (if 0 \<le> i \<and> i < int (length xs) then Some (xs ! nat i) else None)"

definition wr :: "'a list \<Rightarrow> int \<Rightarrow> 'a \<Rightarrow> 'a list option" where
  "wr xs i v = (if 0 \<le> i \<and> i < int (length xs) then Some (xs[nat i := v]) else None)"

lemma ok_rd [ok_simps]: "ok (rd xs i) Q \<longleftrightarrow> 0 \<le> i \<and> i < int (length xs) \<and> Q (xs ! nat i)"
  by (auto simp: rd_def ok_def)

lemma ok_wr [ok_simps]: "ok (wr xs i v) Q \<longleftrightarrow> 0 \<le> i \<and> i < int (length xs) \<and> Q (xs[nat i := v])"
  by (auto simp: wr_def ok_def)

text \<open>A signed operation of C: its exact result, if that is an \<open>int32_t\<close>.\<close>

definition int32 :: "int \<Rightarrow> int option" where
  "int32 v = (if - (2 ^ 31) \<le> v \<and> v < 2 ^ 31 then Some v else None)"

lemma ok_int32 [ok_simps]: "ok (int32 v) Q \<longleftrightarrow> - (2 ^ 31) \<le> v \<and> v < 2 ^ 31 \<and> Q v"
  by (auto simp: int32_def ok_def)

section \<open>Counted loops\<close>

text \<open>\<open>for (int i = a; i < n; i += k) s = f(i, s)\<close>, for a literal step \<open>k > 0\<close>.\<close>

function cfor :: "int \<Rightarrow> int \<Rightarrow> int \<Rightarrow> (int \<Rightarrow> 's \<Rightarrow> 's option) \<Rightarrow> 's \<Rightarrow> 's option" where
  "cfor i n k f s =
     (if i < n \<and> 0 < k
      then (case f i s of None \<Rightarrow> None | Some s' \<Rightarrow> cfor (i + k) n k f s')
      else Some s)"
  by pat_completeness auto
termination
  by (relation "measure (\<lambda>(i, n, k, f, s). nat (n - i))") auto

declare cfor.simps [simp del]

lemma cfor_done: "n \<le> i \<Longrightarrow> cfor i n k f s = Some s"
  by (subst cfor.simps) simp

lemma cfor_step: "i < n \<Longrightarrow> 0 < k \<Longrightarrow> cfor i n k f s = Option.bind (f i s) (cfor (i + k) n k f)"
  by (subst cfor.simps) (simp split: option.split)

lemma dvd_diff_step: "(k::int) dvd (i - a) \<Longrightarrow> k dvd (i + k - a)"
proof -
  assume "k dvd (i - a)"
  then have "k dvd (i - a) + k" by simp
  then show "k dvd (i + k - a)" by (simp add: algebra_simps)
qed

lemma dvd_window:
  fixes i j k a :: int
  assumes "k dvd (j - a)" and "k dvd (i - a)" and "i \<le> j" and "j < i + k"
  shows "j = i"
proof -
  have "k dvd (j - i)" using dvd_diff [OF assms(1,2)] by simp
  then show ?thesis using assms(3,4) zdvd_not_zless [of "j - i" k] by force
qed

lemma cfor_ok_gen:
  assumes "0 < k" and "a \<le> i" and "k dvd (i - a)" and "I i s"
    and "\<And>i s. a \<le> i \<Longrightarrow> i < n \<Longrightarrow> k dvd (i - a) \<Longrightarrow> I i s \<Longrightarrow> ok (f i s) (I (i + k))"
    and "\<And>i s. a \<le> i \<Longrightarrow> n \<le> i \<Longrightarrow> (i < n + k \<or> i = a) \<Longrightarrow> k dvd (i - a) \<Longrightarrow> I i s \<Longrightarrow> Q s"
    and "i < n + k \<or> i = a"
  shows "ok (cfor i n k f s) Q"
  using assms(2,3,4,7)
proof (induction "nat (n - i)" arbitrary: i s rule: less_induct)
  case less
  show ?case
  proof (cases "i < n")
    case True
    have "ok (f i s) (I (i + k))"
      using less.prems True assms(5) by blast
    then obtain s' where s': "f i s = Some s'" "I (i + k) s'"
      by (rule okE)
    have "ok (cfor (i + k) n k f s') Q"
      using less.prems True assms(1) s' by (intro less.hyps) (auto intro: dvd_diff_step)
    with True assms(1) s' show ?thesis
      by (simp add: cfor_step ok_bind ok_Some)
  next
    case False
    with less.prems assms(6) show ?thesis
      by (simp add: cfor_done ok_Some)
  qed
qed

text \<open>The total-correctness rule of a loop: an invariant indexed by the loop counter.\<close>

lemma ok_cfor:
  assumes "0 < k" and "I a s"
    and "\<And>i s. a \<le> i \<Longrightarrow> i < n \<Longrightarrow> k dvd (i - a) \<Longrightarrow> I i s \<Longrightarrow> ok (f i s) (I (i + k))"
    and "\<And>i s. a \<le> i \<Longrightarrow> n \<le> i \<Longrightarrow> (i < n + k \<or> i = a) \<Longrightarrow> k dvd (i - a) \<Longrightarrow> I i s \<Longrightarrow> Q s"
  shows "ok (cfor a n k f s) Q"
  using assms by (intro cfor_ok_gen [where I = I and a = a]) auto

text \<open>A loop whose body adds \<open>g i\<close> to an accumulator computes a sum.\<close>

lemma cfor_sum:
  fixes g :: "int \<Rightarrow> 'a :: comm_monoid_add"
  assumes "\<And>i s. a \<le> i \<Longrightarrow> i < n \<Longrightarrow> f i s = Some (s + g i)"
  shows "cfor a n 1 f s = Some (s + (\<Sum>i\<in>{a..<n}. g i))"
  using assms
proof (induction "nat (n - a)" arbitrary: a s)
  case 0
  then show ?case by (simp add: cfor_done)
next
  case (Suc m)
  then have less: "a < n" by simp
  have "cfor a n 1 f s = cfor (a + 1) n 1 f (s + g a)"
    using less Suc.prems by (simp add: cfor_step)
  also have "\<dots> = Some (s + g a + (\<Sum>i\<in>{a + 1..<n}. g i))"
    using Suc.hyps(2) Suc.prems by (intro Suc.hyps(1)) auto
  finally have "cfor a n 1 f s = Some (s + (g a + (\<Sum>i\<in>{a + 1..<n}. g i)))"
    by (simp add: add.assoc)
  moreover have "{a..<n} = insert a {a + 1..<n}"
    using less by auto
  ultimately show ?case by simp
qed

lemma cfor_cong:
  assumes "\<And>i s. a \<le> i \<Longrightarrow> i < n \<Longrightarrow> f i s = g i s" and "0 < k"
  shows "cfor a n k f s = cfor a n k g s"
  using assms(1)
proof (induction "nat (n - a)" arbitrary: a s rule: less_induct)
  case less
  show ?case
  proof (cases "a < n")
    case True
    have "cfor (a + k) n k f s' = cfor (a + k) n k g s'" for s'
      using less.prems True assms(2) by (intro less.hyps) auto
    then have "cfor (a + k) n k f = cfor (a + k) n k g" by blast
    with True assms(2) less.prems show ?thesis
      by (simp add: cfor_step)
  next
    case False
    then show ?thesis by (simp add: cfor_done)
  qed
qed

text \<open>The same for an unrolled loop, whose body adds \<open>k\<close> consecutive terms.\<close>

lemma sum_int_split:
  fixes g :: "int \<Rightarrow> 'a :: comm_monoid_add"
  assumes "a \<le> m" and "m \<le> n"
  shows "(\<Sum>i\<in>{a..<n}. g i) = (\<Sum>i\<in>{a..<m}. g i) + (\<Sum>i\<in>{m..<n}. g i)"
proof -
  have "{a..<n} = {a..<m} \<union> {m..<n}" "{a..<m} \<inter> {m..<n} = {}"
    using assms by auto
  then show ?thesis by (simp add: sum.union_disjoint)
qed

lemma cfor_sum_block:
  fixes g :: "int \<Rightarrow> 'a :: comm_monoid_add"
  assumes "0 < k" and "k dvd (n - a)"
    and "\<And>i s. a \<le> i \<Longrightarrow> i < n \<Longrightarrow> k dvd (i - a) \<Longrightarrow> f i s = Some (s + (\<Sum>j\<in>{i..<i + k}. g j))"
  shows "cfor a n k f s = Some (s + (\<Sum>i\<in>{a..<n}. g i))"
proof -
  have "ok (cfor a n k f s) (\<lambda>t. t = s + (\<Sum>i\<in>{a..<n}. g i))"
  proof (rule ok_cfor [where I = "\<lambda>i t. t = s + (\<Sum>j\<in>{a..<i}. g j)"])
    fix i t
    assume i: "a \<le> i" "i < n" "k dvd (i - a)" and t: "t = s + (\<Sum>j\<in>{a..<i}. g j)"
    have "(\<Sum>j\<in>{a..<i + k}. g j) = (\<Sum>j\<in>{a..<i}. g j) + (\<Sum>j\<in>{i..<i + k}. g j)"
      using i(1) assms(1) by (intro sum_int_split) auto
    then show "ok (f i t) (\<lambda>t. t = s + (\<Sum>j\<in>{a..<i + k}. g j))"
      using assms(3) [OF i] t by (simp add: ok_Some add.assoc)
  next
    fix i t
    assume i: "a \<le> i" "n \<le> i" "i < n + k \<or> i = a" "k dvd (i - a)"
      and t: "t = s + (\<Sum>j\<in>{a..<i}. g j)"
    have "i = n" if "i < n + k"
      using dvd_window [OF i(4) assms(2) i(2)] that by simp
    with assms(2) i t show "t = s + (\<Sum>i\<in>{a..<n}. g i)" by auto
  qed (use assms(1) in auto)
  then show ?thesis by (simp add: ok_eq_iff)
qed

text \<open>Blocks of four.\<close>

lemma sum_four: "(\<Sum>i\<in>{c..<c + 4 :: int}. f i) = f c + f (c + 1) + f (c + 2) + f (c + 3)"
proof -
  have "{c..<c + 4} = {c, c + 1, c + 2, c + 3}" by auto
  then show ?thesis by (simp add: add.assoc)
qed

lemma dvd4_room: "4 dvd n \<Longrightarrow> 4 dvd (c - 0) \<Longrightarrow> c < n \<Longrightarrow> c + 3 < (n :: int)"
proof -
  assume "4 dvd n" "4 dvd (c - 0)" "c < n"
  then have "4 dvd (n - c)" "0 < n - c" by auto
  then have "4 \<le> n - c" by (rule zdvd_imp_le)
  then show ?thesis by simp
qed

text \<open>
  A loop that threads a state through its iterations and adds to an accumulator, \<open>k\<close> terms at
  a time; \<open>R\<close> relates the accumulator and the state.
\<close>

lemma ok_cfor_sum:
  fixes g :: "int \<Rightarrow> 'a :: comm_monoid_add"
  assumes "0 < k" and "k dvd (n - a)" and "R acc s"
    and "\<And>i acc s. a \<le> i \<Longrightarrow> i < n \<Longrightarrow> k dvd (i - a) \<Longrightarrow> R acc s \<Longrightarrow>
      ok (f i (acc, s)) (\<lambda>(acc', s'). R acc' s' \<and> acc' = acc + (\<Sum>j\<in>{i..<i + k}. g j))"
  shows "ok (cfor a n k f (acc, s)) (\<lambda>(acc', s'). R acc' s' \<and> acc' = acc + (\<Sum>i\<in>{a..<n}. g i))"
proof (rule ok_cfor [where I = "\<lambda>i (acc', s'). R acc' s' \<and> acc' = acc + (\<Sum>j\<in>{a..<i}. g j)"])
  fix i t
  assume i: "a \<le> i" "i < n" "k dvd (i - a)" and t: "case t of (acc', s') \<Rightarrow> R acc' s' \<and> acc' = acc + (\<Sum>j\<in>{a..<i}. g j)"
  obtain acc' s' where p: "t = (acc', s')" by (cases t)
  have "(\<Sum>j\<in>{a..<i + k}. g j) = (\<Sum>j\<in>{a..<i}. g j) + (\<Sum>j\<in>{i..<i + k}. g j)"
    using i(1) assms(1) by (intro sum_int_split) auto
  then show "ok (f i t) (\<lambda>(acc', s'). R acc' s' \<and> acc' = acc + (\<Sum>j\<in>{a..<i + k}. g j))"
    unfolding p using t p by (intro ok_mono [OF assms(4) [OF i]]) (auto simp: add.assoc)
next
  fix i t
  assume i: "a \<le> i" "n \<le> i" "i < n + k \<or> i = a" "k dvd (i - a)"
    and t: "case t of (acc', s') \<Rightarrow> R acc' s' \<and> acc' = acc + (\<Sum>j\<in>{a..<i}. g j)"
  have "{a..<i} = {a..<n}"
    using i assms(2) dvd_window [OF i(4) assms(2) i(2)] by auto
  with t show "case t of (acc', s') \<Rightarrow> R acc' s' \<and> acc' = acc + (\<Sum>i\<in>{a..<n}. g i)" by simp
qed (use assms(1,3) in auto)

section \<open>Stores into one array\<close>

text \<open>
  \<open>wrote S V xs ys\<close>: code turned the array \<open>xs\<close> into \<open>ys\<close> by storing \<open>V k\<close> at every index
  \<open>k \<in> S\<close> and nothing elsewhere.
\<close>

definition wrote :: "int set \<Rightarrow> (int \<Rightarrow> 'a) \<Rightarrow> 'a list \<Rightarrow> 'a list \<Rightarrow> bool" where
  "wrote S V xs ys \<longleftrightarrow> length ys = length xs \<and>
     (\<forall>k < length xs. ys ! k = (if int k \<in> S then V (int k) else xs ! k))"

lemma wrote_length: "wrote S V xs ys \<Longrightarrow> length ys = length xs"
  by (simp add: wrote_def)

lemma wrote_empty: "wrote {} V xs xs"
  by (simp add: wrote_def)

lemma wrote_update: "0 \<le> i \<Longrightarrow> v = V i \<Longrightarrow> wrote {i} V xs (xs[nat i := v])"
  by (auto simp: wrote_def nth_list_update)

lemma wrote_trans: "wrote S V xs ys \<Longrightarrow> wrote T V ys zs \<Longrightarrow> wrote (S \<union> T) V xs zs"
  by (auto simp: wrote_def)

lemma wrote_all:
  assumes "wrote S V xs ys" and "{0..<int (length xs)} \<subseteq> S"
  shows "ys = map (\<lambda>k. V (int k)) [0..<length xs]"
proof (rule nth_equalityI)
  fix k assume "k < length ys"
  with assms have "int k \<in> S" "k < length xs" by (auto simp: wrote_def)
  with assms(1) show "ys ! k = map (\<lambda>k. V (int k)) [0..<length xs] ! k"
    by (simp add: wrote_def)
qed (use assms in \<open>simp add: wrote_def\<close>)

text \<open>
  A loop whose every iteration moves an invariant \<open>P\<close> of the rest of the state on by one step
  and stores on \<open>S i\<close>: the loop stores on the union.
\<close>

lemma cfor_wrote_indexed:
  assumes k: "0 < k" and n: "a \<le> n" "k dvd (n - a)" and start: "P a c"
    and body: "\<And>i c zs. a \<le> i \<Longrightarrow> i < n \<Longrightarrow> k dvd (i - a) \<Longrightarrow> P i c \<Longrightarrow> length zs = length xs \<Longrightarrow>
      ok (f i (c, zs)) (\<lambda>(c', ys). P (i + k) c' \<and> wrote (S i) V zs ys)"
  shows "ok (cfor a n k f (c, xs))
    (\<lambda>(c', ys). P n c' \<and> wrote (\<Union>i\<in>{i. a \<le> i \<and> i < n \<and> k dvd (i - a)}. S i) V xs ys)"
proof (rule ok_cfor [where I = "\<lambda>j (c', ys). P j c' \<and>
    wrote (\<Union>i\<in>{i. a \<le> i \<and> i < j \<and> i < n \<and> k dvd (i - a)}. S i) V xs ys"])
  show "case (c, xs) of (c', ys) \<Rightarrow> P a c' \<and>
      wrote (\<Union>i\<in>{i. a \<le> i \<and> i < a \<and> i < n \<and> k dvd (i - a)}. S i) V xs ys"
  proof -
    have none: "{i. a \<le> i \<and> i < a \<and> i < n \<and> k dvd (i - a)} = {}" by auto
    show ?thesis unfolding none using start by (simp add: wrote_empty)
  qed
next
  fix i s
  assume i: "a \<le> i" "i < n" "k dvd (i - a)"
    and inv: "case s of (c', ys) \<Rightarrow> P i c' \<and>
      wrote (\<Union>i\<in>{j. a \<le> j \<and> j < i \<and> j < n \<and> k dvd (j - a)}. S i) V xs ys"
  obtain c' zs where s: "s = (c', zs)" by (cases s)
  have eq: "{j. a \<le> j \<and> j < i + k \<and> j < n \<and> k dvd (j - a)} =
      insert i {j. a \<le> j \<and> j < i \<and> j < n \<and> k dvd (j - a)}"
  proof -
    have "j = i" if "i \<le> j" "j < i + k" "k dvd (j - a)" for j
      using that i(3) by (intro dvd_window) auto
    then have "j < i + k \<and> k dvd (j - a) \<longleftrightarrow> j = i \<or> j < i \<and> k dvd (j - a)" for j
      using i(3) k by (cases "j < i") auto
    with i show ?thesis by auto
  qed
  have len: "length zs = length xs" and P: "P i c'"
    using inv s by (auto dest: wrote_length)
  show "ok (f i s) (\<lambda>(c', ys). P (i + k) c' \<and>
      wrote (\<Union>i\<in>{j. a \<le> j \<and> j < i + k \<and> j < n \<and> k dvd (j - a)}. S i) V xs ys)"
    unfolding s using body [OF i P len]
  proof (rule ok_mono)
    fix t assume "case t of (c', ys) \<Rightarrow> P (i + k) c' \<and> wrote (S i) V zs ys"
    with inv s eq show "case t of (c', ys) \<Rightarrow> P (i + k) c' \<and>
        wrote (\<Union>i\<in>{j. a \<le> j \<and> j < i + k \<and> j < n \<and> k dvd (j - a)}. S i) V xs ys"
      by (auto simp: Un_commute dest: wrote_trans)
  qed
next
  fix i s
  assume i: "a \<le> i" "n \<le> i" "i < n + k \<or> i = a" "k dvd (i - a)" and s: "case s of (c', ys) \<Rightarrow> P i c' \<and>
      wrote (\<Union>i\<in>{j. a \<le> j \<and> j < i \<and> j < n \<and> k dvd (j - a)}. S i) V xs ys"
  moreover have "i = n" using i n dvd_window [OF i(4) n(2) i(2)] by auto
  moreover from this have "{j. a \<le> j \<and> j < i \<and> j < n \<and> k dvd (j - a)} =
      {j. a \<le> j \<and> j < n \<and> k dvd (j - a)}" by auto
  ultimately show "case s of (c', ys) \<Rightarrow> P n c' \<and>
      wrote (\<Union>i\<in>{i. a \<le> i \<and> i < n \<and> k dvd (i - a)}. S i) V xs ys"
    by simp
qed (use k in simp)

text \<open>The same when the invariant does not depend on the loop counter.\<close>

lemma cfor_wrote:
  assumes k: "0 < k" and start: "P c"
    and body: "\<And>i c zs. a \<le> i \<Longrightarrow> i < n \<Longrightarrow> k dvd (i - a) \<Longrightarrow> P c \<Longrightarrow> length zs = length xs \<Longrightarrow>
      ok (f i (c, zs)) (\<lambda>(c', ys). P c' \<and> wrote (S i) V zs ys)"
  shows "ok (cfor a n k f (c, xs))
    (\<lambda>(c', ys). P c' \<and> wrote (\<Union>i\<in>{i. a \<le> i \<and> i < n \<and> k dvd (i - a)}. S i) V xs ys)"
proof (cases "a \<le> n")
  case True
  define m where "m = a + (n - a + k - 1) div k * k"
  have "n - a \<le> (n - a + k - 1) div k * k" "(n - a + k - 1) div k * k < n - a + k"
    using div_mult_mod_eq [of "n - a + k - 1" k] pos_mod_sign [OF k, of "n - a + k - 1"]
      pos_mod_bound [OF k, of "n - a + k - 1"] by linarith+
  then have m: "n \<le> m" "m < n + k" "k dvd (m - a)" by (auto simp: m_def)
  have lt: "i < n" if "i < m" "k dvd (i - a)" for i
    using that m dvd_window [OF m(3) that(2)] by (cases "i < n") auto
  have set: "{i. a \<le> i \<and> i < n \<and> k dvd (i - a)} = {i. a \<le> i \<and> i < m \<and> k dvd (i - a)}"
    using lt m(1) by auto
  have same: "cfor i n k f s = cfor i m k f s" if "k dvd (i - a)" for i s
    using that
  proof (induction "nat (m - i)" arbitrary: i s rule: less_induct)
    case less
    show ?case
    proof (cases "i < n")
      case True
      have "cfor (i + k) n k f s' = cfor (i + k) m k f s'" for s'
        using less.prems True k m(1) by (intro less.hyps) (auto intro: dvd_diff_step)
      then have "cfor (i + k) n k f = cfor (i + k) m k f" by blast
      with True k m(1) show ?thesis by (simp add: cfor_step)
    next
      case False
      with less.prems lt have "m \<le> i" by force
      with False show ?thesis by (simp add: cfor_done)
    qed
  qed
  show ?thesis
    unfolding set using same [of a] True m
    by (simp, intro cfor_wrote_indexed [where P = "\<lambda>_. P"]) (auto intro: k start lt body)
next
  case False
  then have none: "{i. a \<le> i \<and> i < n \<and> k dvd (i - a)} = {}" by auto
  show ?thesis unfolding none using False start by (simp add: cfor_done ok_Some wrote_empty)
qed

text \<open>The same for a loop whose whole state is the array.\<close>

lemma cfor_unit:
  "cfor i n k (\<lambda>i (u :: bool, zs). map_option (Pair u) (f i zs)) (c, ys) = map_option (Pair c) (cfor i n k f ys)"
proof (induction i n k f ys rule: cfor.induct)
  case (1 i n k f ys)
  then show ?case by (simp add: cfor.simps [of i] split: option.split)
qed

lemma cfor_wrote_array:
  assumes "0 < k"
    and "\<And>i zs. a \<le> i \<Longrightarrow> i < n \<Longrightarrow> k dvd (i - a) \<Longrightarrow> length zs = length xs \<Longrightarrow>
      ok (f i zs) (wrote (S i) V zs)"
  shows "ok (cfor a n k f xs)
    (wrote (\<Union>i\<in>{i. a \<le> i \<and> i < n \<and> k dvd (i - a)}. S i) V xs)"
proof -
  have "ok (cfor a n k (\<lambda>i (c, zs). map_option (Pair c) (f i zs)) (True, xs))
      (\<lambda>(c, ys). True \<and> wrote (\<Union>i\<in>{i. a \<le> i \<and> i < n \<and> k dvd (i - a)}. S i) V xs ys)"
  proof (rule cfor_wrote [where P = "\<lambda>_. True"])
    fix i c and zs :: "'a list"
    assume "a \<le> i" "i < n" "k dvd (i - a)" "length zs = length xs"
    from assms(2) [OF this] show "ok (case (c, zs) of (c, zs) \<Rightarrow> map_option (Pair c) (f i zs))
        (\<lambda>(c', ys). True \<and> wrote (S i) V zs ys)"
      by (auto simp: ok_iff)
  qed (use assms(1) in auto)
  then show ?thesis by (auto simp: cfor_unit ok_iff)
qed

text \<open>Loops with step 1 can be cut in two.\<close>

lemma cfor_split:
  assumes "a \<le> m" and "m \<le> n"
  shows "cfor a n 1 f s = Option.bind (cfor a m 1 f s) (cfor m n 1 f)"
  using assms(1)
proof (induction "nat (m - a)" arbitrary: a s)
  case 0
  then show ?case by (simp add: cfor_done)
next
  case (Suc l)
  then have less: "a < m" by simp
  have "cfor (a + 1) n 1 f s' = Option.bind (cfor (a + 1) m 1 f s') (cfor m n 1 f)" for s'
    using Suc.hyps(2) less by (intro Suc.hyps(1)) auto
  then have "cfor (a + 1) n 1 f = (\<lambda>s'. Option.bind (cfor (a + 1) m 1 f s') (cfor m n 1 f))" by blast
  with less assms(2) show ?case by (simp add: cfor_step)
qed

text \<open>A loop fails when it reaches an iteration that does.\<close>

lemma cfor_fails:
  assumes "a \<le> m" and "m < n" and "I a s"
    and "\<And>i s. a \<le> i \<Longrightarrow> i < m \<Longrightarrow> I i s \<Longrightarrow> ok (f i s) (I (i + 1))" and "\<And>s. I m s \<Longrightarrow> f m s = None"
  shows "cfor a n 1 f s = None"
proof -
  have "ok (cfor a m 1 f s) (I m)"
    using assms(1,3,4) by (intro ok_cfor [where I = "\<lambda>i s. i \<le> m \<and> I i s"]) (auto elim!: ok_mono)
  then obtain t where "cfor a m 1 f s = Some t" "I m t" by (rule okE)
  then have "cfor a n 1 f s = cfor m n 1 f t"
    using assms(1,2) by (subst cfor_split [of a m n]) simp_all
  then show ?thesis using assms(2,5) \<open>I m t\<close> by (simp add: cfor_step)
qed

lemma range_steps: "{i. a \<le> i \<and> i < n \<and> 1 dvd (i - a)} = {a..<n :: int}"
  by auto

section \<open>Changes of one array\<close>

text \<open>\<open>modified S F xs ys\<close>: every entry at an index of \<open>S\<close> was replaced, once, by \<open>F\<close> of its old value.\<close>

definition modified :: "int set \<Rightarrow> (int \<Rightarrow> 'a \<Rightarrow> 'a) \<Rightarrow> 'a list \<Rightarrow> 'a list \<Rightarrow> bool" where
  "modified S F xs ys \<longleftrightarrow> length ys = length xs \<and>
     (\<forall>k < length xs. ys ! k = (if int k \<in> S then F (int k) (xs ! k) else xs ! k))"

lemma modified_length: "modified S F xs ys \<Longrightarrow> length ys = length xs"
  by (simp add: modified_def)

lemma modified_empty: "modified {} F xs xs"
  by (simp add: modified_def)

lemma modified_update: "0 \<le> i \<Longrightarrow> v = F i (xs ! nat i) \<Longrightarrow> modified {i} F xs (xs[nat i := v])"
  by (auto simp: modified_def nth_list_update)

lemma modified_trans: "modified S F xs ys \<Longrightarrow> modified T F ys zs \<Longrightarrow> S \<inter> T = {} \<Longrightarrow> modified (S \<union> T) F xs zs"
  by (auto simp: modified_def)

lemma cfor_modified:
  assumes start: "P a c" and n: "a \<le> n"
    and disjoint: "\<And>i j. a \<le> i \<Longrightarrow> i < j \<Longrightarrow> j < n \<Longrightarrow> S i \<inter> S j = {}"
    and body: "\<And>i c zs. a \<le> i \<Longrightarrow> i < n \<Longrightarrow> P i c \<Longrightarrow> length zs = length xs \<Longrightarrow>
      ok (f i (c, zs)) (\<lambda>(c', ys). P (i + 1) c' \<and> modified (S i) F zs ys)"
  shows "ok (cfor a n 1 f (c, xs)) (\<lambda>(c', ys). P n c' \<and> modified (\<Union>i\<in>{a..<n}. S i) F xs ys)"
proof (rule ok_cfor [where I = "\<lambda>j (c', ys). j \<le> n \<and> P j c' \<and> modified (\<Union>i\<in>{a..<j}. S i) F xs ys"])
  fix i s
  assume i: "a \<le> i" "i < n"
    and inv: "case s of (c', ys) \<Rightarrow> i \<le> n \<and> P i c' \<and> modified (\<Union>j\<in>{a..<i}. S j) F xs ys"
  obtain c' zs where s: "s = (c', zs)" by (cases s)
  have set: "(\<Union>j\<in>{a..<i + 1}. S j) = (\<Union>j\<in>{a..<i}. S j) \<union> S i"
  proof -
    have "{a..<i + 1} = insert i {a..<i}" using i by auto
    then show ?thesis by auto
  qed
  have "(\<Union>j\<in>{a..<i}. S j) \<inter> S i = {}" using disjoint i by fastforce
  moreover have "ok (f i (c', zs)) (\<lambda>(c', ys). P (i + 1) c' \<and> modified (S i) F zs ys)"
    using inv s i by (intro body) (auto dest: modified_length)
  ultimately show "ok (f i s) (\<lambda>(c', ys). i + 1 \<le> n \<and> P (i + 1) c' \<and> modified (\<Union>j\<in>{a..<i + 1}. S j) F xs ys)"
    unfolding s set using inv s i by (auto elim!: ok_mono intro: modified_trans)
next
  fix i s
  assume "n \<le> i" and "case s of (c', ys) \<Rightarrow> i \<le> n \<and> P i c' \<and> modified (\<Union>j\<in>{a..<i}. S j) F xs ys"
  then show "case s of (c', ys) \<Rightarrow> P n c' \<and> modified (\<Union>i\<in>{a..<n}. S i) F xs ys"
    by auto
qed (use start n in \<open>auto simp: modified_empty\<close>)

text \<open>The same for a loop whose whole state is the array.\<close>

lemma cfor_modified_array:
  assumes "a \<le> n" and "\<And>i j. a \<le> i \<Longrightarrow> i < j \<Longrightarrow> j < n \<Longrightarrow> S i \<inter> S j = {}"
    and "\<And>i zs. a \<le> i \<Longrightarrow> i < n \<Longrightarrow> length zs = length xs \<Longrightarrow> ok (f i zs) (modified (S i) F zs)"
  shows "ok (cfor a n 1 f xs) (modified (\<Union>i\<in>{a..<n}. S i) F xs)"
proof -
  have "ok (cfor a n 1 (\<lambda>i (u :: bool, zs). map_option (Pair u) (f i zs)) (True, xs))
      (\<lambda>(c', ys). True \<and> modified (\<Union>i\<in>{a..<n}. S i) F xs ys)"
  proof (rule cfor_modified [where P = "\<lambda>_ _. True"])
    fix i and c :: bool and zs :: "'a list"
    assume "a \<le> i" "i < n" "length zs = length xs"
    from assms(3) [OF this] show "ok ((\<lambda>(u, zs). map_option (Pair u) (f i zs)) (c, zs))
        (\<lambda>(c', ys). True \<and> modified (S i) F zs ys)"
      by (auto simp: ok_iff)
  qed (use assms(1,2) in auto)
  then show ?thesis by (auto simp: cfor_unit ok_iff)
qed

end
