(* ===== verification/Fixedpoint.thy ===== *)
theory Fixedpoint
  imports Prelude "HOL-Library.Signed_Division"
begin

text \<open>
  The fixed-point arithmetic of the quantized kernels: the integer primitives of
  \<open>third_party/tflite-micro/third_party/gemmlowp/fixedpoint/fixedpoint.h\<close> that the kernels reach
  (scalar instances, C++ \<open>int32_t\<close>, \<open>int16_t\<close> and \<open>int64_t\<close> as \<open>32 word\<close>, \<open>16 word\<close> and
  \<open>64 word\<close>), and \<open>MultiplyByQuantizedMultiplier\<close> of
  \<open>tensorflow/lite/kernels/internal/common.h\<close>. Signed arithmetic wraps around, as the target
  computes it; a shift whose count is outside the range C++ defines is \<open>None\<close>. The lemmas say
  what each primitive computes over the integers.
\<close>

section \<open>Generic facts on signed words\<close>

lemma sint32_range: "- 2147483648 \<le> sint (w :: i32)" "sint (w :: i32) \<le> 2147483647"
  using sint_ge [of w] sint_lt [of w] by auto

lemma sint16_range: "- 32768 \<le> sint (w :: i16)" "sint (w :: i16) \<le> 32767"
  using sint_ge [of w] sint_lt [of w] by auto

lemma sint8_range: "- 128 \<le> sint (w :: i8)" "sint (w :: i8) \<le> 127"
  using sint_ge [of w] sint_lt [of w] by auto

lemma sint64_of_int: "- 9223372036854775808 \<le> k \<Longrightarrow> k \<le> 9223372036854775807 \<Longrightarrow> sint (word_of_int k :: i64) = k"
  by (simp add: sint_sbintrunc' signed_take_bit_int_eq_self)

lemma sint32_of_int: "- 2147483648 \<le> k \<Longrightarrow> k \<le> 2147483647 \<Longrightarrow> sint (word_of_int k :: i32) = k"
  by (simp add: sint_sbintrunc' signed_take_bit_int_eq_self)

lemma sint16_of_int: "- 32768 \<le> k \<Longrightarrow> k \<le> 32767 \<Longrightarrow> sint (word_of_int k :: i16) = k"
  by (simp add: sint_sbintrunc' signed_take_bit_int_eq_self)

lemma sint8_of_int: "- 128 \<le> k \<Longrightarrow> k \<le> 127 \<Longrightarrow> sint (word_of_int k :: i8) = k"
  by (simp add: sint_sbintrunc' signed_take_bit_int_eq_self)

lemma word_add_sint: "(a :: 'a::len word) + b = word_of_int (sint a + sint b)"
  by (simp add: scast_id)

lemma word_mult_sint: "(a :: 'a::len word) * b = word_of_int (sint a * sint b)"
  by (simp add: scast_id)

lemma scast_sint: "(scast (a :: 'a::len word) :: 'b::len word) = word_of_int (sint a)"
  by (simp add: signed_scast_eq)

lemma sint32_add:
  "sint (a :: i32) + sint b = k \<Longrightarrow> - 2147483648 \<le> k \<Longrightarrow> k \<le> 2147483647 \<Longrightarrow> sint (a + b) = k"
  by (simp only: word_add_sint sint32_of_int)

section \<open>Primitives\<close>

definition INT32_MIN :: i32 where "INT32_MIN = - 2147483648"
definition INT32_MAX :: i32 where "INT32_MAX = 2147483647"
definition INT16_MIN :: i16 where "INT16_MIN = - 32768"
definition INT16_MAX :: i16 where "INT16_MAX = 32767"

text \<open>C++'s \<open>/\<close> truncates towards zero; the divisors here are positive constants.\<close>

definition cdiv :: "'a::len word \<Rightarrow> int \<Rightarrow> 'a word" where
  "cdiv x d = word_of_int (sint x sdiv d)"

definition Dup :: "i64 \<Rightarrow> 'a::len word" where
  "Dup x = scast x"

definition BitAnd :: "'a::len word \<Rightarrow> 'a word \<Rightarrow> 'a word" where
  "BitAnd a b = a AND b"

definition BitNot :: "'a::len word \<Rightarrow> 'a word" where
  "BitNot a = NOT a"

definition Add :: "'a::len word \<Rightarrow> 'a word \<Rightarrow> 'a word" where
  "Add a b = a + b"

definition ShiftRight :: "'a::len word \<Rightarrow> int \<Rightarrow> 'a word" where
  "ShiftRight a offset = signed_drop_bit (nat offset) a"

definition MaskIfNonZero :: "'a::len word \<Rightarrow> 'a word" where
  "MaskIfNonZero a = (let zero = 0 in if a \<noteq> 0 then BitNot zero else zero)"

definition MaskIfGreaterThan :: "'a::len word \<Rightarrow> 'a word \<Rightarrow> 'a word" where
  "MaskIfGreaterThan a b = MaskIfNonZero (of_bool (b <s a))"

definition MaskIfLessThan :: "'a::len word \<Rightarrow> 'a word \<Rightarrow> 'a word" where
  "MaskIfLessThan a b = MaskIfNonZero (of_bool (a <s b))"

definition SaturatingRoundingDoublingHighMul :: "i32 \<Rightarrow> i32 \<Rightarrow> i32" where
  "SaturatingRoundingDoublingHighMul a b = (
     let overflow = (a = b \<and> a = INT32_MIN);
         a_64 = scast a :: i64;
         b_64 = scast b :: i64;
         ab_64 = a_64 * b_64;
         nudge = (if 0 \<le>s ab_64 then push_bit 30 1 else 1 - push_bit 30 1) :: i32;
         ab_x2_high32 = scast (cdiv (ab_64 + scast nudge) (2 ^ 31)) :: i32
     in if overflow then INT32_MAX else ab_x2_high32)"

definition SaturatingRoundingDoublingHighMul16 :: "i16 \<Rightarrow> i16 \<Rightarrow> i16" where
  "SaturatingRoundingDoublingHighMul16 a b = (
     let overflow = (a = b \<and> a = INT16_MIN);
         a_32 = scast a :: i32;
         b_32 = scast b :: i32;
         ab_32 = a_32 * b_32;
         nudge = (if 0 \<le>s ab_32 then push_bit 14 1 else 1 - push_bit 14 1) :: i16;
         ab_x2_high16 = scast (cdiv (ab_32 + scast nudge) (2 ^ 15)) :: i16
     in if overflow then INT16_MAX else ab_x2_high16)"

text \<open>The asserted range of the exponent is also the range in which the shifts are defined.\<close>

definition RoundingDivideByPOT :: "'a::len word \<Rightarrow> int \<Rightarrow> 'a word option" where
  "RoundingDivideByPOT x exponent = (
     if 0 \<le> exponent \<and> exponent \<le> 31 then
       let mask = Dup (push_bit (nat exponent) 1 - 1);
           zero = Dup 0;
           one = Dup 1;
           remainder = BitAnd x mask;
           threshold = Add (ShiftRight mask 1) (BitAnd (MaskIfLessThan x zero) one)
       in Some (Add (ShiftRight x exponent) (BitAnd (MaskIfGreaterThan remainder threshold) one))
     else None)"

section \<open>MultiplyByQuantizedMultiplier\<close>

text \<open>The double-rounding version (\<open>TFLITE_SINGLE_ROUNDING\<close> is not defined in this build).\<close>

definition MultiplyByQuantizedMultiplierSmallerThanOneExp :: "i32 \<Rightarrow> i32 \<Rightarrow> int \<Rightarrow> i32 option" where
  "MultiplyByQuantizedMultiplierSmallerThanOneExp x quantized_multiplier left_shift =
     RoundingDivideByPOT (SaturatingRoundingDoublingHighMul x quantized_multiplier) (- left_shift)"

definition MultiplyByQuantizedMultiplierGreaterThanOne :: "i32 \<Rightarrow> i32 \<Rightarrow> int \<Rightarrow> i32 option" where
  "MultiplyByQuantizedMultiplierGreaterThanOne x quantized_multiplier left_shift =
     (if 0 \<le> left_shift \<and> left_shift \<le> 31
      then Some (SaturatingRoundingDoublingHighMul (x * push_bit (nat left_shift) 1) quantized_multiplier)
      else None)"

definition MultiplyByQuantizedMultiplier :: "i32 \<Rightarrow> i32 \<Rightarrow> int \<Rightarrow> i32 option" where
  "MultiplyByQuantizedMultiplier x quantized_multiplier shift = (
     let left_shift = (if shift > 0 then shift else 0);
         right_shift = (if shift > 0 then 0 else - shift)
     in if left_shift \<le> 31
        then RoundingDivideByPOT
               (SaturatingRoundingDoublingHighMul (x * push_bit (nat left_shift) 1) quantized_multiplier)
               right_shift
        else None)"

text \<open>The overload for a 64-bit accumulator, which reduces the multiplier to 16 bits.\<close>

definition reduced_multiplier :: "i32 \<Rightarrow> i32" where
  "reduced_multiplier quantized_multiplier =
     (if quantized_multiplier <s 0x7FFF0000
      then signed_drop_bit 16 (quantized_multiplier + push_bit 15 1)
      else 0x7FFF)"

definition MultiplyByQuantizedMultiplier64 :: "bool \<Rightarrow> i64 \<Rightarrow> i32 \<Rightarrow> int \<Rightarrow> i32 option" where
  "MultiplyByQuantizedMultiplier64 ndebug x quantized_multiplier shift = do {
     dcheck ndebug (0 \<le>s quantized_multiplier);
     dcheck ndebug (- 31 \<le> shift \<and> shift < 8);
     dcheck ndebug (- push_bit 47 1 \<le>s x \<and> x <s push_bit 47 1);
     let total_shift = 15 - shift;
     if 1 \<le> total_shift \<and> total_shift \<le> 63
     then let x' = x * scast (reduced_multiplier quantized_multiplier)
                     + push_bit (nat (total_shift - 1)) 1
          in Some (scast (signed_drop_bit (nat total_shift) x'))
     else None
   }"

section \<open>What the primitives compute\<close>

text \<open>Rounding halves up, on the integers.\<close>

lemma sdiv_round_half_up:
  fixes p :: int and h :: int
  assumes "0 < h"
  shows "(p + (if 0 \<le> p then h else 1 - h)) sdiv (2 * h) = (p + h) div (2 * h)"
proof (cases "0 \<le> p")
  case True
  then show ?thesis using assms by (simp add: signed_divide_int_def sgn_if)
next
  case False
  define n where "n = - p"
  define q where "q = (n + h - 1) div (2 * h)"
  define r where "r = (n + h - 1) mod (2 * h)"
  have qr: "n + h - 1 = 2 * h * q + r" "0 \<le> r" "r < 2 * h"
    using assms by (simp_all add: q_def r_def)
  have "(p + h) div (2 * h) = - q"
  proof (rule int_div_pos_eq)
    show "p + h = 2 * h * (- q) + (2 * h - 1 - r)"
      using qr(1) by (simp add: n_def algebra_simps)
  qed (use qr in auto)
  moreover have "(p + (1 - h)) sdiv (2 * h) = - q"
    using False assms by (auto simp: signed_divide_int_def sgn_if q_def n_def algebra_simps)
  ultimately show ?thesis using False by simp
qed

lemma product_bound32:
  "\<bar>sint (a :: i32) * sint (b :: i32)\<bar> \<le> 4611686018427387904"
proof -
  have "\<bar>sint a\<bar> \<le> 2147483648" "\<bar>sint b\<bar> \<le> 2147483648"
    using sint32_range [of a] sint32_range [of b] by auto
  then have "\<bar>sint a\<bar> * \<bar>sint b\<bar> \<le> 2147483648 * 2147483648"
    by (intro mult_mono) auto
  then show ?thesis by (simp add: abs_mult)
qed

lemma product_saturates32:
  assumes "\<not> (a = b \<and> a = INT32_MIN)"
  shows "sint (a :: i32) * sint b \<le> 4611686016279904256"
proof -
  have "sint a \<noteq> - 2147483648 \<or> sint b \<noteq> - 2147483648"
  proof -
    have "sint INT32_MIN = - 2147483648" by (simp add: INT32_MIN_def)
    with assms show ?thesis by (metis signed_word_eqI)
  qed
  then have "\<bar>sint a\<bar> \<le> 2147483647 \<and> \<bar>sint b\<bar> \<le> 2147483648 \<or>
      \<bar>sint a\<bar> \<le> 2147483648 \<and> \<bar>sint b\<bar> \<le> 2147483647"
    using sint32_range [of a] sint32_range [of b] by auto
  then have "\<bar>sint a\<bar> * \<bar>sint b\<bar> \<le> 2147483647 * 2147483648"
    using mult_mono [of "\<bar>sint a\<bar>" 2147483647 "\<bar>sint b\<bar>" 2147483648]
      mult_mono [of "\<bar>sint a\<bar>" 2147483648 "\<bar>sint b\<bar>" 2147483647] by auto
  then have "\<bar>sint a * sint b\<bar> \<le> 4611686016279904256" by (simp add: abs_mult)
  then show ?thesis by linarith
qed

lemma sint_scast_up: "LENGTH('a) \<le> LENGTH('b) \<Longrightarrow> sint (scast (a :: 'a::len word) :: 'b::len word) = sint a"
  by (rule sint_up_scast) (simp add: is_up.rep_eq)

lemma sint_scast_32_64: "sint (scast (a :: i32) :: i64) = sint a"
  by (rule sint_scast_up) simp

lemma sint_scast_16_32: "sint (scast (a :: i16) :: i32) = sint a"
  by (rule sint_scast_up) simp

theorem SaturatingRoundingDoublingHighMul_value:
  "sint (SaturatingRoundingDoublingHighMul a b) =
     (if a = b \<and> a = INT32_MIN then 2147483647 else (sint a * sint b + 2 ^ 30) div 2 ^ 31)"
proof (cases "a = b \<and> a = INT32_MIN")
  case True
  then have "SaturatingRoundingDoublingHighMul a b = INT32_MAX"
    by (auto simp: SaturatingRoundingDoublingHighMul_def Let_def)
  with True show ?thesis by (auto simp: INT32_MAX_def)
next
  case False
  define p where "p = sint a * sint b"
  have p: "- 4611686018427387904 \<le> p" "p \<le> 4611686016279904256"
    using product_bound32 [of a b] product_saturates32 [OF False] by (auto simp: p_def)
  let ?ab = "scast a * scast b :: i64"
  let ?n = "(if 0 \<le>s ?ab then push_bit 30 1 else 1 - push_bit 30 1) :: i32"
  have ab: "sint ?ab = p"
    using p by (simp only: word_mult_sint sint_scast_32_64 flip: p_def) (simp add: sint64_of_int)
  have n: "sint ?n = (if 0 \<le> p then 2 ^ 30 else 1 - 2 ^ 30)"
    by (simp add: word_sle_eq ab)
  have "sint (?ab + scast ?n) = p + (if 0 \<le> p then 2 ^ 30 else 1 - 2 ^ 30)"
    using p by (simp only: word_add_sint ab sint_scast_32_64 n) (subst sint64_of_int, auto)
  then have d: "sint (?ab + scast ?n) sdiv 2 ^ 31 = (p + 2 ^ 30) div 2 ^ 31"
    using sdiv_round_half_up [of "2 ^ 30" p] by simp
  have "- 2147483648 \<le> (p + 2 ^ 30) div 2 ^ 31" "(p + 2 ^ 30) div 2 ^ 31 \<le> 2147483647"
    using p by auto
  then have "sint (scast (word_of_int ((p + 2 ^ 30) div 2 ^ 31) :: i64) :: i32) = (p + 2 ^ 30) div 2 ^ 31"
    unfolding scast_sint by (subst sint64_of_int; (subst sint32_of_int)?) auto
  then have "sint (scast (cdiv (?ab + scast ?n) (2 ^ 31)) :: i32) = (p + 2 ^ 30) div 2 ^ 31"
    unfolding cdiv_def d .
  then show ?thesis
    by (simp only: SaturatingRoundingDoublingHighMul_def Let_def False if_False p_def)
qed

text \<open>Rounding halves away from zero, on the integers.\<close>

definition round_pot :: "int \<Rightarrow> nat \<Rightarrow> int" where
  "round_pot x e = sgn x * ((\<bar>x\<bar> + 2 ^ e div 2) div 2 ^ e)"

lemma round_pot_0 [simp]: "round_pot x 0 = x"
  by (auto simp: round_pot_def sgn_if)

lemma round_pot_Suc:
  "round_pot x (Suc n) = x div 2 ^ Suc n + of_bool (x mod 2 ^ Suc n > 2 ^ n - 1 + of_bool (x < 0))"
proof -
  define h :: int where "h = 2 ^ n"
  define q where "q = x div (2 * h)"
  define r where "r = x mod (2 * h)"
  have h: "0 < h" by (simp add: h_def)
  have x: "x = 2 * h * q + r" "0 \<le> r" "r < 2 * h"
    using h by (simp_all add: q_def r_def)
  have goal: "sgn x * ((\<bar>x\<bar> + h) div (2 * h)) = q + of_bool (r > h - 1 + of_bool (x < 0))"
  proof (cases "0 \<le> x")
    case True
    have "(x + h) div (2 * h) = q + of_bool (r > h - 1)"
    proof (rule int_div_pos_eq)
      show "x + h = 2 * h * (q + of_bool (r > h - 1)) + (r + h - 2 * h * of_bool (r > h - 1))"
        using x(1) by (simp add: algebra_simps)
    qed (use x h in \<open>auto simp: of_bool_def\<close>)
    moreover have "x = 0 \<Longrightarrow> q = 0 \<and> r = 0" by (simp add: q_def r_def)
    ultimately show ?thesis using True h by (cases "x = 0") (simp_all add: sgn_if)
  next
    case False
    have "(- x + h) div (2 * h) = - q - of_bool (r > h)"
    proof (rule int_div_pos_eq)
      show "- x + h = 2 * h * (- q - of_bool (r > h)) + (h - r + 2 * h * of_bool (r > h))"
        using x(1) by (simp add: algebra_simps)
    qed (use x h in \<open>auto simp: of_bool_def\<close>)
    with False h show ?thesis by (simp add: sgn_if)
  qed
  then show ?thesis by (simp add: round_pot_def q_def r_def h_def)
qed

lemma round_pot_error:
  shows "\<bar>round_pot x e * 2 ^ e - x\<bar> \<le> 2 ^ e div 2"
proof (cases e)
  case 0
  then show ?thesis by simp
next
  case (Suc n)
  define h :: int where "h = 2 ^ n"
  define q where "q = (\<bar>x\<bar> + h) div (2 * h)"
  have h: "0 < h" by (simp add: h_def)
  have "\<bar>x\<bar> + h = 2 * h * q + (\<bar>x\<bar> + h) mod (2 * h)" by (simp add: q_def)
  moreover have "0 \<le> (\<bar>x\<bar> + h) mod (2 * h)" "(\<bar>x\<bar> + h) mod (2 * h) < 2 * h" using h by simp_all
  ultimately have "\<bar>q * (2 * h) - \<bar>x\<bar>\<bar> \<le> h" by (simp add: algebra_simps)
  moreover have "sgn x * q * (2 * h) - x = sgn x * (q * (2 * h) - \<bar>x\<bar>)"
    by (simp add: algebra_simps abs_sgn)
  ultimately have "\<bar>sgn x * q * (2 * h) - x\<bar> \<le> h"
    using h by (auto simp: sgn_if abs_mult)
  then show ?thesis by (simp add: round_pot_def Suc q_def h_def)
qed

lemma round_pot_mono: "x \<le> y \<Longrightarrow> round_pot x e \<le> round_pot y e"
proof -
  assume "x \<le> y"
  let ?f = "\<lambda>z. (z + 2 ^ e div 2) div 2 ^ e :: int"
  have mono: "a \<le> b \<Longrightarrow> ?f a \<le> ?f b" for a b :: int by (intro zdiv_mono1) auto
  have pos: "0 \<le> a \<Longrightarrow> 0 \<le> ?f a" for a :: int by (simp add: pos_imp_zdiv_nonneg_iff)
  show ?thesis
    using \<open>x \<le> y\<close> mono [of x y] mono [of "- y" "- x"] pos [of y] pos [of "- x"]
    by (auto simp: round_pot_def sgn_if)
qed

lemma take_bit_sint32: "n \<le> 32 \<Longrightarrow> uint (take_bit n (x :: i32)) = sint x mod 2 ^ n"
proof -
  assume "n \<le> 32"
  have "take_bit n (uint x) = take_bit n (signed_take_bit 31 (uint x))" if "n < 32"
    using that by (simp add: take_bit_signed_take_bit)
  moreover have "take_bit 32 (uint x) = take_bit 32 (signed_take_bit 31 (uint x))"
    using take_bit_signed_take_bit [of 32 31 "uint x"] by simp
  ultimately have "take_bit n (uint x) = take_bit n (sint x)"
    using \<open>n \<le> 32\<close> by (cases "n = 32") (simp_all add: sint_uint)
  then show ?thesis by (simp add: unsigned_take_bit_eq flip: take_bit_eq_mod)
qed

lemma sint_take_bit32: "n \<le> 31 \<Longrightarrow> sint (take_bit n (x :: i32)) = sint x mod 2 ^ n"
proof -
  assume n: "n \<le> 31"
  define m where "m = sint x mod 2 ^ n"
  have "m < 2 ^ n" by (simp add: m_def)
  also have "(2::int) ^ n \<le> 2 ^ 31" using n by (intro power_increasing) auto
  finally have m: "0 \<le> m" "m < 2 ^ 31" by (simp_all add: m_def)
  have "sint (take_bit n x) = signed_take_bit (LENGTH(32) - 1) (uint (take_bit n x))"
    using sint_uint [of "take_bit n x"] by simp
  also have "uint (take_bit n x) = m" using n by (simp add: take_bit_sint32 m_def)
  also have "signed_take_bit (LENGTH(32) - 1) m = m"
    using m by (intro signed_take_bit_int_eq_self) auto
  finally show ?thesis by (simp add: m_def)
qed

lemma Dup_01: "Dup 0 = 0" "Dup 1 = 1"
  by (simp_all add: Dup_def)

lemma mask_word32: "n \<le> 31 \<Longrightarrow> (Dup (push_bit n 1 - 1) :: i32) = mask n"
proof -
  assume "n \<le> 31"
  have "push_bit n 1 - 1 = (mask n :: i64)"
    by (simp add: mask_eq_exp_minus_1 push_bit_of_1)
  moreover have "scast (mask n :: i64) = (mask n :: i32)"
    using \<open>n \<le> 31\<close> by (intro bit_word_eqI) (auto simp: bit_simps)
  ultimately show ?thesis by (simp add: Dup_def)
qed

lemma div_between:
  fixes s k :: int
  assumes "0 < k" and "- c \<le> s" and "s \<le> d" and "0 \<le> c" and "0 \<le> d"
  shows "- c \<le> s div k \<and> s div k \<le> d"
proof
  have "c * 1 \<le> c * k" using assms by (intro mult_left_mono) auto
  then have "(- c * k) div k \<le> s div k" using assms by (intro zdiv_mono1) auto
  then show "- c \<le> s div k" using assms(1) by (simp only: nonzero_mult_div_cancel_right)
  have "d * 1 \<le> d * k" using assms by (intro mult_left_mono) auto
  then have "s div k \<le> (d * k) div k" using assms by (intro zdiv_mono1) auto
  then show "s div k \<le> d" using assms(1) by (simp only: nonzero_mult_div_cancel_right)
qed

theorem RoundingDivideByPOT_value:
  assumes "0 \<le> e" and "e \<le> 31"
  shows "\<exists>r. RoundingDivideByPOT (x :: i32) e = Some r \<and> sint r = round_pot (sint x) (nat e)"
proof -
  define n where "n = nat e"
  have n: "n \<le> 31" using assms by (simp add: n_def)
  have mask: "(Dup (push_bit n 1 - 1) :: i32) = mask n" by (rule mask_word32 [OF n])
  define rem where "rem = BitAnd x (mask n)"
  define thr where "thr = Add (ShiftRight (mask n :: i32) 1) (BitAnd (MaskIfLessThan x 0) 1)"
  have rem: "sint rem = sint x mod 2 ^ n"
    using n by (simp add: rem_def BitAnd_def sint_take_bit32 flip: take_bit_eq_mask)
  have pow: "(2 :: int) ^ n \<le> 2147483648"
    using power_increasing [of n 31 "2 :: int"] n by simp
  have "sint (mask n :: i32) = 2 ^ n - 1"
    using sint_take_bit32 [OF n, of "- 1"] by (simp add: take_bit_minus_one_eq_mask zmod_minus1)
  then have "sint (ShiftRight (mask n :: i32) 1) = (2 ^ n - 1) div 2"
    by (simp add: ShiftRight_def sint_signed_drop_bit_eq drop_bit_eq_div)
  moreover have "sint (BitAnd (MaskIfLessThan x 0) 1) = of_bool (sint x < 0)"
    by (simp add: BitAnd_def MaskIfLessThan_def MaskIfNonZero_def BitNot_def word_sless_alt)
  moreover have "0 \<le> (2 ^ n - 1) div (2 :: int)" "(2 ^ n - 1) div 2 \<le> (1073741824 :: int)"
    using pow by (auto simp: pos_imp_zdiv_nonneg_iff)
  ultimately have thr: "sint thr = (2 ^ n - 1) div 2 + of_bool (sint x < 0)"
    unfolding thr_def Add_def by (intro sint32_add; (simp only:)?) (cases "sint x < 0"; simp only: of_bool_eq; linarith)+
  define b where "b = (thr <s rem)"
  have b: "b \<longleftrightarrow> (2 ^ n - 1) div 2 + of_bool (sint x < 0) < sint x mod 2 ^ n"
    by (simp add: b_def word_sless_alt rem thr)
  have rnd: "sint x div 2 ^ n + of_bool b = round_pot (sint x) n"
  proof (cases n)
    case 0
    then show ?thesis using b by simp
  next
    case (Suc m)
    have "(2 ^ n - 1) div 2 = (2 ^ m - 1 :: int)" by (simp add: Suc)
    then show ?thesis unfolding b Suc round_pot_Suc by simp
  qed
  have "sint (BitAnd (MaskIfGreaterThan rem thr) 1) = of_bool b"
    by (simp add: BitAnd_def MaskIfGreaterThan_def MaskIfNonZero_def BitNot_def b_def)
  moreover have "sint (ShiftRight x e) = sint x div 2 ^ n"
    by (simp add: ShiftRight_def sint_signed_drop_bit_eq drop_bit_eq_div n_def)
  moreover have "- 2147483648 \<le> sint x div 2 ^ n + of_bool b \<and> sint x div 2 ^ n + of_bool b \<le> 2147483647"
  proof (cases n)
    case 0
    with b show ?thesis using sint32_range [of x] by (simp add: of_bool_def)
  next
    case (Suc m)
    define q where "q = sint x div 2 ^ n"
    have "sint x div 2 ^ n = sint x div 2 div 2 ^ m"
      by (simp add: Suc zdiv_zmult2_eq)
    moreover have "- 1073741824 \<le> sint x div 2" "sint x div 2 \<le> 1073741823"
      using sint32_range [of x] by auto
    ultimately have "- 1073741824 \<le> sint x div 2 ^ n \<and> sint x div 2 ^ n \<le> 1073741823"
      using div_between [of "2 ^ m" 1073741824 "sint x div 2" 1073741823] by simp
    then show ?thesis by (simp add: of_bool_def)
  qed
  ultimately have "sint (Add (ShiftRight x e) (BitAnd (MaskIfGreaterThan rem thr) 1)) =
      round_pot (sint x) n"
    unfolding Add_def using rnd by (intro sint32_add) auto
  moreover have "RoundingDivideByPOT x e =
      Some (Add (ShiftRight x e) (BitAnd (MaskIfGreaterThan rem thr) 1))"
    unfolding RoundingDivideByPOT_def Let_def n_def [symmetric] mask Dup_01 rem_def thr_def
    using assms by simp
  ultimately show ?thesis by (simp add: n_def)
qed

section \<open>What the multiplication by a quantized multiplier computes\<close>

text \<open>For a shift that does not scale up, in two rounding steps.\<close>

definition mbqm_value :: "int \<Rightarrow> int \<Rightarrow> nat \<Rightarrow> int" where
  "mbqm_value x m e = round_pot ((x * m + 2 ^ 30) div 2 ^ 31) e"

lemma MultiplyByQuantizedMultiplier_value:
  assumes "- 31 \<le> shift" and "shift \<le> 0" and "m \<noteq> INT32_MIN"
  shows "\<exists>r. MultiplyByQuantizedMultiplier x m shift = Some r \<and>
    sint r = mbqm_value (sint x) (sint m) (nat (- shift))"
  using RoundingDivideByPOT_value [of "- shift" "SaturatingRoundingDoublingHighMul x m"] assms
  by (auto simp: MultiplyByQuantizedMultiplier_def SaturatingRoundingDoublingHighMul_value mbqm_value_def)

lemma MultiplyByQuantizedMultiplier_defined:
  assumes "- 31 \<le> shift" and "shift \<le> 31"
  shows "\<exists>r. MultiplyByQuantizedMultiplier x m shift = Some r"
  using assms RoundingDivideByPOT_value [where x = "SaturatingRoundingDoublingHighMul
      (x * push_bit (nat (if shift > 0 then shift else 0)) 1) m"
      and e = "if shift > 0 then 0 else - shift"]
  by (auto simp: MultiplyByQuantizedMultiplier_def Let_def split: if_splits)

lemma mbqm_value_error:
  "\<bar>mbqm_value x m e * 2 ^ (31 + e) - x * m\<bar> \<le> 2 ^ 30 + 2 ^ 30 * 2 ^ e"
proof -
  define s where "s = (x * m + 2 ^ 30) div 2 ^ 31"
  have "\<bar>s * 2 ^ 31 - x * m\<bar> \<le> 2 ^ 30" unfolding s_def by simp
  moreover define d where "d = mbqm_value x m e * 2 ^ e - s"
  moreover have "\<bar>d * 2 ^ 31\<bar> \<le> 2 ^ 30 * 2 ^ e"
  proof -
    have "\<bar>d\<bar> \<le> 2 ^ e div 2"
      unfolding d_def mbqm_value_def s_def by (rule round_pot_error)
    then show ?thesis by (simp add: abs_mult)
  qed
  moreover have "mbqm_value x m e * 2 ^ (31 + e) - x * m = d * 2 ^ 31 + (s * 2 ^ 31 - x * m)"
    by (simp add: d_def power_add algebra_simps)
  ultimately show ?thesis by linarith
qed

lemma mbqm_value_mono: "0 \<le> m \<Longrightarrow> x \<le> y \<Longrightarrow> mbqm_value x m e \<le> mbqm_value y m e"
  unfolding mbqm_value_def
  by (intro round_pot_mono zdiv_mono1 add_right_mono mult_right_mono) auto

section \<open>Properties\<close>

text \<open>
  C7. \<open>SaturatingRoundingDoublingHighMul\<close> is the product of two Q31 numbers, rounded to the nearest
  with halves up; it saturates in the only case that overflows, and in every other case its error
  is at most half a unit.
\<close>

theorem SRDHM_rounds:
  "sint (SaturatingRoundingDoublingHighMul a b) =
     (if a = INT32_MIN \<and> b = INT32_MIN then sint INT32_MAX else (sint a * sint b + 2 ^ 30) div 2 ^ 31) \<and>
   \<bar>sint (SaturatingRoundingDoublingHighMul a b) * 2 ^ 31 - sint a * sint b\<bar> \<le>
     (if a = INT32_MIN \<and> b = INT32_MIN then 2 ^ 31 else 2 ^ 30)"
proof -
  have v: "sint (SaturatingRoundingDoublingHighMul a b) =
      (if a = INT32_MIN \<and> b = INT32_MIN then sint INT32_MAX else (sint a * sint b + 2 ^ 30) div 2 ^ 31)"
    unfolding SaturatingRoundingDoublingHighMul_value by (auto simp: INT32_MAX_def)
  have "\<bar>(p + 2 ^ 30) div 2 ^ 31 * 2 ^ 31 - p\<bar> \<le> 2 ^ 30" for p :: int by simp
  then show ?thesis
    unfolding v by (simp add: INT32_MIN_def INT32_MAX_def)
qed

text \<open>
  C8. \<open>RoundingDivideByPOT\<close> divides by a power of two and rounds to the nearest, halves away from
  zero, for every exponent its assertions allow.
\<close>

theorem RoundingDivideByPOT_nearest:
  assumes "0 \<le> e" and "e \<le> 31"
  shows "\<exists>r. RoundingDivideByPOT (x :: i32) e = Some r \<and>
    sint r = sgn (sint x) * ((\<bar>sint x\<bar> + 2 ^ nat e div 2) div 2 ^ nat e) \<and>
    \<bar>sint r * 2 ^ nat e - sint x\<bar> \<le> 2 ^ nat e div 2"
  using RoundingDivideByPOT_value [OF assms, of x] round_pot_error [of "sint x" "nat e"]
  by (auto simp: round_pot_def)

theorem RoundingDivideByPOT_nearest_witness:
  "\<exists>r. RoundingDivideByPOT (- 5 :: i32) 1 = Some r \<and> sint r = - 3"
  using RoundingDivideByPOT_nearest [of 1 "- 5"] by (auto simp: sgn_if)



text \<open>
  Scaling keeps the order of accumulators, so clamping and the choice of a maximum commute with it.
\<close>

theorem MultiplyByQuantizedMultiplier_mono:
  assumes "- 31 \<le> shift" and "shift \<le> 0" and "0 \<le>s m" and "x \<le>s y"
    and "MultiplyByQuantizedMultiplier x m shift = Some r" and "MultiplyByQuantizedMultiplier y m shift = Some t"
  shows "r \<le>s t"
proof -
  have m: "m \<noteq> INT32_MIN" "0 \<le> sint m" "sint x \<le> sint y"
    using assms(3,4) by (auto simp: INT32_MIN_def word_sle_eq)
  show ?thesis
    using MultiplyByQuantizedMultiplier_value [OF assms(1,2) m(1), of x] MultiplyByQuantizedMultiplier_value [OF assms(1,2) m(1), of y]
      mbqm_value_mono [OF m(2,3), of "nat (- shift)"] assms(5,6)
    by (auto simp: word_sle_eq)
qed

theorem MultiplyByQuantizedMultiplier_mono_witness:
  "MultiplyByQuantizedMultiplier 100 0x40000000 (- 1) = Some 25 \<and>
   MultiplyByQuantizedMultiplier 101 0x40000000 (- 1) = Some 26 \<and> (25 :: i32) \<le>s 26"
proof -
  have "MultiplyByQuantizedMultiplier 100 0x40000000 (- 1) = Some 25"
    "MultiplyByQuantizedMultiplier 101 0x40000000 (- 1) = Some 26"
    by code_simp+
  with MultiplyByQuantizedMultiplier_mono [of "- 1" "0x40000000" 100 101 25 26] show ?thesis
    by (simp add: word_sle_eq)
qed

end
