(* ===== verification/Runtime_Shape.thy ===== *)
theory Runtime_Shape
  imports Fixedpoint
begin

text \<open>
  Tensor shapes (\<open>runtime_shape.h\<close>), the dimension checks of \<open>types.h\<close> and the parameter
  structures of the convolution kernels. \<open>int\<close> values of the C++ code are \<open>int\<close> here; where an
  expression is evaluated in 32 bits and the shape alone does not bound it, \<open>wrap32\<close> wraps it.
  Section \<open>Row-major positions\<close> proves that \<open>Offset\<close> is the bijection between the index tuples
  of a shape and the flat positions below its \<open>FlatSize\<close>.
\<close>

section \<open>Shapes\<close>

definition wrap32 :: "int \<Rightarrow> int" where
  "wrap32 k = sint (word_of_int k :: i32)"

text \<open>\<open>shape_dims\<close> (\<open>dims_\<close> in the code) is the array of \<open>kMaxSize\<close> entries, of which the first \<open>shape_size\<close> (\<open>size_\<close>) are in use.\<close>

record RuntimeShape =
  shape_size :: int
  shape_dims :: "i32 list"

definition kMaxSize :: int where
  "kMaxSize = 5"

definition DimensionsCount :: "RuntimeShape \<Rightarrow> int" where
  "DimensionsCount s = shape_size s"

definition Dims :: "bool \<Rightarrow> RuntimeShape \<Rightarrow> int \<Rightarrow> int option" where
  "Dims nd s i = do {
     dcheck nd (0 \<le> i);
     dcheck nd (i < shape_size s);
     d \<leftarrow> rd (shape_dims s) i;
     Some (sint d) }"

definition SetDim :: "bool \<Rightarrow> RuntimeShape \<Rightarrow> int \<Rightarrow> i32 \<Rightarrow> RuntimeShape option" where
  "SetDim nd s i v = do {
     dcheck nd (0 \<le> i);
     dcheck nd (i < shape_size s);
     ds \<leftarrow> wr (shape_dims s) i v;
     Some (s\<lparr>shape_dims := ds\<rparr>) }"

text \<open>\<open>std::memcpy\<close> of \<open>n\<close> words from the start of \<open>src\<close> to position \<open>off\<close> of \<open>dst\<close>.\<close>

definition memcpy :: "'a list \<Rightarrow> int \<Rightarrow> 'a list \<Rightarrow> int \<Rightarrow> 'a list option" where
  "memcpy dst off src n =
     (if 0 \<le> n \<and> 0 \<le> off \<and> off + n \<le> int (length dst) \<and> n \<le> int (length src)
      then Some (take (nat off) dst @ take (nat n) src @ drop (nat (off + n)) dst)
      else None)"

text \<open>
  The constructors get the uninitialised contents \<open>mem\<close> of the object's \<open>shape_dims\<close> array.
\<close>

definition RuntimeShape_uninit :: "i32 list \<Rightarrow> int \<Rightarrow> RuntimeShape" where
  "RuntimeShape_uninit mem n = \<lparr>shape_size = n, shape_dims = mem\<rparr>"

definition RuntimeShape_fill :: "bool \<Rightarrow> i32 list \<Rightarrow> int \<Rightarrow> i32 \<Rightarrow> RuntimeShape option" where
  "RuntimeShape_fill nd mem new_size v =
     cfor 0 new_size 1 (\<lambda>i s. SetDim nd s i v) (RuntimeShape_uninit mem new_size)"

definition ReplaceWith :: "RuntimeShape \<Rightarrow> int \<Rightarrow> i32 list \<Rightarrow> RuntimeShape option" where
  "ReplaceWith s n data = do {
     ds \<leftarrow> memcpy (shape_dims s) 0 data n;
     Some (s\<lparr>shape_size := n, shape_dims := ds\<rparr>) }"

definition RuntimeShape_of :: "i32 list \<Rightarrow> int \<Rightarrow> i32 list \<Rightarrow> RuntimeShape option" where
  "RuntimeShape_of mem n data = ReplaceWith (RuntimeShape_uninit mem n) n data"

definition shape_eq :: "RuntimeShape \<Rightarrow> RuntimeShape \<Rightarrow> bool" where
  "shape_eq s t \<longleftrightarrow> shape_size s = shape_size t \<and>
     take (nat (shape_size s)) (shape_dims s) = take (nat (shape_size s)) (shape_dims t)"

text \<open>\<open>TFLITE_CHECK\<close> is never compiled out.\<close>

definition ExtendedShape :: "bool \<Rightarrow> i32 list \<Rightarrow> int \<Rightarrow> RuntimeShape \<Rightarrow> RuntimeShape option" where
  "ExtendedShape nd mem new_shape_size shape = do {
     dcheck False (DimensionsCount shape \<le> new_shape_size);
     let size_increase = new_shape_size - DimensionsCount shape;
     s \<leftarrow> cfor 0 size_increase 1 (\<lambda>i s. SetDim nd s i 1) (RuntimeShape_uninit mem new_shape_size);
     ds \<leftarrow> memcpy (shape_dims s) size_increase (shape_dims shape) (DimensionsCount shape);
     Some (s\<lparr>shape_dims := ds\<rparr>) }"

definition FlatSize :: "RuntimeShape \<Rightarrow> int option" where
  "FlatSize s = do {
     buffer_size \<leftarrow> cfor 0 (shape_size s) 1
       (\<lambda>i buffer_size. do { d \<leftarrow> rd (shape_dims s) i; Some (buffer_size * d) }) (1 :: i32);
     Some (sint buffer_size) }"

text \<open>The guard of \<open>Offset\<close>: an index is below its dimension, or both are zero.\<close>

definition index_ok :: "int \<Rightarrow> int \<Rightarrow> bool" where
  "index_ok d i \<longleftrightarrow> (d = 0 \<and> i = 0) \<or> (0 \<le> i \<and> i < d)"

definition Offset :: "bool \<Rightarrow> RuntimeShape \<Rightarrow> int \<Rightarrow> int \<Rightarrow> int \<Rightarrow> int \<Rightarrow> int option" where
  "Offset nd shape i0 i1 i2 i3 = do {
     dcheck nd (DimensionsCount shape = 4);
     d0 \<leftarrow> map_option sint (rd (shape_dims shape) 0);
     d1 \<leftarrow> map_option sint (rd (shape_dims shape) 1);
     d2 \<leftarrow> map_option sint (rd (shape_dims shape) 2);
     d3 \<leftarrow> map_option sint (rd (shape_dims shape) 3);
     dcheck nd (index_ok d0 i0);
     dcheck nd (index_ok d1 i1);
     dcheck nd (index_ok d2 i2);
     dcheck nd (index_ok d3 i3);
     Some (wrap32 (((i0 * d1 + i1) * d2 + i2) * d3 + i3)) }"

definition Offset5 :: "bool \<Rightarrow> RuntimeShape \<Rightarrow> int \<Rightarrow> int \<Rightarrow> int \<Rightarrow> int \<Rightarrow> int \<Rightarrow> int option" where
  "Offset5 nd shape i0 i1 i2 i3 i4 = do {
     dcheck nd (DimensionsCount shape = 5);
     d0 \<leftarrow> map_option sint (rd (shape_dims shape) 0);
     d1 \<leftarrow> map_option sint (rd (shape_dims shape) 1);
     d2 \<leftarrow> map_option sint (rd (shape_dims shape) 2);
     d3 \<leftarrow> map_option sint (rd (shape_dims shape) 3);
     d4 \<leftarrow> map_option sint (rd (shape_dims shape) 4);
     dcheck nd (index_ok d0 i0);
     dcheck nd (index_ok d1 i1);
     dcheck nd (index_ok d2 i2);
     dcheck nd (index_ok d3 i3);
     dcheck nd (index_ok d4 i4);
     Some (wrap32 ((((i0 * d1 + i1) * d2 + i2) * d3 + i3) * d4 + i4)) }"

section \<open>Checks of matching dimensions\<close>

definition MatchingDim :: "bool \<Rightarrow> RuntimeShape \<Rightarrow> int \<Rightarrow> RuntimeShape \<Rightarrow> int \<Rightarrow> int option" where
  "MatchingDim nd shape1 index1 shape2 index2 = do {
     d1 \<leftarrow> Dims nd shape1 index1;
     d2 \<leftarrow> Dims nd shape2 index2;
     dcheck nd (d1 = d2);
     Some (min d1 d2) }"

definition MatchingFlatSize :: "bool \<Rightarrow> RuntimeShape \<Rightarrow> RuntimeShape \<Rightarrow> int option" where
  "MatchingFlatSize nd shape check_shape_0 = do {
     dcheck nd (DimensionsCount shape = DimensionsCount check_shape_0);
     let dims_count = DimensionsCount shape;
     cfor 0 dims_count 1 (\<lambda>i (u :: unit). do {
       d \<leftarrow> Dims nd shape i;
       e \<leftarrow> Dims nd check_shape_0 i;
       dcheck nd (d = e) }) ();
     FlatSize shape }"

definition MatchingElementsSize :: "RuntimeShape \<Rightarrow> RuntimeShape \<Rightarrow> int option" where
  "MatchingElementsSize shape check_shape_0 = do {
     size_1 \<leftarrow> FlatSize shape;
     size_2 \<leftarrow> FlatSize check_shape_0;
     dcheck False (size_1 = size_2);
     Some size_1 }"

section \<open>Parameters of the convolution kernels\<close>

datatype PaddingType = kNone | kSame | kValid

record PaddingValues =
  pad_width :: i16
  pad_height :: i16
  width_offset :: i16
  height_offset :: i16

text \<open>The two \<open>float\<close> bounds of \<open>ConvParams\<close> are of no use to the integer kernels.\<close>

record ConvParams =
  padding_type :: PaddingType
  padding_values :: PaddingValues
  stride_width :: i16
  stride_height :: i16
  dilation_width_factor :: i16
  dilation_height_factor :: i16
  input_offset :: i32
  weights_offset :: i32
  output_offset :: i32
  conv_output_multiplier :: i32
  conv_output_shift :: i32
  quantized_activation_min :: i32
  quantized_activation_max :: i32

section \<open>Row-major positions\<close>

definition flat4 :: "int \<Rightarrow> int \<Rightarrow> int \<Rightarrow> int \<Rightarrow> int \<Rightarrow> int \<Rightarrow> int \<Rightarrow> int" where
  "flat4 d1 d2 d3 i0 i1 i2 i3 = ((i0 * d1 + i1) * d2 + i2) * d3 + i3"

text \<open>A well-formed shape of four dimensions whose element count fits an \<open>int\<close>.\<close>

definition dim :: "RuntimeShape \<Rightarrow> int \<Rightarrow> int" where
  "dim s i = sint (shape_dims s ! nat i)"

definition shape4 :: "RuntimeShape \<Rightarrow> bool" where
  "shape4 s \<longleftrightarrow> shape_size s = 4 \<and> length (shape_dims s) = 5 \<and>
     0 \<le> dim s 0 \<and> 0 \<le> dim s 1 \<and> 0 \<le> dim s 2 \<and> 0 \<le> dim s 3 \<and>
     dim s 0 * dim s 1 * dim s 2 * dim s 3 < 2 ^ 31"

definition elems :: "RuntimeShape \<Rightarrow> int" where
  "elems s = dim s 0 * dim s 1 * dim s 2 * dim s 3"

lemma wrap32_id: "- (2 ^ 31) \<le> k \<Longrightarrow> k < 2 ^ 31 \<Longrightarrow> wrap32 k = k"
  by (simp add: wrap32_def sint32_of_int)

lemma flat_step:
  fixes a b d i :: int
  assumes "0 \<le> a" and "a < b" and "0 \<le> i" and "i < d"
  shows "0 \<le> a * d + i" and "a * d + i < b * d"
proof -
  show "0 \<le> a * d + i" using assms by simp
  have "(a + 1) * d \<le> b * d" using assms by (intro mult_right_mono) auto
  then show "a * d + i < b * d" using assms(4) by (simp add: algebra_simps)
qed

lemma flat4_bounds:
  assumes "0 \<le> i0" "i0 < d0" "0 \<le> i1" "i1 < d1" "0 \<le> i2" "i2 < d2" "0 \<le> i3" "i3 < d3"
  shows "0 \<le> flat4 d1 d2 d3 i0 i1 i2 i3" and "flat4 d1 d2 d3 i0 i1 i2 i3 < d0 * d1 * d2 * d3"
  unfolding flat4_def using assms by (auto intro!: flat_step)

lemma flat4_decode:
  assumes "0 \<le> i1" "i1 < d1" "0 \<le> i2" "i2 < d2" "0 \<le> i3" "i3 < d3"
  shows "flat4 d1 d2 d3 i0 i1 i2 i3 mod d3 = i3"
    and "flat4 d1 d2 d3 i0 i1 i2 i3 div d3 mod d2 = i2"
    and "flat4 d1 d2 d3 i0 i1 i2 i3 div d3 div d2 mod d1 = i1"
    and "flat4 d1 d2 d3 i0 i1 i2 i3 div d3 div d2 div d1 = i0"
  using assms by (simp_all add: flat4_def)

lemma flat4_encode:
  fixes k d1 d2 d3 :: int
  shows "flat4 d1 d2 d3 (k div d3 div d2 div d1) (k div d3 div d2 mod d1) (k div d3 mod d2) (k mod d3) = k"
  unfolding flat4_def by (simp only: div_mult_mod_eq)

lemma int_div_less:
  fixes k b d :: int
  assumes "0 < d" and "k < b * d"
  shows "k div d < b"
proof (rule ccontr)
  assume "\<not> k div d < b"
  then have "b * d \<le> k div d * d" using assms(1) by (intro mult_right_mono) auto
  with assms(2) show False
    using pos_mod_sign [OF assms(1), of k] div_mult_mod_eq [of k d] by linarith
qed

lemma decode4_bounds:
  fixes k d0 d1 d2 d3 :: int
  assumes "0 \<le> k" and "k < d0 * d1 * d2 * d3" and "0 \<le> d1" "0 \<le> d2" "0 \<le> d3"
  shows "0 \<le> k div d3 div d2 div d1" "k div d3 div d2 div d1 < d0"
    "0 \<le> k div d3 div d2 mod d1" "k div d3 div d2 mod d1 < d1"
    "0 \<le> k div d3 mod d2" "k div d3 mod d2 < d2" "0 \<le> k mod d3" "k mod d3 < d3"
proof -
  have "k < 0" if "d1 = 0 \<or> d2 = 0 \<or> d3 = 0"
    using assms(2) that by auto
  with assms have pos: "0 < d1" "0 < d2" "0 < d3"
    by (auto simp: less_le)
  then show "0 \<le> k div d3 div d2 div d1"
    "0 \<le> k div d3 div d2 mod d1" "k div d3 div d2 mod d1 < d1"
    "0 \<le> k div d3 mod d2" "k div d3 mod d2 < d2" "0 \<le> k mod d3" "k mod d3 < d3"
    using assms by (simp_all add: pos_imp_zdiv_nonneg_iff)
  show "k div d3 div d2 div d1 < d0"
    using assms(2) pos by (intro int_div_less)
qed

section \<open>The operations on well-formed shapes\<close>

lemma shape4_rd:
  assumes "shape4 s"
  shows "rd (shape_dims s) 0 = Some (shape_dims s ! 0)" "rd (shape_dims s) 1 = Some (shape_dims s ! 1)"
    "rd (shape_dims s) 2 = Some (shape_dims s ! 2)" "rd (shape_dims s) 3 = Some (shape_dims s ! 3)"
  using assms by (simp_all add: shape4_def rd_def)

lemma shape4_dims:
  assumes "shape4 s"
  shows "Dims nd s 0 = Some (dim s 0)" "Dims nd s 1 = Some (dim s 1)"
    "Dims nd s 2 = Some (dim s 2)" "Dims nd s 3 = Some (dim s 3)" "DimensionsCount s = 4"
  using assms
  by (simp_all add: Dims_def shape4_rd dcheck_def dim_def DimensionsCount_def)
    (simp_all add: shape4_def)

lemma shape4_nonneg:
  "shape4 s \<Longrightarrow> 0 \<le> dim s 0" "shape4 s \<Longrightarrow> 0 \<le> dim s 1"
  "shape4 s \<Longrightarrow> 0 \<le> dim s 2" "shape4 s \<Longrightarrow> 0 \<le> dim s 3"
  by (simp_all add: shape4_def)

lemma elems_bound: "shape4 s \<Longrightarrow> 0 \<le> elems s \<and> elems s < 2 ^ 31"
  by (simp add: shape4_def elems_def)

text \<open>The position of an index tuple, and that it lies in a buffer of \<open>elems\<close> elements.\<close>

definition pos4 :: "RuntimeShape \<Rightarrow> int \<Rightarrow> int \<Rightarrow> int \<Rightarrow> int \<Rightarrow> int" where
  "pos4 s = flat4 (dim s 1) (dim s 2) (dim s 3)"

definition index4 :: "RuntimeShape \<Rightarrow> int \<Rightarrow> int \<Rightarrow> int \<Rightarrow> int \<Rightarrow> bool" where
  "index4 s i0 i1 i2 i3 \<longleftrightarrow> 0 \<le> i0 \<and> i0 < dim s 0 \<and> 0 \<le> i1 \<and> i1 < dim s 1 \<and>
     0 \<le> i2 \<and> i2 < dim s 2 \<and> 0 \<le> i3 \<and> i3 < dim s 3"

lemma index4I:
  "0 \<le> i0 \<Longrightarrow> i0 < dim s 0 \<Longrightarrow> 0 \<le> i1 \<Longrightarrow> i1 < dim s 1 \<Longrightarrow>
   0 \<le> i2 \<Longrightarrow> i2 < dim s 2 \<Longrightarrow> 0 \<le> i3 \<Longrightarrow> i3 < dim s 3 \<Longrightarrow> index4 s i0 i1 i2 i3"
  by (simp add: index4_def)

lemma pos4_bounds:
  assumes "index4 s i0 i1 i2 i3"
  shows "0 \<le> pos4 s i0 i1 i2 i3" and "pos4 s i0 i1 i2 i3 < elems s"
  using assms unfolding pos4_def elems_def index4_def by (auto intro!: flat4_bounds)

lemma Offset_index4:
  assumes "shape4 s" and "index4 s i0 i1 i2 i3"
  shows "Offset nd s i0 i1 i2 i3 = Some (pos4 s i0 i1 i2 i3)"
proof -
  have "wrap32 (pos4 s i0 i1 i2 i3) = pos4 s i0 i1 i2 i3"
    using pos4_bounds [OF assms(2)] elems_bound [OF assms(1)] by (intro wrap32_id) auto
  then show ?thesis
    using assms by (simp add: Offset_def shape4_dims shape4_rd dcheck_def index_ok_def pos4_def
        flat4_def dim_def index4_def)
qed

lemma FlatSize_shape4:
  assumes "shape4 s"
  shows "FlatSize s = Some (elems s)"
proof -
  have "FlatSize s = Some (sint (shape_dims s ! 0 * shape_dims s ! 1 * shape_dims s ! 2 * shape_dims s ! 3))"
    using assms by (simp add: FlatSize_def shape4_def cfor_step cfor_done rd_def)
  also have "shape_dims s ! 0 * shape_dims s ! 1 * shape_dims s ! 2 * shape_dims s ! 3 = word_of_int (elems s)"
    by (simp add: elems_def dim_def scast_id)
  finally show ?thesis
    using elems_bound [OF assms] by (simp add: sint32_of_int)
qed

lemma MatchingDim_same: "Dims nd s i = Some d \<Longrightarrow> Dims nd t j = Some d \<Longrightarrow> MatchingDim nd s i t j = Some d"
  by (simp add: MatchingDim_def dcheck_def)

text \<open>
  A loop nest over the four dimensions of a tensor that stores, at the position of each index
  tuple, the value that \<open>V\<close> has there: the whole tensor is written.
\<close>

lemma index4_positions:
  assumes "shape4 s"
  shows "(\<Union>i0\<in>{0..<dim s 0}. \<Union>i1\<in>{0..<dim s 1}. \<Union>i2\<in>{0..<dim s 2}. \<Union>i3\<in>{0..<dim s 3}.
    {pos4 s i0 i1 i2 i3}) \<supseteq> {0..<elems s}"
proof
  fix k assume k: "k \<in> {0..<elems s}"
  define i0 i1 i2 i3 where "i0 = k div dim s 3 div dim s 2 div dim s 1"
    and "i1 = k div dim s 3 div dim s 2 mod dim s 1" and "i2 = k div dim s 3 mod dim s 2"
    and "i3 = k mod dim s 3"
  have "i0 \<in> {0..<dim s 0}" "i1 \<in> {0..<dim s 1}" "i2 \<in> {0..<dim s 2}" "i3 \<in> {0..<dim s 3}"
    using decode4_bounds [of k "dim s 0" "dim s 1" "dim s 2" "dim s 3"] k shape4_nonneg [OF assms]
    by (simp_all add: elems_def i0_def i1_def i2_def i3_def)
  moreover have "k \<in> {pos4 s i0 i1 i2 i3}"
    by (simp only: pos4_def i0_def i1_def i2_def i3_def flat4_encode singleton_iff)
  ultimately show "k \<in> (\<Union>i0\<in>{0..<dim s 0}. \<Union>i1\<in>{0..<dim s 1}.
      \<Union>i2\<in>{0..<dim s 2}. \<Union>i3\<in>{0..<dim s 3}. {pos4 s i0 i1 i2 i3})"
    by (intro UN_I)
qed

text \<open>For any number of dimensions.\<close>

lemma FlatSize_prod:
  assumes "0 \<le> shape_size s" and "shape_size s \<le> int (length (shape_dims s))"
  shows "FlatSize s = Some (sint (prod_list (take (nat (shape_size s)) (shape_dims s))))"
proof -
  have "ok (cfor 0 (shape_size s) 1 (\<lambda>i b. do { d \<leftarrow> rd (shape_dims s) i; Some (b * d) }) 1)
    (\<lambda>b. b = prod_list (take (nat (shape_size s)) (shape_dims s)))"
  proof (rule ok_cfor [where I = "\<lambda>i b. i \<le> shape_size s \<and> b = prod_list (take (nat i) (shape_dims s))"])
    fix i and b :: i32
    assume i: "0 \<le> i" "i < shape_size s" "i \<le> shape_size s \<and> b = prod_list (take (nat i) (shape_dims s))"
    have "nat (i + 1) = Suc (nat i)" using i(1) by simp
    moreover have "nat i < length (shape_dims s)" using i assms by simp
    ultimately show "ok (do { d \<leftarrow> rd (shape_dims s) i; Some (b * d) })
        (\<lambda>b. i + 1 \<le> shape_size s \<and> b = prod_list (take (nat (i + 1)) (shape_dims s)))"
      using i by (simp add: ok_simps take_Suc_conv_app_nth)
  qed (use assms in auto)
  then show ?thesis by (simp add: FlatSize_def ok_eq_iff)
qed

lemma fill_ones:
  assumes "k \<le> shape_size s" and "k \<le> int (length (shape_dims s))" and "0 \<le> k"
  shows "cfor 0 k 1 (\<lambda>i s. SetDim nd s i v) s =
    Some (s\<lparr>shape_dims := replicate (nat k) v @ drop (nat k) (shape_dims s)\<rparr>)"
proof -
  let ?t = "\<lambda>i. s\<lparr>shape_dims := replicate (nat i) v @ drop (nat i) (shape_dims s)\<rparr>"
  have "ok (cfor 0 k 1 (\<lambda>i s. SetDim nd s i v) s) (\<lambda>t. t = ?t k)"
  proof (rule ok_cfor [where I = "\<lambda>i t. i \<le> k \<and> t = ?t i"])
    fix i t assume i: "0 \<le> i" "i < k" "i \<le> k \<and> t = ?t i"
    define n where "n = nat i"
    have n: "i = int n" "nat (i + 1) = Suc n" using i(1) by (simp_all add: n_def)
    have l: "n < length (shape_dims s)" using i(2) assms n by simp
    have "(replicate n v @ drop n (shape_dims s))[n := v] = replicate (Suc n) v @ drop (Suc n) (shape_dims s)"
      using l by (simp add: list_update_append Cons_nth_drop_Suc [symmetric] replicate_append_same [symmetric] del: replicate.simps)
         (simp add: replicate_append_same)
    then show "ok (SetDim nd t i v) (\<lambda>t. i + 1 \<le> k \<and> t = ?t (i + 1))"
      using i assms l unfolding n(1) by (simp add: SetDim_def ok_simps n(2) [unfolded n(1)])
  qed (use assms in auto)
  then show ?thesis by (simp add: ok_eq_iff)
qed

section \<open>Properties\<close>

text \<open>
  C6. On a well-formed shape of four dimensions \<open>Offset\<close> is total on the valid index tuples and a
  bijection between them and the positions below \<open>FlatSize\<close>: no two elements of a tensor share
  a position and none lies outside its buffer.
\<close>

theorem Offset_bijection:
  assumes "shape4 s"
  shows "\<exists>n. FlatSize s = Some n \<and>
    bij_betw (\<lambda>(i0, i1, i2, i3). Offset nd s i0 i1 i2 i3)
      ({0..<dim s 0} \<times> {0..<dim s 1} \<times> {0..<dim s 2} \<times> {0..<dim s 3}) (Some ` {0..<n})"
proof -
  let ?T = "{0..<dim s 0} \<times> {0..<dim s 1} \<times> {0..<dim s 2} \<times> {0..<dim s 3}"
  let ?p = "\<lambda>(i0, i1, i2, i3). pos4 s i0 i1 i2 i3"
  have off: "(\<lambda>(i0, i1, i2, i3). Offset nd s i0 i1 i2 i3) t = Some (?p t)" if "t \<in> ?T" for t
    using that by (auto intro!: Offset_index4 [OF assms] index4I)
  have "inj_on ?p ?T"
  proof (rule inj_onI)
    fix t u assume "t \<in> ?T" "u \<in> ?T" and eq: "?p t = ?p u"
    moreover obtain t0 t1 t2 t3 u0 u1 u2 u3 where "t = (t0, t1, t2, t3)" "u = (u0, u1, u2, u3)"
      by (cases t, cases u) blast
    ultimately show "t = u"
      using flat4_decode [of t1 "dim s 1" t2 "dim s 2" t3 "dim s 3" t0]
        flat4_decode [of u1 "dim s 1" u2 "dim s 2" u3 "dim s 3" u0]
      by (simp add: pos4_def)
  qed
  moreover have "?p ` ?T = {0..<elems s}"
  proof
    show "?p ` ?T \<subseteq> {0..<elems s}" by (auto intro!: pos4_bounds index4I)
    show "{0..<elems s} \<subseteq> ?p ` ?T"
    proof
      fix k assume "k \<in> {0..<elems s}"
      then obtain i0 i1 i2 i3 where "i0 \<in> {0..<dim s 0}" "i1 \<in> {0..<dim s 1}" "i2 \<in> {0..<dim s 2}"
          "i3 \<in> {0..<dim s 3}" "k = pos4 s i0 i1 i2 i3"
        using subsetD [OF index4_positions [OF assms]] by blast
      then show "k \<in> ?p ` ?T" by (intro image_eqI [of _ _ "(i0, i1, i2, i3)"]) simp_all
    qed
  qed
  ultimately have "bij_betw ?p ?T {0..<elems s}" by (simp add: bij_betw_def)
  then have "bij_betw (Some \<circ> ?p) ?T (Some ` {0..<elems s})"
    by (rule bij_betw_trans) (simp add: bij_betw_def)
  then have "bij_betw (\<lambda>(i0, i1, i2, i3). Offset nd s i0 i1 i2 i3) ?T (Some ` {0..<elems s})"
    by (rule bij_betw_cong [THEN iffD1, rotated]) (simp only: off o_apply)
  with FlatSize_shape4 [OF assms] show ?thesis by blast
qed

theorem Offset_bijection_witness:
  "\<exists>n. FlatSize \<lparr>shape_size = 4, shape_dims = [1, 28, 28, 3, 0]\<rparr> = Some n \<and>
    bij_betw (\<lambda>(i0, i1, i2, i3). Offset False \<lparr>shape_size = 4, shape_dims = [1, 28, 28, 3, 0]\<rparr> i0 i1 i2 i3)
      ({0..<1} \<times> {0..<28} \<times> {0..<28} \<times> {0..<3}) (Some ` {0..<n})"
  using Offset_bijection [of "\<lparr>shape_size = 4, shape_dims = [1, 28, 28, 3, 0]\<rparr>" False]
  by (simp add: shape4_def dim_def)

text \<open>
  \<open>ExtendedShape\<close> pads a shape in front with dimensions of one and keeps the others and the
  number of elements; it never writes outside its array.
\<close>

theorem ExtendedShape_pads:
  assumes "0 \<le> shape_size s" and "shape_size s \<le> n" and "n \<le> kMaxSize"
    and "length (shape_dims s) = nat kMaxSize" and "length mem = nat kMaxSize"
  shows "\<exists>t. ExtendedShape nd mem n s = Some t \<and> shape_size t = n \<and>
    take (nat n) (shape_dims t) = replicate (nat (n - shape_size s)) 1 @ take (nat (shape_size s)) (shape_dims s) \<and>
    FlatSize t = FlatSize s"
proof -
  define k where "k = n - shape_size s"
  define t where "t = \<lparr>shape_size = n, shape_dims = replicate (nat k) 1 @ take (nat (shape_size s)) (shape_dims s) @ drop (nat n) mem\<rparr>"
  have k: "0 \<le> k" "k \<le> n" "n \<le> int (length mem)" "nat n = nat k + nat (shape_size s)"
    "shape_size s \<le> int (length (shape_dims s))"
    using assms by (auto simp: k_def kMaxSize_def nat_add_distrib [symmetric])
  have sz: "k + shape_size s = n" by (simp add: k_def)
  have "ExtendedShape nd mem n s = Some t"
    using k assms sz by (simp add: ExtendedShape_def DimensionsCount_def dcheck_def RuntimeShape_uninit_def
        fill_ones memcpy_def t_def Let_def k_def [symmetric] add.commute)
  moreover have dims: "take (nat n) (shape_dims t) = replicate (nat k) 1 @ take (nat (shape_size s)) (shape_dims s)"
    using k assms by (simp add: t_def)
  moreover have "FlatSize t = FlatSize s"
    using k assms FlatSize_prod [of t] FlatSize_prod [of s] dims by (simp add: t_def)
  ultimately show ?thesis by (auto simp: t_def k_def)
qed

theorem ExtendedShape_pads_witness:
  "\<exists>t. ExtendedShape False [0, 0, 0, 0, 0] 4 \<lparr>shape_size = 2, shape_dims = [3, 7, 0, 0, 0]\<rparr> = Some t \<and>
     take 4 (shape_dims t) = [1, 1, 3, 7]"
  using ExtendedShape_pads [of "\<lparr>shape_size = 2, shape_dims = [3, 7, 0, 0, 0]\<rparr>" 4 "[0, 0, 0, 0, 0]" False]
  by (auto simp: kMaxSize_def numeral_2_eq_2)

end
