(* ===== verification/Conv_Spec.thy ===== *)
theory Conv_Spec
  imports Runtime_Shape
begin

text \<open>
  What the \<open>ConvPerChannel\<close> kernels of the repository share: the record of their arguments, the
  statements that every one of them repeats (the consistency checks, the bias, the output
  stage), and the abstract specification they are proved against. The specification is a sum over
  the integers, \<open>conv_sum\<close>: the 32-bit accumulator of a kernel is its residue modulo \<open>2 ^ 32\<close>
  (\<open>word_of_int\<close> is a ring homomorphism), whatever wraps on the way, and \<open>conv_out_exact\<close> says
  when the result is the one computed on unbounded integers.
\<close>

section \<open>Arguments\<close>

text \<open>
  \<open>'d\<close> is the type of the activations, \<open>'b\<close> that of the bias; \<open>bias_data\<close> may be a null pointer.
\<close>

record ('d, 'b) conv_args =
  params :: ConvParams
  output_multiplier :: "i32 list"
  output_shift :: "i32 list"
  input_shape :: RuntimeShape
  input_data :: "'d list"
  filter_shape :: RuntimeShape
  filter_data :: "i8 list"
  bias_shape :: RuntimeShape
  bias_data :: "'b list option"
  output_shape :: RuntimeShape

section \<open>Statements the kernels share\<close>

text \<open>\<open>std::max\<close> and \<open>std::min\<close> on \<open>int32_t\<close>.\<close>

definition std_max :: "i32 \<Rightarrow> i32 \<Rightarrow> i32" where
  "std_max a b = (if a <s b then b else a)"

definition std_min :: "i32 \<Rightarrow> i32 \<Rightarrow> i32" where
  "std_min a b = (if b <s a then b else a)"

definition conv_checks :: "bool \<Rightarrow> ('d, 'b) conv_args \<Rightarrow> unit option" where
  "conv_checks nd a = do {
     let output_activation_min = quantized_activation_min (params a);
     let output_activation_max = quantized_activation_max (params a);
     dcheck nd (output_activation_min \<le>s output_activation_max);
     dcheck nd (DimensionsCount (input_shape a) = 4);
     dcheck nd (DimensionsCount (filter_shape a) = 4);
     dcheck nd (DimensionsCount (output_shape a) = 4) }"

text \<open>The argument of a compiled-out check is not evaluated.\<close>

definition bias_check :: "bool \<Rightarrow> ('d, 'b) conv_args \<Rightarrow> int \<Rightarrow> unit option" where
  "bias_check nd a output_depth =
     (case bias_data a of
        None \<Rightarrow> Some ()
      | Some _ \<Rightarrow> if nd then Some () else do {
          n \<leftarrow> FlatSize (bias_shape a);
          dcheck nd (n = output_depth) })"

definition point_inside :: "int \<Rightarrow> int \<Rightarrow> int \<Rightarrow> int \<Rightarrow> bool" where
  "point_inside input_height input_width in_y in_x \<longleftrightarrow>
     0 \<le> in_x \<and> in_x < input_width \<and> 0 \<le> in_y \<and> in_y < input_height"

text \<open>One activation and one weight, read through \<open>Offset\<close>.\<close>

definition load_input :: "bool \<Rightarrow> ('d::len word, 'b) conv_args \<Rightarrow> int \<Rightarrow> int \<Rightarrow> int \<Rightarrow> int \<Rightarrow> i32 option" where
  "load_input nd a batch in_y in_x in_channel = do {
     i \<leftarrow> Offset nd (input_shape a) batch in_y in_x in_channel;
     v \<leftarrow> rd (input_data a) i;
     Some (scast v) }"

definition load_filter :: "bool \<Rightarrow> ('d, 'b) conv_args \<Rightarrow> int \<Rightarrow> int \<Rightarrow> int \<Rightarrow> int \<Rightarrow> i32 option" where
  "load_filter nd a out_channel filter_y filter_x in_channel = do {
     i \<leftarrow> Offset nd (filter_shape a) out_channel filter_y filter_x in_channel;
     v \<leftarrow> rd (filter_data a) i;
     Some (scast v) }"

definition add_bias :: "('d, 'w::len word) conv_args \<Rightarrow> int \<Rightarrow> 'w word \<Rightarrow> 'w word option" where
  "add_bias a out_channel acc =
     (case bias_data a of
        None \<Rightarrow> Some acc
      | Some bias \<Rightarrow> do { b \<leftarrow> rd bias out_channel; Some (acc + b) })"

text \<open>The output stage of the 8-bit kernels; \<open>offset\<close> is the quantity they add to the scaled sum.\<close>

definition requantize :: "('d, 'b) conv_args \<Rightarrow> i32 \<Rightarrow> int \<Rightarrow> i32 \<Rightarrow> i8 option" where
  "requantize a offset channel acc = do {
     m \<leftarrow> rd (output_multiplier a) channel;
     s \<leftarrow> rd (output_shift a) channel;
     acc \<leftarrow> MultiplyByQuantizedMultiplier acc m (sint s);
     let acc = acc + offset;
     let acc = std_max acc (quantized_activation_min (params a));
     let acc = std_min acc (quantized_activation_max (params a));
     Some (scast acc) }"

definition store_output ::
  "bool \<Rightarrow> ('d, 'b) conv_args \<Rightarrow> int \<Rightarrow> int \<Rightarrow> int \<Rightarrow> int \<Rightarrow> 'o \<Rightarrow> 'o list \<Rightarrow> 'o list option" where
  "store_output nd a batch out_y out_x out_channel v output_data = do {
     i \<leftarrow> Offset nd (output_shape a) batch out_y out_x out_channel;
     wr output_data i v }"

section \<open>Specification\<close>

definition input_at :: "('d::len word, 'b) conv_args \<Rightarrow> int \<Rightarrow> int \<Rightarrow> int \<Rightarrow> int \<Rightarrow> int" where
  "input_at a b y x c = sint (input_data a ! nat (pos4 (input_shape a) b y x c))"

definition filter_at :: "('d, 'b) conv_args \<Rightarrow> int \<Rightarrow> int \<Rightarrow> int \<Rightarrow> int \<Rightarrow> int" where
  "filter_at a k y x c = sint (filter_data a ! nat (pos4 (filter_shape a) k y x c))"

text \<open>
  The convolution at one output position: the filter is laid over the image at
  \<open>(y0 + dy * fy, x0 + dx * fx)\<close>, points outside the image contribute zero.
\<close>

definition in_image :: "('d, 'b) conv_args \<Rightarrow> int \<Rightarrow> int \<Rightarrow> bool" where
  "in_image a y x \<longleftrightarrow> point_inside (dim (input_shape a) 1) (dim (input_shape a) 2) y x"

definition tap_sum :: "('d::len word, 'b) conv_args \<Rightarrow> int \<Rightarrow> int \<Rightarrow> int \<Rightarrow> int \<Rightarrow> int \<Rightarrow> int \<Rightarrow> int \<Rightarrow> int" where
  "tap_sum a zp b k fy fx y x =
     (if in_image a y x
      then (\<Sum>c\<in>{0..<dim (input_shape a) 3}. filter_at a k fy fx c * (input_at a b y x c + zp))
      else 0)"

definition conv_sum_at :: "('d::len word, 'b) conv_args \<Rightarrow> int \<Rightarrow> int \<Rightarrow> int \<Rightarrow> int \<Rightarrow> int \<Rightarrow> int \<Rightarrow> int \<Rightarrow> int" where
  "conv_sum_at a zp dy dx b k y0 x0 =
     (\<Sum>fy\<in>{0..<dim (filter_shape a) 1}. \<Sum>fx\<in>{0..<dim (filter_shape a) 2}.
        tap_sum a zp b k fy fx (y0 + dy * fy) (x0 + dx * fx))"

definition conv_sum :: "('d::len word, 'b) conv_args \<Rightarrow> int \<Rightarrow> int \<Rightarrow> int \<Rightarrow> int \<Rightarrow> int \<Rightarrow> int" where
  "conv_sum a zp b oy ox k =
     conv_sum_at a zp (sint (dilation_height_factor (params a))) (sint (dilation_width_factor (params a))) b k
       (oy * sint (stride_height (params a)) - sint (pad_height (padding_values (params a))))
       (ox * sint (stride_width (params a)) - sint (pad_width (padding_values (params a))))"

definition bias_at :: "('d, 'w::len word) conv_args \<Rightarrow> int \<Rightarrow> int" where
  "bias_at a k = (case bias_data a of None \<Rightarrow> 0 | Some bias \<Rightarrow> sint (bias ! nat k))"

definition mult_at :: "('d, 'b) conv_args \<Rightarrow> int \<Rightarrow> int" where
  "mult_at a k = sint (output_multiplier a ! nat k)"

definition shift_at :: "('d, 'b) conv_args \<Rightarrow> int \<Rightarrow> int" where
  "shift_at a k = sint (output_shift a ! nat k)"

definition clamp :: "int \<Rightarrow> int \<Rightarrow> int \<Rightarrow> int" where
  "clamp lo hi v = min (max v lo) hi"

text \<open>The tensor coordinates of a flat output position.\<close>

definition at_output :: "('d, 'b) conv_args \<Rightarrow> (int \<Rightarrow> int \<Rightarrow> int \<Rightarrow> int \<Rightarrow> 'v) \<Rightarrow> int \<Rightarrow> 'v" where
  "at_output a f i = (let d1 = dim (output_shape a) 1; d2 = dim (output_shape a) 2;
     d3 = dim (output_shape a) 3
   in f (i div d3 div d2 div d1) (i div d3 div d2 mod d1) (i div d3 mod d2) (i mod d3))"

section \<open>Well-formed arguments\<close>

text \<open>
  What the caller (the TensorFlow Lite Micro convolution operator) provides: tensors whose data
  cover their shapes, matching dimensions, one multiplier and one shift for each output channel,
  the shifts in the range that the scaling supports, and a non-empty activation range.
\<close>

definition conv_ok :: "('d, 'b) conv_args \<Rightarrow> bool" where
  "conv_ok a \<longleftrightarrow>
     shape4 (input_shape a) \<and> shape4 (filter_shape a) \<and> shape4 (output_shape a) \<and>
     elems (input_shape a) \<le> int (length (input_data a)) \<and>
     elems (filter_shape a) \<le> int (length (filter_data a)) \<and>
     dim (input_shape a) 0 = dim (output_shape a) 0 \<and>
     dim (input_shape a) 3 = dim (filter_shape a) 3 \<and>
     dim (filter_shape a) 0 = dim (output_shape a) 3 \<and>
     (case bias_data a of None \<Rightarrow> True
      | Some bias \<Rightarrow> int (length bias) = dim (output_shape a) 3 \<and>
          FlatSize (bias_shape a) = Some (dim (output_shape a) 3)) \<and>
     dim (output_shape a) 3 \<le> int (length (output_multiplier a)) \<and>
     dim (output_shape a) 3 \<le> int (length (output_shift a)) \<and>
     (\<forall>s \<in> set (output_shift a). - 31 \<le> sint s \<and> sint s \<le> 31) \<and>
     quantized_activation_min (params a) \<le>s quantized_activation_max (params a)"

section \<open>The shared statements on well-formed arguments\<close>

lemma conv_ok_shapes:
  assumes "conv_ok a"
  shows "shape4 (input_shape a)" "shape4 (filter_shape a)" "shape4 (output_shape a)"
    "dim (input_shape a) 0 = dim (output_shape a) 0"
    "dim (input_shape a) 3 = dim (filter_shape a) 3"
    "dim (filter_shape a) 0 = dim (output_shape a) 3"
  using assms by (simp_all add: conv_ok_def)

lemma conv_ok_lengths:
  assumes "conv_ok a"
  shows "elems (input_shape a) \<le> int (length (input_data a))"
    "elems (filter_shape a) \<le> int (length (filter_data a))"
    "dim (output_shape a) 3 \<le> int (length (output_multiplier a))"
    "dim (output_shape a) 3 \<le> int (length (output_shift a))"
  using assms by (simp_all add: conv_ok_def)

lemma conv_ok_shift:
  assumes "conv_ok a" and "0 \<le> k" and "k < dim (output_shape a) 3"
  shows "- 31 \<le> shift_at a k" "shift_at a k \<le> 31"
proof -
  have "output_shift a ! nat k \<in> set (output_shift a)"
    using assms(2,3) conv_ok_lengths(4) [OF assms(1)] by (intro nth_mem) auto
  with assms(1) show "- 31 \<le> shift_at a k" "shift_at a k \<le> 31"
    by (auto simp: conv_ok_def shift_at_def)
qed

lemma conv_checks_ok: "conv_ok a \<Longrightarrow> conv_checks nd a = Some ()"
  by (simp add: conv_checks_def dcheck_def conv_ok_def shape4_dims)

lemma bias_check_ok: "conv_ok a \<Longrightarrow> bias_check nd a (dim (output_shape a) 3) = Some ()"
  by (auto simp: bias_check_def dcheck_def conv_ok_def split: option.splits)

lemma conv_matching:
  assumes "conv_ok a"
  shows "MatchingDim nd (input_shape a) 0 (output_shape a) 0 = Some (dim (output_shape a) 0)"
    "MatchingDim nd (input_shape a) 3 (filter_shape a) 3 = Some (dim (input_shape a) 3)"
    "MatchingDim nd (filter_shape a) 0 (output_shape a) 3 = Some (dim (output_shape a) 3)"
  using conv_ok_shapes [OF assms] by (simp_all add: MatchingDim_same shape4_dims)

text \<open>The prologue of every kernel, from the checks to the dimensions.\<close>

lemmas conv_prologue =
  conv_checks_ok bias_check_ok conv_matching shape4_dims [OF conv_ok_shapes(1)]
  shape4_dims [OF conv_ok_shapes(2)] shape4_dims [OF conv_ok_shapes(3)]

lemma load_input_value:
  assumes "conv_ok a" and "index4 (input_shape a) b y x c"
  shows "load_input nd a b y x c = Some (word_of_int (input_at a b y x c))"
  using assms pos4_bounds [OF assms(2)] conv_ok_lengths(1) [OF assms(1)]
  by (simp add: load_input_def Offset_index4 conv_ok_shapes rd_def input_at_def)

lemma load_filter_value:
  assumes "conv_ok a" and "index4 (filter_shape a) k fy fx c"
  shows "load_filter nd a k fy fx c = Some (word_of_int (filter_at a k fy fx c))"
  using assms pos4_bounds [OF assms(2)] conv_ok_lengths(2) [OF assms(1)]
  by (simp add: load_filter_def Offset_index4 conv_ok_shapes rd_def filter_at_def)

lemma add_bias_value:
  assumes "conv_ok a" and "0 \<le> k" and "k < dim (output_shape a) 3"
  shows "add_bias a k acc = Some (acc + word_of_int (bias_at a k))"
  using assms by (auto simp: add_bias_def bias_at_def conv_ok_def rd_def split: option.splits)

lemma requantize_defined:
  assumes "conv_ok a" and "0 \<le> k" and "k < dim (output_shape a) 3"
  shows "\<exists>v. requantize a offset k acc = Some v"
proof -
  obtain r where "MultiplyByQuantizedMultiplier acc (output_multiplier a ! nat k)
      (sint (output_shift a ! nat k)) = Some r"
    using MultiplyByQuantizedMultiplier_defined conv_ok_shift [OF assms]
    unfolding shift_at_def by blast
  with assms(2,3) conv_ok_lengths(3,4) [OF assms(1)] show ?thesis
    by (simp add: requantize_def rd_def Let_def)
qed

lemma store_output_wrote:
  assumes "conv_ok a" and "int (length zs) = elems (output_shape a)"
    and "index4 (output_shape a) b y x k" and "v = V b y x k"
  shows "ok (store_output nd a b y x k v zs)
    (wrote {pos4 (output_shape a) b y x k} (at_output a V) zs)"
proof -
  let ?i = "pos4 (output_shape a) b y x k"
  have "at_output a V ?i = V b y x k"
    using assms(3) by (simp add: at_output_def pos4_def flat4_decode index4_def Let_def)
  with pos4_bounds [OF assms(3)] assms show ?thesis
    by (simp add: store_output_def Offset_index4 conv_ok_shapes ok_simps wrote_update)
qed

text \<open>The 8-bit output: the residue of the sum, and of its bias, through the output stage.\<close>

definition conv_out :: "('d::len word, i32) conv_args \<Rightarrow> int \<Rightarrow> i32 \<Rightarrow> int \<Rightarrow> int \<Rightarrow> int \<Rightarrow> int \<Rightarrow> i8" where
  "conv_out a zp offset b y x k =
     the (requantize a offset k (word_of_int (conv_sum a zp b y x k + bias_at a k)))"

text \<open>
  When the sum fits 32 bits, the scaling does not scale up, and the activation range is that of
  an 8-bit type, the output is the one of unbounded arithmetic.
\<close>

definition conv_exact :: "('d::len word, i32) conv_args \<Rightarrow> int \<Rightarrow> int \<Rightarrow> int \<Rightarrow> int \<Rightarrow> int \<Rightarrow> int \<Rightarrow> int" where
  "conv_exact a zp offset b y x k =
     clamp (sint (quantized_activation_min (params a))) (sint (quantized_activation_max (params a)))
       (mbqm_value (conv_sum a zp b y x k + bias_at a k) (mult_at a k) (nat (- shift_at a k)) + offset)"

lemma sint_std_max: "sint (std_max a b) = max (sint a) (sint b)"
  by (simp add: std_max_def word_sless_alt max_def)

lemma sint_std_min: "sint (std_min a b) = min (sint a) (sint b)"
  by (simp add: std_min_def word_sless_alt min_def)

lemma sint_scast_8: "- 128 \<le> sint (w :: i32) \<Longrightarrow> sint w \<le> 127 \<Longrightarrow> sint (scast w :: i8) = sint w"
  by (simp only: scast_sint sint8_of_int)

lemma conv_out_exact:
  assumes "conv_ok a" and "index4 (output_shape a) b y x k"
    and "\<bar>conv_sum a zp b y x k + bias_at a k\<bar> < 2 ^ 31"
    and "output_multiplier a ! nat k \<noteq> INT32_MIN" and "shift_at a k \<le> 0"
    and "\<bar>mbqm_value (conv_sum a zp b y x k + bias_at a k) (mult_at a k) (nat (- shift_at a k)) + sint offset\<bar> < 2 ^ 31"
    and "- 128 \<le> sint (quantized_activation_min (params a))" and "sint (quantized_activation_max (params a)) \<le> 127"
  shows "sint (conv_out a zp offset b y x k) = conv_exact a zp (sint offset) b y x k"
proof -
  let ?lo = "sint (quantized_activation_min (params a))"
  let ?hi = "sint (quantized_activation_max (params a))"
  let ?x = "conv_sum a zp b y x k + bias_at a k"
  have k: "0 \<le> k" "k < dim (output_shape a) 3"
    using assms(2) by (auto simp: index4_def)
  have order: "?lo \<le> ?hi" using assms(1) by (simp add: conv_ok_def word_sle_eq)
  have x: "sint (word_of_int ?x :: i32) = ?x"
    using assms(3) by (intro sint32_of_int) auto
  obtain r where r: "MultiplyByQuantizedMultiplier (word_of_int ?x) (output_multiplier a ! nat k)
      (shift_at a k) = Some r"
    and value_r: "sint r = mbqm_value ?x (mult_at a k) (nat (- shift_at a k))"
    using MultiplyByQuantizedMultiplier_value [OF conv_ok_shift(1) [OF assms(1) k] assms(5,4),
        where x = "word_of_int ?x"]
    unfolding x mult_at_def by blast
  have "sint (r + offset) = sint r + sint offset"
    using assms(6) by (intro sint32_add refl) (simp_all add: value_r)
  then have "sint (std_min (std_max (r + offset) (quantized_activation_min (params a)))
      (quantized_activation_max (params a))) = conv_exact a zp (sint offset) b y x k"
    by (simp add: sint_std_min sint_std_max conv_exact_def clamp_def value_r)
  moreover have "- 128 \<le> conv_exact a zp (sint offset) b y x k" "conv_exact a zp (sint offset) b y x k \<le> 127"
    using order assms(7,8) by (auto simp: conv_exact_def clamp_def)
  ultimately have "sint (scast (std_min (std_max (r + offset) (quantized_activation_min (params a)))
      (quantized_activation_max (params a))) :: i8) = conv_exact a zp (sint offset) b y x k"
    by (simp only: sint_scast_8)
  moreover have "conv_out a zp offset b y x k =
      scast (std_min (std_max (r + offset) (quantized_activation_min (params a)))
        (quantized_activation_max (params a)))"
    using k conv_ok_lengths(3,4) [OF assms(1)] r
    by (simp add: conv_out_def requantize_def rd_def shift_at_def Let_def del: wi_hom_add [symmetric])
  ultimately show ?thesis by simp
qed

section \<open>Loops over the filter and over the output\<close>

lemma word_of_int_sum: "word_of_int (\<Sum>i\<in>A. f i) = (\<Sum>i\<in>A. word_of_int (f i) :: 'a::len word)"
  by (induction A rule: infinite_finite_induct) simp_all

text \<open>
  The loops over the filter, with the guard that leaves out the points outside the image, add up
  \<open>conv_sum_at\<close> when the statement in their middle adds the sum over the channels.
\<close>

lemma taps_value:
  fixes acc :: "'w::len word"
  assumes "\<And>fy fx acc. 0 \<le> fy \<Longrightarrow> fy < dim (filter_shape a) 1 \<Longrightarrow> 0 \<le> fx \<Longrightarrow> fx < dim (filter_shape a) 2 \<Longrightarrow>
      in_image a (y0 + dy * fy) (x0 + dx * fx) \<Longrightarrow>
      inner fy fx (y0 + dy * fy) (x0 + dx * fx) acc =
        Some (acc + word_of_int (tap_sum a zp b k fy fx (y0 + dy * fy) (x0 + dx * fx)))"
  shows "cfor 0 (dim (filter_shape a) 1) 1 (\<lambda>fy. cfor 0 (dim (filter_shape a) 2) 1 (\<lambda>fx acc.
      if \<not> in_image a (y0 + dy * fy) (x0 + dx * fx) then Some acc
      else inner fy fx (y0 + dy * fy) (x0 + dx * fx) acc)) acc =
    Some (acc + word_of_int (conv_sum_at a zp dy dx b k y0 x0))"
proof -
  have row: "cfor 0 (dim (filter_shape a) 2) 1 (\<lambda>fx acc.
      if \<not> in_image a (y0 + dy * fy) (x0 + dx * fx) then Some acc
      else inner fy fx (y0 + dy * fy) (x0 + dx * fx) acc) acc =
    Some (acc + (\<Sum>fx\<in>{0..<dim (filter_shape a) 2}.
      word_of_int (tap_sum a zp b k fy fx (y0 + dy * fy) (x0 + dx * fx))))"
    if "0 \<le> fy" "fy < dim (filter_shape a) 1" for fy acc
  proof (rule cfor_sum)
    fix fx and s :: "'w word"
    assume "0 \<le> fx" "fx < dim (filter_shape a) 2"
    with assms [OF that] show "(if \<not> in_image a (y0 + dy * fy) (x0 + dx * fx) then Some s
        else inner fy fx (y0 + dy * fy) (x0 + dx * fx) s) =
      Some (s + word_of_int (tap_sum a zp b k fy fx (y0 + dy * fy) (x0 + dx * fx)))"
      by (cases "in_image a (y0 + dy * fy) (x0 + dx * fx)") (simp_all add: tap_sum_def)
  qed
  show ?thesis
    unfolding conv_sum_at_def word_of_int_sum by (intro cfor_sum row)
qed

text \<open>A loop nest that stores every output.\<close>

lemma output_loops:
  assumes "conv_ok a" and "int (length xs) = elems (output_shape a)"
    and "\<And>b y x k zs. index4 (output_shape a) b y x k \<Longrightarrow> length zs = length xs \<Longrightarrow>
      ok (body b y x k zs) (wrote {pos4 (output_shape a) b y x k} V zs)"
  shows "cfor 0 (dim (output_shape a) 0) 1 (\<lambda>b. cfor 0 (dim (output_shape a) 1) 1 (\<lambda>y.
      cfor 0 (dim (output_shape a) 2) 1 (\<lambda>x. cfor 0 (dim (output_shape a) 3) 1 (body b y x)))) xs =
    Some (map (\<lambda>i. V (int i)) [0..<length xs])" (is "?loop = _")
proof -
  have all: "{i. 0 \<le> i \<and> i < n \<and> 1 dvd (i - 0)} = {0..<n}" for n :: int
    by auto
  have "ok ?loop (wrote (\<Union>i0\<in>{0..<dim (output_shape a) 0}. \<Union>i1\<in>{0..<dim (output_shape a) 1}.
      \<Union>i2\<in>{0..<dim (output_shape a) 2}. \<Union>i3\<in>{0..<dim (output_shape a) 3}.
      {pos4 (output_shape a) i0 i1 i2 i3}) V xs)"
    unfolding all [symmetric]
    by (intro cfor_wrote_array assms(3) index4I) simp_all
  then show ?thesis
    using index4_positions [OF conv_ok_shapes(3) [OF assms(1)]] assms(2)
    by (auto simp: ok_iff dest!: wrote_all)
qed

text \<open>
  The loop nest of every kernel that computes one output after the other: the statement \<open>inner\<close>
  adds the sum over the channels, \<open>stage\<close> stores the output of an accumulator.
\<close>

lemma conv_loops:
  fixes stage :: "int \<Rightarrow> int \<Rightarrow> int \<Rightarrow> int \<Rightarrow> 'w::len word \<Rightarrow> 'o list \<Rightarrow> 'o list option"
  assumes "conv_ok a" and "int (length xs) = elems (output_shape a)"
    and inner: "\<And>b oy ox k fy fx y x acc. index4 (output_shape a) b oy ox k \<Longrightarrow>
      0 \<le> fy \<Longrightarrow> fy < dim (filter_shape a) 1 \<Longrightarrow> 0 \<le> fx \<Longrightarrow> fx < dim (filter_shape a) 2 \<Longrightarrow> in_image a y x \<Longrightarrow>
      inner b k fy fx y x acc = Some (acc + word_of_int (tap_sum a zp b k fy fx y x))"
    and stage: "\<And>b oy ox k zs. index4 (output_shape a) b oy ox k \<Longrightarrow> int (length zs) = elems (output_shape a) \<Longrightarrow>
      ok (stage b oy ox k (word_of_int (conv_sum_at a zp dy dx b k (Yo oy) (Xo ox))) zs)
        (wrote {pos4 (output_shape a) b oy ox k} V zs)"
  shows "cfor 0 (dim (output_shape a) 0) 1 (\<lambda>b. cfor 0 (dim (output_shape a) 1) 1 (\<lambda>oy.
      cfor 0 (dim (output_shape a) 2) 1 (\<lambda>ox. cfor 0 (dim (output_shape a) 3) 1 (\<lambda>k zs. do {
        acc \<leftarrow> cfor 0 (dim (filter_shape a) 1) 1 (\<lambda>fy. cfor 0 (dim (filter_shape a) 2) 1 (\<lambda>fx acc.
          if \<not> in_image a (Yo oy + dy * fy) (Xo ox + dx * fx) then Some acc
          else inner b k fy fx (Yo oy + dy * fy) (Xo ox + dx * fx) acc)) 0;
        stage b oy ox k acc zs })))) xs =
    Some (map (\<lambda>i. V (int i)) [0..<length xs])"
proof (rule output_loops [OF assms(1,2)])
  fix b oy ox k and zs :: "'o list"
  assume index: "index4 (output_shape a) b oy ox k" and "length zs = length xs"
  then have len: "int (length zs) = elems (output_shape a)" using assms(2) by simp
  have "cfor 0 (dim (filter_shape a) 1) 1 (\<lambda>fy. cfor 0 (dim (filter_shape a) 2) 1 (\<lambda>fx acc.
        if \<not> in_image a (Yo oy + dy * fy) (Xo ox + dx * fx) then Some acc
        else inner b k fy fx (Yo oy + dy * fy) (Xo ox + dx * fx) acc)) 0 =
      Some (0 + word_of_int (conv_sum_at a zp dy dx b k (Yo oy) (Xo ox)))"
    by (rule taps_value [where inner = "inner b k"]) (rule inner [OF index])
  then show "ok (do {
        acc \<leftarrow> cfor 0 (dim (filter_shape a) 1) 1 (\<lambda>fy. cfor 0 (dim (filter_shape a) 2) 1 (\<lambda>fx acc.
          if \<not> in_image a (Yo oy + dy * fy) (Xo ox + dx * fx) then Some acc
          else inner b k fy fx (Yo oy + dy * fy) (Xo ox + dx * fx) acc)) 0;
        stage b oy ox k acc zs })
      (wrote {pos4 (output_shape a) b oy ox k} V zs)"
    using stage [OF index len] by (simp only: Option.bind.simps(2) add_0_left)
qed

text \<open>The output stage of the 8-bit kernels.\<close>

lemma output_stage:
  assumes "conv_ok a" and "index4 (output_shape a) b y x k" and "int (length zs) = elems (output_shape a)"
  shows "ok (do {
      acc \<leftarrow> add_bias a k (word_of_int (conv_sum a zp b y x k));
      v \<leftarrow> requantize a offset k acc;
      store_output nd a b y x k v zs })
    (wrote {pos4 (output_shape a) b y x k} (at_output a (conv_out a zp offset)) zs)"
proof -
  have k: "0 \<le> k" "k < dim (output_shape a) 3"
    using assms(2) by (auto simp: index4_def)
  have "requantize a offset k (word_of_int (conv_sum a zp b y x k) + word_of_int (bias_at a k)) =
      Some (conv_out a zp offset b y x k)"
    using requantize_defined [OF assms(1) k] by (auto simp: conv_out_def)
  then show ?thesis
    using store_output_wrote [OF assms(1,3,2)] by (simp add: add_bias_value [OF assms(1) k])
qed

end
