(* ===== verification/Conv_Ref.thy ===== *)
theory Conv_Ref
  imports Conv_Spec
begin

text \<open>
  The reference kernels of \<open>proj/baseline/.../integer_ops/conv.h\<close>: \<open>ConvPerChannel\<close> for 8-bit
  activations, and its template for 16-bit activations with an accumulator of type
  \<open>AccumScalar\<close>. Both are proved equal to the specification for every well-formed argument,
  with and without \<open>NDEBUG\<close>.
\<close>

section \<open>The 8-bit kernel\<close>

text \<open>The loop over the input channels of one filter position.\<close>

definition baseline_channels ::
  "bool \<Rightarrow> (i8, i32) conv_args \<Rightarrow> int \<Rightarrow> int \<Rightarrow> int \<Rightarrow> int \<Rightarrow> int \<Rightarrow> int \<Rightarrow> int \<Rightarrow> i32 \<Rightarrow> i32 option" where
  "baseline_channels nd a input_depth batch out_channel filter_y filter_x in_y in_x =
     cfor 0 input_depth 1 (\<lambda>in_channel acc. do {
       input_val \<leftarrow> load_input nd a batch in_y in_x in_channel;
       filter_val \<leftarrow> load_filter nd a out_channel filter_y filter_x in_channel;
       Some (acc + filter_val * (input_val + input_offset (params a))) })"

definition baseline_ConvPerChannel :: "bool \<Rightarrow> (i8, i32) conv_args \<Rightarrow> i8 list \<Rightarrow> i8 list option" where
  "baseline_ConvPerChannel nd a output_data = do {
     let stride_w = sint (stride_width (params a));
     let stride_h = sint (stride_height (params a));
     let dilation_w = sint (dilation_width_factor (params a));
     let dilation_h = sint (dilation_height_factor (params a));
     let pad_w = sint (pad_width (padding_values (params a)));
     let pad_h = sint (pad_height (padding_values (params a)));
     conv_checks nd a;
     batches \<leftarrow> MatchingDim nd (input_shape a) 0 (output_shape a) 0;
     input_depth \<leftarrow> MatchingDim nd (input_shape a) 3 (filter_shape a) 3;
     output_depth \<leftarrow> MatchingDim nd (filter_shape a) 0 (output_shape a) 3;
     bias_check nd a output_depth;
     input_height \<leftarrow> Dims nd (input_shape a) 1;
     input_width \<leftarrow> Dims nd (input_shape a) 2;
     filter_height \<leftarrow> Dims nd (filter_shape a) 1;
     filter_width \<leftarrow> Dims nd (filter_shape a) 2;
     output_height \<leftarrow> Dims nd (output_shape a) 1;
     output_width \<leftarrow> Dims nd (output_shape a) 2;
     cfor 0 batches 1 (\<lambda>batch.
       cfor 0 output_height 1 (\<lambda>out_y.
         let in_y_origin = out_y * stride_h - pad_h in
         cfor 0 output_width 1 (\<lambda>out_x.
           let in_x_origin = out_x * stride_w - pad_w in
           cfor 0 output_depth 1 (\<lambda>out_channel output_data. do {
             acc \<leftarrow> cfor 0 filter_height 1 (\<lambda>filter_y.
               let in_y = in_y_origin + dilation_h * filter_y in
               cfor 0 filter_width 1 (\<lambda>filter_x acc.
                 let in_x = in_x_origin + dilation_w * filter_x in
                 if \<not> point_inside input_height input_width in_y in_x then Some acc
                 else baseline_channels nd a input_depth batch out_channel filter_y filter_x in_y in_x acc)) 0;
             acc \<leftarrow> add_bias a out_channel acc;
             v \<leftarrow> requantize a (output_offset (params a)) out_channel acc;
             store_output nd a batch out_y out_x out_channel v output_data })))) output_data }"

section \<open>The 16-bit kernel\<close>

text \<open>
  \<open>mbqm\<close> is the overload of \<open>MultiplyByQuantizedMultiplier\<close> that \<open>AccumScalar\<close> selects: the one
  for \<open>int32_t\<close> or the one for \<open>int64_t\<close>. The product is formed in 32 bits and then widened.
\<close>

definition channels16 ::
  "bool \<Rightarrow> (i16, 'w::len word) conv_args \<Rightarrow> int \<Rightarrow> int \<Rightarrow> int \<Rightarrow> int \<Rightarrow> int \<Rightarrow> int \<Rightarrow> int \<Rightarrow> 'w word \<Rightarrow> 'w word option" where
  "channels16 nd a input_depth batch out_channel filter_y filter_x in_y in_x =
     cfor 0 input_depth 1 (\<lambda>in_channel acc. do {
       input_val \<leftarrow> load_input nd a batch in_y in_x in_channel;
       filter_val \<leftarrow> load_filter nd a out_channel filter_y filter_x in_channel;
       Some (acc + scast (filter_val * input_val :: i32)) })"

definition requantize16 ::
  "('w word \<Rightarrow> i32 \<Rightarrow> int \<Rightarrow> i32 option) \<Rightarrow> (i16, 'w::len word) conv_args \<Rightarrow> int \<Rightarrow> 'w word \<Rightarrow> i16 option" where
  "requantize16 mbqm a channel acc = do {
     m \<leftarrow> rd (output_multiplier a) channel;
     s \<leftarrow> rd (output_shift a) channel;
     scaled_acc \<leftarrow> mbqm acc m (sint s);
     let scaled_acc = std_max scaled_acc (quantized_activation_min (params a));
     let scaled_acc = std_min scaled_acc (quantized_activation_max (params a));
     Some (scast scaled_acc) }"

definition baseline_ConvPerChannel16 ::
  "('w word \<Rightarrow> i32 \<Rightarrow> int \<Rightarrow> i32 option) \<Rightarrow> bool \<Rightarrow> (i16, 'w::len word) conv_args \<Rightarrow> i16 list \<Rightarrow> i16 list option" where
  "baseline_ConvPerChannel16 mbqm nd a output_data = do {
     let stride_w = sint (stride_width (params a));
     let stride_h = sint (stride_height (params a));
     let dilation_w = sint (dilation_width_factor (params a));
     let dilation_h = sint (dilation_height_factor (params a));
     let pad_w = sint (pad_width (padding_values (params a)));
     let pad_h = sint (pad_height (padding_values (params a)));
     conv_checks nd a;
     batches \<leftarrow> MatchingDim nd (input_shape a) 0 (output_shape a) 0;
     input_depth \<leftarrow> MatchingDim nd (input_shape a) 3 (filter_shape a) 3;
     output_depth \<leftarrow> MatchingDim nd (filter_shape a) 0 (output_shape a) 3;
     bias_check nd a output_depth;
     input_height \<leftarrow> Dims nd (input_shape a) 1;
     input_width \<leftarrow> Dims nd (input_shape a) 2;
     filter_height \<leftarrow> Dims nd (filter_shape a) 1;
     filter_width \<leftarrow> Dims nd (filter_shape a) 2;
     output_height \<leftarrow> Dims nd (output_shape a) 1;
     output_width \<leftarrow> Dims nd (output_shape a) 2;
     cfor 0 batches 1 (\<lambda>batch.
       cfor 0 output_height 1 (\<lambda>out_y.
         let in_y_origin = out_y * stride_h - pad_h in
         cfor 0 output_width 1 (\<lambda>out_x.
           let in_x_origin = out_x * stride_w - pad_w in
           cfor 0 output_depth 1 (\<lambda>out_channel output_data. do {
             acc \<leftarrow> cfor 0 filter_height 1 (\<lambda>filter_y.
               let in_y = in_y_origin + dilation_h * filter_y in
               cfor 0 filter_width 1 (\<lambda>filter_x acc.
                 let in_x = in_x_origin + dilation_w * filter_x in
                 if \<not> point_inside input_height input_width in_y in_x then Some acc
                 else channels16 nd a input_depth batch out_channel filter_y filter_x in_y in_x acc)) 0;
             acc \<leftarrow> add_bias a out_channel acc;
             v \<leftarrow> requantize16 mbqm a out_channel acc;
             store_output nd a batch out_y out_x out_channel v output_data })))) output_data }"

section \<open>The loops over the channels\<close>

lemma tap_index:
  assumes "conv_ok a" and "index4 (output_shape a) b oy ox k"
    and "0 \<le> fy" "fy < dim (filter_shape a) 1" "0 \<le> fx" "fx < dim (filter_shape a) 2"
    and "in_image a y x" and "0 \<le> c" "c < dim (input_shape a) 3"
  shows "index4 (input_shape a) b y x c" and "index4 (filter_shape a) k fy fx c"
  using assms conv_ok_shapes [OF assms(1)]
  by (auto simp: index4_def in_image_def point_inside_def)

lemma baseline_channels_value:
  assumes "conv_ok a" and "index4 (output_shape a) b oy ox k"
    and "0 \<le> fy" "fy < dim (filter_shape a) 1" "0 \<le> fx" "fx < dim (filter_shape a) 2"
    and "in_image a y x"
  shows "baseline_channels nd a (dim (input_shape a) 3) b k fy fx y x acc =
    Some (acc + word_of_int (tap_sum a (sint (input_offset (params a))) b k fy fx y x))"
proof -
  have "baseline_channels nd a (dim (input_shape a) 3) b k fy fx y x acc =
    Some (acc + (\<Sum>c\<in>{0..<dim (input_shape a) 3}.
      word_of_int (filter_at a k fy fx c * (input_at a b y x c + sint (input_offset (params a))))))"
    unfolding baseline_channels_def
    by (intro cfor_sum) (simp add: load_input_value [OF assms(1)] load_filter_value [OF assms(1)]
        tap_index [OF assms])
  then show ?thesis using assms(7) by (simp add: tap_sum_def word_of_int_sum)
qed

lemma product16:
  assumes "\<bar>f\<bar> \<le> 128" and "\<bar>i\<bar> \<le> 32768"
  shows "scast (word_of_int f * word_of_int i :: i32) = (word_of_int (f * i) :: 'w::len word)"
proof -
  have "\<bar>f * i\<bar> \<le> 128 * 32768"
    unfolding abs_mult using assms by (intro mult_mono) auto
  then have "sint (word_of_int (f * i) :: i32) = f * i"
    by (intro sint32_of_int) auto
  then show ?thesis by (simp only: scast_sint wi_hom_mult)
qed

lemma channels16_value:
  assumes "conv_ok a" and "index4 (output_shape a) b oy ox k"
    and "0 \<le> fy" "fy < dim (filter_shape a) 1" "0 \<le> fx" "fx < dim (filter_shape a) 2"
    and "in_image a y x"
  shows "channels16 nd a (dim (input_shape a) 3) b k fy fx y x acc =
    Some (acc + word_of_int (tap_sum a 0 b k fy fx y x))"
proof -
  have "\<bar>filter_at a k fy fx c\<bar> \<le> 128" "\<bar>input_at a b y x c\<bar> \<le> 32768" for c
    unfolding filter_at_def input_at_def
    using sint8_range [of "filter_data a ! nat (pos4 (filter_shape a) k fy fx c)"]
      sint16_range [of "input_data a ! nat (pos4 (input_shape a) b y x c)"] by auto
  note product = product16 [OF this]
  have "channels16 nd a (dim (input_shape a) 3) b k fy fx y x acc =
    Some (acc + (\<Sum>c\<in>{0..<dim (input_shape a) 3}.
      word_of_int (filter_at a k fy fx c * input_at a b y x c)))"
    unfolding channels16_def
    by (intro cfor_sum) (simp only: load_input_value [OF assms(1)] load_filter_value [OF assms(1)]
        tap_index [OF assms] Option.bind.simps(2) product)
  then show ?thesis using assms(7) by (simp only: tap_sum_def word_of_int_sum if_True add_0_right)
qed

section \<open>The kernels compute the convolution\<close>

lemma baseline_ConvPerChannel_value:
  assumes "conv_ok a" and "int (length output_data) = elems (output_shape a)"
  shows "baseline_ConvPerChannel nd a output_data =
    Some (map (\<lambda>i. at_output a (conv_out a (sint (input_offset (params a))) (output_offset (params a))) (int i))
      [0..<length output_data])"
  unfolding baseline_ConvPerChannel_def conv_prologue [OF assms(1)] Option.bind.simps(2) Let_def
    in_image_def [symmetric]
  by (rule conv_loops [OF assms, where inner = "baseline_channels nd a (dim (input_shape a) 3)",
        OF baseline_channels_value [OF assms(1)]])
    (simp_all only: conv_sum_def [symmetric] output_stage [OF assms(1)])

text \<open>The 16-bit output; \<open>mbqm\<close> must be defined on the sums of this convolution.\<close>

definition conv_out16 ::
  "('w::len word \<Rightarrow> i32 \<Rightarrow> int \<Rightarrow> i32 option) \<Rightarrow> (i16, 'w word) conv_args \<Rightarrow> int \<Rightarrow> int \<Rightarrow> int \<Rightarrow> int \<Rightarrow> i16" where
  "conv_out16 mbqm a b y x k =
     the (requantize16 mbqm a k (word_of_int (conv_sum a 0 b y x k + bias_at a k)))"

definition scaling_defined ::
  "('w::len word \<Rightarrow> i32 \<Rightarrow> int \<Rightarrow> i32 option) \<Rightarrow> (i16, 'w word) conv_args \<Rightarrow> bool" where
  "scaling_defined mbqm a \<longleftrightarrow> (\<forall>b y x k. index4 (output_shape a) b y x k \<longrightarrow>
     mbqm (word_of_int (conv_sum a 0 b y x k + bias_at a k)) (output_multiplier a ! nat k) (shift_at a k) \<noteq> None)"

lemma output_stage16:
  assumes "conv_ok a" and "scaling_defined mbqm a"
    and "index4 (output_shape a) b y x k" and "int (length zs) = elems (output_shape a)"
  shows "ok (do {
      acc \<leftarrow> add_bias a k (word_of_int (conv_sum a 0 b y x k));
      v \<leftarrow> requantize16 mbqm a k acc;
      store_output nd a b y x k v zs })
    (wrote {pos4 (output_shape a) b y x k} (at_output a (conv_out16 mbqm a)) zs)"
proof -
  have k: "0 \<le> k" "k < dim (output_shape a) 3"
    using assms(3) by (auto simp: index4_def)
  obtain r where "mbqm (word_of_int (conv_sum a 0 b y x k + bias_at a k)) (output_multiplier a ! nat k)
      (sint (output_shift a ! nat k)) = Some r"
    using assms(2,3) unfolding scaling_defined_def shift_at_def by blast
  with k conv_ok_lengths(3,4) [OF assms(1)]
  have "\<exists>v. requantize16 mbqm a k (word_of_int (conv_sum a 0 b y x k + bias_at a k)) = Some v"
    by (simp add: requantize16_def rd_def Let_def)
  then have "requantize16 mbqm a k (word_of_int (conv_sum a 0 b y x k) + word_of_int (bias_at a k)) =
      Some (conv_out16 mbqm a b y x k)"
    by (auto simp: conv_out16_def)
  then show ?thesis
    using store_output_wrote [OF assms(1,4,3)] by (simp add: add_bias_value [OF assms(1) k])
qed

lemma baseline_ConvPerChannel16_value:
  assumes "conv_ok a" and "int (length output_data) = elems (output_shape a)" and "scaling_defined mbqm a"
  shows "baseline_ConvPerChannel16 mbqm nd a output_data =
    Some (map (\<lambda>i. at_output a (conv_out16 mbqm a) (int i)) [0..<length output_data])"
  unfolding baseline_ConvPerChannel16_def conv_prologue [OF assms(1)] Option.bind.simps(2) Let_def
    in_image_def [symmetric]
  by (rule conv_loops [OF assms(1,2), where inner = "channels16 nd a (dim (input_shape a) 3)",
        OF channels16_value [OF assms(1)]])
    (simp_all only: conv_sum_def [symmetric] output_stage16 [OF assms(1,3)])

text \<open>The two instances of the template.\<close>

lemma scaling_defined_32: "conv_ok a \<Longrightarrow> scaling_defined MultiplyByQuantizedMultiplier a"
  unfolding scaling_defined_def index4_def
  by (metis MultiplyByQuantizedMultiplier_defined conv_ok_shift option.distinct(1))

text \<open>The overload for 64 bits is defined on shifts below 8, with its checks compiled out.\<close>

lemma scaling_defined_64:
  assumes "conv_ok a" and "\<forall>s \<in> set (output_shift a). sint s < 8"
  shows "scaling_defined (MultiplyByQuantizedMultiplier64 True) a"
proof -
  have "MultiplyByQuantizedMultiplier64 True acc m (shift_at a k) \<noteq> None"
    if "0 \<le> k" "k < dim (output_shape a) 3" for acc m k
  proof -
    have "output_shift a ! nat k \<in> set (output_shift a)"
      using that conv_ok_lengths(4) [OF assms(1)] by (intro nth_mem) auto
    with assms(2) have "shift_at a k < 8" by (auto simp: shift_at_def)
    then show ?thesis
      using conv_ok_shift(1) [OF assms(1) that]
      by (simp add: MultiplyByQuantizedMultiplier64_def dcheck_def Let_def)
  qed
  then show ?thesis by (auto simp: scaling_defined_def index4_def)
qed

end
