(* ===== verification/Bytes.thy ===== *)
theory Bytes
  imports Runtime_Shape
begin

text \<open>
  Bytes and the words that the kernels load from byte arrays: the function units work on four
  activations or weights at a time, packed as a little-endian processor loads them.
\<close>

section \<open>Bytes of a word\<close>

definition byte :: "nat \<Rightarrow> i32 \<Rightarrow> i8" where
  "byte k w = ucast (drop_bit (8 * k) w)"

text \<open>\<open>{b3, b2, b1, b0}\<close>\<close>

definition pack4 :: "i8 \<Rightarrow> i8 \<Rightarrow> i8 \<Rightarrow> i8 \<Rightarrow> i32" where
  "pack4 b0 b1 b2 b3 = ucast b0 OR push_bit 8 (ucast b1) OR push_bit 16 (ucast b2) OR push_bit 24 (ucast b3)"

lemma byte_pack4:
  "byte 0 (pack4 b0 b1 b2 b3) = b0" "byte 1 (pack4 b0 b1 b2 b3) = b1"
  "byte 2 (pack4 b0 b1 b2 b3) = b2" "byte 3 (pack4 b0 b1 b2 b3) = b3"
  by (rule bit_word_eqI; auto simp: byte_def pack4_def bit_simps dest: bit_imp_le_length)+

text \<open>\<open>*((uint32_t *)(data + i))\<close>: four bytes, the lowest address in the low byte.\<close>

definition load32 :: "i8 list \<Rightarrow> int \<Rightarrow> i32 option" where
  "load32 data i = do {
     b0 \<leftarrow> rd data i;
     b1 \<leftarrow> rd data (i + 1);
     b2 \<leftarrow> rd data (i + 2);
     b3 \<leftarrow> rd data (i + 3);
     Some (pack4 b0 b1 b2 b3) }"

lemma load32_value:
  assumes "0 \<le> i" and "i + 3 < int (length data)"
  shows "load32 data i = Some (pack4 (data ! nat i) (data ! nat (i + 1)) (data ! nat (i + 2)) (data ! nat (i + 3)))"
  using assms by (simp add: load32_def rd_def)

lemma pos4_next: "pos4 s b y x c + e = pos4 s b y x (c + e)"
  by (simp add: pos4_def flat4_def)

lemma load_word:
  assumes "shape4 s" and "elems s \<le> int (length data)" and "index4 s b y x c" and "index4 s b y x (c + 3)"
  shows "do { i \<leftarrow> Offset nd s b y x c; load32 data i } =
    Some (pack4 (data ! nat (pos4 s b y x c)) (data ! nat (pos4 s b y x (c + 1)))
      (data ! nat (pos4 s b y x (c + 2))) (data ! nat (pos4 s b y x (c + 3))))"
proof -
  have "0 \<le> pos4 s b y x c" "pos4 s b y x c + 3 < int (length data)"
    using pos4_bounds [OF assms(3)] pos4_bounds [OF assms(4)] assms(2) by (auto simp: pos4_next)
  then show ?thesis
    using assms(1,3) by (simp add: Offset_index4 load32_value pos4_next)
qed

lemma load_byte:
  assumes "shape4 s" and "elems s \<le> int (length data)" and "index4 s b y x c"
  shows "do { i \<leftarrow> Offset nd s b y x c; v \<leftarrow> rd data i; Some (f v) } = Some (f (data ! nat (pos4 s b y x c)))"
  using assms pos4_bounds [OF assms(3)] by (simp add: Offset_index4 rd_def)

end
