(* ===== verification/Mac.thy ===== *)
theory Mac
  imports Bytes
begin

text \<open>
  The processing element \<open>mac\<close> of \<open>proj/accel/cfu.v\<close>: its registers and what one rising clock
  edge does to them (nonblocking assignments read the old registers). The numbered registers
  \<open>im0\<close> ... \<open>im3\<close>, \<open>w0\<close> ... \<open>w3\<close>, \<open>acc1\<close> ... \<open>acc8\<close> are lists here. The element is a
  pipeline of three stages; \<open>mac_start\<close> describes an enabled edge by the values in the stages:
  the staged product \<open>mac_product\<close>, the register \<open>mprod\<close> and the accumulators.
\<close>

section \<open>Registers\<close>

record mac =
  im_reg :: "i8 list"
  w_reg :: "i8 list"
  acc_reg :: "i32 list"
  mprod :: i32

text \<open>\<open>$signed({1'b0, im}) * $signed(w)\<close> in the 32 bits of the register it is assigned to.\<close>

definition lane_product :: "i8 \<Rightarrow> i8 \<Rightarrow> i32" where
  "lane_product im w = scast (ucast im :: 9 word) * scast w"

definition mac_product :: "mac \<Rightarrow> i32" where
  "mac_product m =
     lane_product (im_reg m ! 0) (w_reg m ! 0) + lane_product (im_reg m ! 1) (w_reg m ! 1) +
     lane_product (im_reg m ! 2) (w_reg m ! 2) + lane_product (im_reg m ! 3) (w_reg m ! 3)"

text \<open>\<open>im[7:0] + 9'd128\<close>, truncated to the 8 bits of its register.\<close>

definition offset_byte :: "i8 \<Rightarrow> i8" where
  "offset_byte b = ucast (ucast b + 128 :: 9 word)"

section \<open>One clock edge\<close>

definition mac_posedge :: "bool \<Rightarrow> bool \<Rightarrow> 3 word \<Rightarrow> i32 \<Rightarrow> i32 \<Rightarrow> mac \<Rightarrow> mac" where
  "mac_posedge reset start sel w im m =
     (if reset then
        m\<lparr>im_reg := [0, 0, 0, 0], w_reg := [0, 0, 0, 0], acc_reg := [0, 0, 0, 0, 0, 0, 0, 0]\<rparr>
      else if start then
        m\<lparr>im_reg := [offset_byte (byte 0 im), offset_byte (byte 1 im), offset_byte (byte 2 im), offset_byte (byte 3 im)],
          w_reg := [byte 0 w, byte 1 w, byte 2 w, byte 3 w],
          mprod := mac_product m,
          acc_reg := (acc_reg m)[unat sel := acc_reg m ! unat sel + mprod m]\<rparr>
      else m)"

text \<open>The output \<open>p\<close>: the accumulator that \<open>sel\<close> selects.\<close>

definition mac_p :: "3 word \<Rightarrow> mac \<Rightarrow> i32" where
  "mac_p sel m = acc_reg m ! unat sel"

section \<open>What an edge computes\<close>

text \<open>The four products of an activation word and a weight word, over the integers.\<close>

definition dot4 :: "i32 \<Rightarrow> i32 \<Rightarrow> int" where
  "dot4 x w =
     (sint (byte 0 x) + 128) * sint (byte 0 w) + (sint (byte 1 x) + 128) * sint (byte 1 w) +
     (sint (byte 2 x) + 128) * sint (byte 2 w) + (sint (byte 3 x) + 128) * sint (byte 3 w)"

lemma dot4_pack4:
  "dot4 (pack4 a0 a1 a2 a3) (pack4 w0 w1 w2 w3) =
    sint w0 * (sint a0 + 128) + sint w1 * (sint a1 + 128) + sint w2 * (sint a2 + 128) + sint w3 * (sint a3 + 128)"
  by (simp add: dot4_def byte_pack4 del: One_nat_def)

lemma uint8_sint: "uint (b :: i8) = (if 0 \<le> sint b then sint b else sint b + 256)"
proof -
  have "uint b = sint b mod 256"
    using uint_sint [of b] by (simp add: take_bit_eq_mod)
  moreover have r: "- 128 \<le> sint b" "sint b \<le> 127" by (rule sint8_range)+
  have "sint b mod 256 = (if 0 \<le> sint b then sint b else sint b + 256)"
  proof (cases "0 \<le> sint b")
    case True
    with r show ?thesis by (simp add: mod_pos_pos_trivial)
  next
    case False
    have "sint b mod 256 = (sint b + 256) mod 256" by (rule mod_add_self2 [symmetric])
    also have "\<dots> = sint b + 256"
      using r False by (intro mod_pos_pos_trivial) linarith+
    finally show ?thesis using False by simp
  qed
  ultimately show ?thesis by simp
qed

lemma uint_offset_byte: "uint (offset_byte b) = sint b + 128"
proof -
  have r: "- 128 \<le> sint b" "sint b \<le> 127" by (rule sint8_range)+
  then have u: "0 \<le> uint b" "uint b < 256" by (auto simp: uint8_sint)
  have "uint (ucast b + 128 :: 9 word) = uint b + 128"
    using u by (simp add: uint_word_ariths unsigned_ucast_eq take_bit_eq_mod)
  then have "uint (offset_byte b) = (uint b + 128) mod 256"
    by (simp add: offset_byte_def unsigned_ucast_eq take_bit_eq_mod)
  also have "\<dots> = (sint b + 128) mod 256"
    using uint_sint [of b] by (simp add: take_bit_eq_mod mod_simps)
  also have "\<dots> = sint b + 128"
    using r by simp
  finally show ?thesis .
qed

lemma lane_product_offset: "lane_product (offset_byte b) w = word_of_int ((sint b + 128) * sint w)"
proof -
  have "sint (ucast (offset_byte b) :: 9 word) = uint (offset_byte b)"
    using uint_bounded [of "offset_byte b"]
    by (simp add: sint_uint unsigned_ucast_eq take_bit_int_eq_self)
      (intro signed_take_bit_int_eq_self, simp_all add: order_trans [OF _ uint_ge_0])
  then show ?thesis
    by (simp only: lane_product_def scast_sint uint_offset_byte wi_hom_mult)
qed

lemma lane_product_zero: "lane_product im 0 = 0"
  by (simp add: lane_product_def)

text \<open>An enabled edge moves the pipeline by one stage; the other edges, without reset, hold it.\<close>

lemma mac_start:
  assumes "length (acc_reg m) = 8"
  shows "mac_product (mac_posedge False True sel w im m) = word_of_int (dot4 im w)"
    and "mprod (mac_posedge False True sel w im m) = mac_product m"
    and "acc_reg (mac_posedge False True sel w im m) = (acc_reg m)[unat sel := acc_reg m ! unat sel + mprod m]"
  by (simp_all add: mac_posedge_def mac_product_def [of "_\<lparr>im_reg := _\<rparr>"] mac_product_def lane_product_offset dot4_def)

lemma mac_hold: "mac_posedge False False sel w im m = m"
  by (simp add: mac_posedge_def)

lemma mac_reset:
  "mac_product (mac_posedge True start sel w im m) = 0"
  "mprod (mac_posedge True start sel w im m) = mprod m"
  "acc_reg (mac_posedge True start sel w im m) = [0, 0, 0, 0, 0, 0, 0, 0]"
  by (simp_all add: mac_posedge_def mac_product_def lane_product_zero)

end
