(* ===== verification/Cfu.thy ===== *)
theory Cfu
  imports Mac
begin

text \<open>
  The custom function unit \<open>Cfu\<close> of \<open>proj/accel/cfu.v\<close>: a scratchpad of 64 words, sixteen
  processing elements that all see the same weight word, and the handshake with the CPU. One
  rising clock edge is \<open>cfu_posedge\<close>; \<open>cfu_op\<close> is one custom instruction as the CPU drives it:
  an edge with \<open>cmd_valid\<close>, then one with \<open>rsp_ready\<close>. The values that the PEs hold in their
  pipelines are exposed by \<open>acc_of\<close>, \<open>prod_of\<close>, \<open>staged\<close> and \<open>pend\<close>; the \<open>op\<close> lemmas say what
  each instruction does to them, and \<open>stream_accumulates\<close> that twelve weight words flush the
  pipeline and add nine taps to one accumulator of every PE.
\<close>

section \<open>State and inputs\<close>

text \<open>
  \<open>addr\<close> holds the registers \<open>a00\<close> ... \<open>a15\<close>, \<open>pe\<close> the instances \<open>m00\<close> ... \<open>m15\<close>. A word
  read outside a memory is 0 here (undefined in Verilog); the lemmas never use one.
\<close>

record cfu =
  output_0 :: i32
  tile_mem_w :: i32
  tile_mem :: "i32 list"
  addr :: "8 word list"
  mem_ctr :: "8 word"
  ctr :: "4 word"
  rsp_valid_reg :: bool
  pe :: "mac list"

record cfu_in =
  rst :: bool
  cmd_valid :: bool
  function_id :: "10 word"
  inputs_0 :: i32
  inputs_1 :: i32
  rsp_ready :: bool

definition mem_read :: "'a::zero list \<Rightarrow> nat \<Rightarrow> 'a" where
  "mem_read xs i = (if i < length xs then xs ! i else 0)"

section \<open>Combinational signals\<close>

definition cmd_ready :: "cfu \<Rightarrow> bool" where
  "cmd_ready s = (\<not> rsp_valid_reg s)"

definition func :: "cfu_in \<Rightarrow> 3 word" where
  "func i = ucast (drop_bit 3 (function_id i))"

definition wr_en :: "cfu_in \<Rightarrow> bool" where
  "wr_en i = (cmd_valid i \<and> func i = 5)"

definition ctr_reset :: "cfu_in \<Rightarrow> bool" where
  "ctr_reset i = ((func i = 5 \<or> func i = 2 \<or> func i = 4) \<and> cmd_valid i)"

definition cfu_reset :: "cfu_in \<Rightarrow> bool" where
  "cfu_reset i = ((func i = 3 \<or> rst i) \<and> cmd_valid i)"

text \<open>The pair \<open>(id, mode)\<close> of the address generator.\<close>

definition id_mode :: "cfu \<Rightarrow> cfu_in \<Rightarrow> 8 word \<times> bool" where
  "id_mode s i =
     (if func i = 1 \<and> cmd_valid i then
        if ctr s < 3 then (ucast (ctr s), True)
        else if ctr s < 6 then (ucast (ctr s) + 3, True)
        else if ctr s < 9 then (ucast (ctr s) + 6, True)
        else if ctr s < 12 then (36, True)
        else (0, False)
      else (0, False))"

definition acc_sel :: "cfu_in \<Rightarrow> 3 word" where
  "acc_sel i = (if func i = 1 \<or> func i = 2 then ucast (inputs_1 i) else 0)"

text \<open>The offsets that \<open>a00\<close> ... \<open>a15\<close> add to \<open>id\<close>.\<close>

definition pe_offsets :: "8 word list" where
  "pe_offsets = [0, 1, 2, 3, 6, 7, 8, 9, 12, 13, 14, 15, 18, 19, 20, 21]"

section \<open>One clock edge\<close>

definition next_tile_mem :: "cfu \<Rightarrow> cfu_in \<Rightarrow> i32 list" where
  "next_tile_mem s i =
     (if rst i then replicate 64 0
      else if wr_en i then
        (tile_mem s)[unat (mem_ctr s) := inputs_0 i, unat (mem_ctr s) + 1 := inputs_1 i]
      else tile_mem s)"

definition next_mem_ctr :: "cfu \<Rightarrow> cfu_in \<Rightarrow> 8 word" where
  "next_mem_ctr s i =
     (if rst i then 0 else if wr_en i then mem_ctr s + 2
      else if func i = 4 \<and> cmd_valid i then 0 else mem_ctr s)"

definition next_ctr :: "cfu \<Rightarrow> cfu_in \<Rightarrow> 4 word" where
  "next_ctr s i =
     (if ctr_reset i \<or> rst i \<or> cfu_reset i then 0
      else if ctr s < 12 \<and> cmd_valid i then ctr s + 1 else ctr s)"

definition next_rsp_valid :: "cfu \<Rightarrow> cfu_in \<Rightarrow> bool" where
  "next_rsp_valid s i =
     (if rst i then False else if rsp_valid_reg s then \<not> rsp_ready i
      else if cmd_valid i then True else rsp_valid_reg s)"

definition next_output_0 :: "cfu \<Rightarrow> cfu_in \<Rightarrow> i32" where
  "next_output_0 s i =
     (if rst i then 0 else if rsp_valid_reg s then output_0 s
      else if cmd_valid i then
        (if func i = 2 then mem_read (map (mac_p (acc_sel i)) (pe s)) (unat (inputs_0 i)) else 0)
      else output_0 s)"

definition next_pe :: "cfu \<Rightarrow> cfu_in \<Rightarrow> mac list" where
  "next_pe s i =
     map2 (\<lambda>a. mac_posedge (cfu_reset i) (snd (id_mode s i)) (acc_sel i) (tile_mem_w s)
             (mem_read (tile_mem s) (unat a))) (addr s) (pe s)"

definition cfu_posedge :: "cfu_in \<Rightarrow> cfu \<Rightarrow> cfu" where
  "cfu_posedge i s =
     \<lparr>output_0 = next_output_0 s i,
      tile_mem_w = (if cmd_valid i then (if func i = 1 then inputs_0 i else 0) else tile_mem_w s),
      tile_mem = next_tile_mem s i,
      addr = (if cmd_valid i then map (\<lambda>k. fst (id_mode s i) + k) pe_offsets else addr s),
      mem_ctr = next_mem_ctr s i,
      ctr = next_ctr s i,
      rsp_valid_reg = next_rsp_valid s i,
      pe = next_pe s i\<rparr>"

section \<open>One custom instruction\<close>

text \<open>
  \<open>cfu_op(funct3, funct7, rs1, rs2)\<close> of \<open>common/src/cfu.h\<close>: the CPU forms the function id
  \<open>{funct7, funct3}\<close>, holds the command until it is accepted (at once, when \<open>cmd_ready\<close>), and
  takes the response in the next cycle.
\<close>

definition command :: "3 word \<Rightarrow> 7 word \<Rightarrow> i32 \<Rightarrow> i32 \<Rightarrow> cfu_in" where
  "command funct3 funct7 rs1 rs2 = \<lparr>rst = False, cmd_valid = True,
     function_id = push_bit 3 (ucast funct7) OR ucast funct3, inputs_0 = rs1, inputs_1 = rs2, rsp_ready = False\<rparr>"

definition response :: cfu_in where
  "response = \<lparr>rst = False, cmd_valid = False, function_id = 0, inputs_0 = 0, inputs_1 = 0, rsp_ready = True\<rparr>"

definition cfu_op :: "3 word \<Rightarrow> 7 word \<Rightarrow> i32 \<Rightarrow> i32 \<Rightarrow> cfu \<Rightarrow> (i32 \<times> cfu) option" where
  "cfu_op funct3 funct7 rs1 rs2 s =
     (if cmd_ready s
      then let s' = cfu_posedge (command funct3 funct7 rs1 rs2) s
           in Some (output_0 s', cfu_posedge response s')
      else None)"

text \<open>Power-up: the memory as its initial block fills it, the registers 0.\<close>

definition mac_init :: mac where
  "mac_init = \<lparr>im_reg = [0, 0, 0, 0], w_reg = [0, 0, 0, 0], acc_reg = [0, 0, 0, 0, 0, 0, 0, 0], mprod = 0\<rparr>"

definition cfu_init :: cfu where
  "cfu_init = \<lparr>output_0 = 0, tile_mem_w = 0, tile_mem = replicate 64 0x80808080, addr = replicate 16 0,
     mem_ctr = 0, ctr = 0, rsp_valid_reg = False, pe = replicate 16 mac_init\<rparr>"

section \<open>The pipeline of a PE\<close>

definition acc_of :: "cfu \<Rightarrow> nat \<Rightarrow> nat \<Rightarrow> i32" where
  "acc_of s p k = acc_reg (pe s ! p) ! k"

definition prod_of :: "cfu \<Rightarrow> nat \<Rightarrow> i32" where
  "prod_of s p = mprod (pe s ! p)"

definition staged :: "cfu \<Rightarrow> nat \<Rightarrow> i32" where
  "staged s p = mac_product (pe s ! p)"

text \<open>What the next enabled edge stages: the activation that the PE addresses, and the weight.\<close>

definition pend :: "cfu \<Rightarrow> nat \<Rightarrow> int" where
  "pend s p = dot4 (mem_read (tile_mem s) (unat (addr s ! p))) (tile_mem_w s)"

definition cfu_wf :: "cfu \<Rightarrow> bool" where
  "cfu_wf s \<longleftrightarrow> \<not> rsp_valid_reg s \<and> length (tile_mem s) = 64 \<and> length (addr s) = 16 \<and>
     length (pe s) = 16 \<and> (\<forall>p < 16. length (acc_reg (pe s ! p)) = 8)"

lemma cfu_wf_lengths:
  assumes "cfu_wf s"
  shows "\<not> rsp_valid_reg s" "cmd_ready s" "length (tile_mem s) = 64" "length (addr s) = 16"
    "length (pe s) = 16" "p < 16 \<Longrightarrow> length (acc_reg (pe s ! p)) = 8"
  using assms by (simp_all add: cfu_wf_def cmd_ready_def)

lemma func_command [simp]: "func (command 0 f a b) = ucast f"
  by (rule bit_word_eqI) (auto simp: func_def command_def bit_simps)

lemma command_fields [simp]:
  "cmd_valid (command f3 f a b)" "\<not> rst (command f3 f a b)" "\<not> rsp_ready (command f3 f a b)"
  "inputs_0 (command f3 f a b) = a" "inputs_1 (command f3 f a b) = b"
  "\<not> cmd_valid response" "\<not> rst response" "rsp_ready response"
  by (simp_all add: command_def response_def)

lemma length_pe_offsets [simp]: "length pe_offsets = 16"
  by (simp add: pe_offsets_def)

lemma posedge_pe:
  assumes "cfu_wf s" and "p < 16"
  shows "pe (cfu_posedge i s) ! p = mac_posedge (cfu_reset i) (snd (id_mode s i)) (acc_sel i) (tile_mem_w s)
    (mem_read (tile_mem s) (unat (addr s ! p))) (pe s ! p)"
  using assms by (simp add: cfu_posedge_def next_pe_def cfu_wf_def)

text \<open>The edge of the response changes nothing but the handshake.\<close>

lemma posedge_idle:
  assumes "\<not> rst i" and "\<not> cmd_valid i" and "length (addr s) = length (pe s)"
  shows "cfu_posedge i s = s\<lparr>rsp_valid_reg := rsp_valid_reg s \<and> \<not> rsp_ready i\<rparr>"
proof -
  have "map2 (\<lambda>a m. m) (addr s) (pe s) = pe s"
    using assms(3) by (intro nth_equalityI) simp_all
  then show ?thesis
    using assms by (simp add: cfu_posedge_def next_output_0_def next_tile_mem_def wr_en_def next_mem_ctr_def
        next_ctr_def ctr_reset_def cfu_reset_def next_rsp_valid_def next_pe_def id_mode_def mac_hold)
qed

text \<open>An instruction that the unit accepts: the edge of its command, and the handshake is idle again.\<close>

definition accept :: "7 word \<Rightarrow> i32 \<Rightarrow> i32 \<Rightarrow> cfu \<Rightarrow> cfu" where
  "accept f a b s = (cfu_posedge (command 0 f a b) s)\<lparr>rsp_valid_reg := False\<rparr>"

lemma length_posedge:
  assumes "cfu_wf s"
  shows "length (addr (cfu_posedge i s)) = 16" "length (pe (cfu_posedge i s)) = 16"
    "length (tile_mem (cfu_posedge i s)) = 64"
  using assms by (simp_all add: cfu_posedge_def next_pe_def next_tile_mem_def cfu_wf_def)

lemma cfu_op_accept:
  assumes "cfu_wf s"
  shows "cfu_op 0 f a b s = Some (next_output_0 s (command 0 f a b), accept f a b s)"
proof -
  have "cfu_posedge response (cfu_posedge (command 0 f a b) s) = accept f a b s"
    using length_posedge [OF assms] by (simp add: posedge_idle accept_def)
  moreover have "output_0 (cfu_posedge (command 0 f a b) s) = next_output_0 s (command 0 f a b)"
    by (simp add: cfu_posedge_def)
  ultimately show ?thesis
    using cfu_wf_lengths(2) [OF assms] by (simp add: cfu_op_def Let_def)
qed

lemma length_acc_posedge: "length (acc_reg m) = 8 \<Longrightarrow> length (acc_reg (mac_posedge r st sel w im m)) = 8"
  by (simp add: mac_posedge_def)

lemma accept_wf:
  assumes "cfu_wf s"
  shows "cfu_wf (accept f a b s)"
proof -
  have "\<forall>p < 16. length (acc_reg (pe (cfu_posedge (command 0 f a b) s) ! p)) = 8"
    using assms by (simp add: posedge_pe length_acc_posedge cfu_wf_lengths)
  then show ?thesis
    unfolding cfu_wf_def accept_def using length_posedge [OF assms] by simp
qed

lemma accept_pe:
  assumes "cfu_wf s" and "p < 16"
  shows "pe (accept f a b s) ! p =
    mac_posedge (cfu_reset (command 0 f a b)) (snd (id_mode s (command 0 f a b))) (acc_sel (command 0 f a b))
      (tile_mem_w s) (mem_read (tile_mem s) (unat (addr s ! p))) (pe s ! p)"
  using posedge_pe [OF assms] by (simp add: accept_def)

lemma accept_fields:
  "tile_mem (accept f a b s) = next_tile_mem s (command 0 f a b)"
  "mem_ctr (accept f a b s) = next_mem_ctr s (command 0 f a b)"
  "ctr (accept f a b s) = next_ctr s (command 0 f a b)"
  "tile_mem_w (accept f a b s) = (if ucast f = (1 :: 3 word) then a else 0)"
  "addr (accept f a b s) = map (\<lambda>k. fst (id_mode s (command 0 f a b)) + k) pe_offsets"
  by (simp_all add: accept_def cfu_posedge_def)

section \<open>What each instruction does\<close>

lemma dot4_zero: "dot4 x 0 = 0"
  by (simp add: dot4_def byte_def)

lemma pend_zero: "tile_mem_w s = 0 \<Longrightarrow> pend s p = 0"
  by (simp add: pend_def dot4_zero)

lemmas op_simps = id_mode_def cfu_reset_def acc_sel_def next_tile_mem_def next_mem_ctr_def next_ctr_def
  wr_en_def ctr_reset_def accept_fields

text \<open>3: the accumulators and the staged operands are cleared; the product register is not.\<close>

lemma op_reset:
  assumes "cfu_wf s" and "p < 16"
  shows "k < 8 \<Longrightarrow> acc_of (accept 3 a b s) p k = 0" and "staged (accept 3 a b s) p = 0"
    and "prod_of (accept 3 a b s) p = prod_of s p"
    and "tile_mem (accept 3 a b s) = tile_mem s" and "mem_ctr (accept 3 a b s) = mem_ctr s"
  using assms
  by (simp_all add: acc_of_def staged_def prod_of_def accept_pe mac_reset op_simps)
    (auto simp: less_Suc_eq numeral_eq_Suc)

text \<open>4, 5 and 2 do not enable the PEs.\<close>

lemma op_hold:
  assumes "cfu_wf s" and "p < 16" and "ucast f \<noteq> (1 :: 3 word)" and "ucast f \<noteq> (3 :: 3 word)"
  shows "acc_of (accept f a b s) p k = acc_of s p k" and "staged (accept f a b s) p = staged s p"
    and "prod_of (accept f a b s) p = prod_of s p"
  using assms by (simp_all add: acc_of_def staged_def prod_of_def accept_pe mac_hold op_simps)

lemma op_restart:
  "tile_mem (accept 4 a b s) = tile_mem s" "mem_ctr (accept 4 a b s) = 0" "ctr (accept 4 a b s) = 0"
  by (simp_all add: op_simps)

lemma op_write:
  "tile_mem (accept 5 a b s) = (tile_mem s)[unat (mem_ctr s) := a, unat (mem_ctr s) + 1 := b]"
  "mem_ctr (accept 5 a b s) = mem_ctr s + 2"
  by (simp_all add: op_simps)

lemma op_read:
  assumes "cfu_wf s" and "p < 16"
  shows "next_output_0 s (command 0 2 (word_of_nat p) b) = acc_of s p (unat (ucast b :: 3 word))"
    and "tile_mem (accept 2 a b s) = tile_mem s" and "mem_ctr (accept 2 a b s) = mem_ctr s"
proof -
  have "unat (word_of_nat p :: i32) = p"
    using assms(2) by (simp add: unat_of_nat take_bit_nat_eq_self)
  then show "next_output_0 s (command 0 2 (word_of_nat p) b) = acc_of s p (unat (ucast b :: 3 word))"
    using assms by (simp add: next_output_0_def cfu_wf_lengths mem_read_def acc_sel_def acc_of_def mac_p_def)
qed (simp_all add: op_simps)

text \<open>1: the pipelines move by one stage, and the next activations are addressed.\<close>

definition tap :: "nat \<Rightarrow> nat" where
  "tap c = (if c < 3 then c else if c < 6 then c + 3 else if c < 9 then c + 6 else 36)"

definition pe_offset :: "nat \<Rightarrow> nat" where
  "pe_offset p = 6 * (p div 4) + p mod 4"

lemma pe_offsets_nth:
  assumes "p < 16"
  shows "unat (pe_offsets ! p) = pe_offset p"
proof -
  have "map unat pe_offsets = map pe_offset [0..<16]"
    by (simp add: pe_offsets_def pe_offset_def upt_rec)
  then have "map unat pe_offsets ! p = map pe_offset [0..<16] ! p" by (rule arg_cong)
  with assms show ?thesis by simp
qed

lemma tap_address: "c < 12 \<Longrightarrow> p < 16 \<Longrightarrow> tap c + pe_offset p < 64"
  by (auto simp: tap_def pe_offset_def)

lemma id_mode_feed:
  assumes "unat (ctr s) < 12"
  shows "unat (fst (id_mode s (command 0 1 w b))) = tap (unat (ctr s))"
    and "snd (id_mode s (command 0 1 w b))"
proof -
  define c where "c = ctr s"
  have less: "c < n \<longleftrightarrow> unat c < unat n" for n :: "4 word"
    by (rule word_less_nat_alt)
  have up: "unat (ucast c :: 8 word) = unat c"
    using unsigned_less [of c, where ?'a = nat] by (simp add: unsigned_ucast_eq take_bit_nat_eq_self)
  have plus: "unat (ucast c + k :: 8 word) = unat c + unat k" if "unat k < 100" for k :: "8 word"
    using that up unsigned_less [of c, where ?'a = nat] by (subst unat_add_lem [THEN iffD1]) simp_all
  show "unat (fst (id_mode s (command 0 1 w b))) = tap (unat (ctr s))"
    using assms by (simp add: id_mode_def tap_def less plus up flip: c_def)
  show "snd (id_mode s (command 0 1 w b))"
    using assms by (simp add: id_mode_def less flip: c_def)
qed

lemma op_feed:
  assumes "cfu_wf s" and "p < 16" and c: "unat (ctr s) < 12"
  shows "acc_of (accept 1 w b s) p k =
      (if k < 8 \<and> k = unat (ucast b :: 3 word) then acc_of s p k + prod_of s p else acc_of s p k)"
    and "prod_of (accept 1 w b s) p = staged s p"
    and "staged (accept 1 w b s) p = word_of_int (pend s p)"
    and "pend (accept 1 w b s) p = dot4 (tile_mem s ! (tap (unat (ctr s)) + pe_offset p)) w"
    and "tile_mem (accept 1 w b s) = tile_mem s" and "mem_ctr (accept 1 w b s) = mem_ctr s"
    and "unat (ctr (accept 1 w b s)) = Suc (unat (ctr s))"
proof -
  have pe: "pe (accept 1 w b s) ! p = mac_posedge False True (ucast b) (tile_mem_w s)
      (mem_read (tile_mem s) (unat (addr s ! p))) (pe s ! p)"
    using id_mode_feed(2) [OF c] assms by (simp add: accept_pe cfu_reset_def acc_sel_def)
  note m = mac_start [OF cfu_wf_lengths(6) [OF assms(1,2)]]
  have sel: "unat (ucast b :: 3 word) < 8"
    using unsigned_less [of "ucast b :: 3 word", where ?'a = nat] by simp
  show "acc_of (accept 1 w b s) p k =
      (if k < 8 \<and> k = unat (ucast b :: 3 word) then acc_of s p k + prod_of s p else acc_of s p k)"
    using sel cfu_wf_lengths(6) [OF assms(1,2)] by (simp add: acc_of_def prod_of_def pe m nth_list_update)
  show "prod_of (accept 1 w b s) p = staged s p"
    "staged (accept 1 w b s) p = word_of_int (pend s p)"
    by (simp_all add: prod_of_def staged_def pend_def pe m)
  show tile: "tile_mem (accept 1 w b s) = tile_mem s" and "mem_ctr (accept 1 w b s) = mem_ctr s"
    by (simp_all add: op_simps)
  have "unat (fst (id_mode s (command 0 1 w b)) + pe_offsets ! p) = tap (unat (ctr s)) + pe_offset p"
    using id_mode_feed(1) [OF c] pe_offsets_nth [OF assms(2)] tap_address [OF c assms(2)]
    by (subst unat_add_lem [THEN iffD1]) simp_all
  then show "pend (accept 1 w b s) p = dot4 (tile_mem s ! (tap (unat (ctr s)) + pe_offset p)) w"
    using tap_address [OF c assms(2)] assms(1,2)
    by (simp add: pend_def tile mem_read_def cfu_wf_lengths) (simp add: accept_fields)
  have "unat (ctr s + 1) = Suc (unat (ctr s))"
    using c by (subst unat_add_lem [THEN iffD1]) simp_all
  moreover have "ctr s < 12" using c by (simp add: word_less_nat_alt)
  ultimately show "unat (ctr (accept 1 w b s)) = Suc (unat (ctr s))"
    by (simp add: op_simps)
qed

section \<open>A weight tile\<close>

text \<open>The words of a list sent one after the other with instruction 1.\<close>

fun feed :: "i32 \<Rightarrow> i32 list \<Rightarrow> cfu \<Rightarrow> cfu" where
  "feed b [] s = s"
| "feed b (w # ws) s = feed b ws (accept 1 w b s)"

lemma feed_snoc: "feed b (ws @ [w]) s = accept 1 w b (feed b ws s)"
  by (induction ws arbitrary: s) simp_all

definition tap_product :: "i32 list \<Rightarrow> i32 list \<Rightarrow> nat \<Rightarrow> nat \<Rightarrow> int" where
  "tap_product tile ws p u = dot4 (tile ! (tap u + pe_offset p)) (ws ! u)"

text \<open>The pipelines of all PEs are empty.\<close>

definition quiet :: "cfu \<Rightarrow> bool" where
  "quiet s \<longleftrightarrow> cfu_wf s \<and> (\<forall>p < 16. prod_of s p = 0 \<and> staged s p = 0)"

text \<open>After \<open>n\<close> weight words, the products of the last three are still on their way.\<close>

lemma feed_pipeline:
  assumes "quiet s" and "ctr s = 0" and "tile_mem_w s = 0" and "p < 16" and "n \<le> 12" and "n \<le> length ws"
  shows "cfu_wf (feed b (take n ws) s) \<and> tile_mem (feed b (take n ws) s) = tile_mem s \<and>
    mem_ctr (feed b (take n ws) s) = mem_ctr s \<and> unat (ctr (feed b (take n ws) s)) = n \<and>
    (\<forall>k. acc_of (feed b (take n ws) s) p k = acc_of s p k +
      (if k < 8 \<and> k = unat (ucast b :: 3 word) then word_of_int (\<Sum>u<n - 3. tap_product (tile_mem s) ws p u) else 0)) \<and>
    prod_of (feed b (take n ws) s) p = (if 3 \<le> n then word_of_int (tap_product (tile_mem s) ws p (n - 3)) else 0) \<and>
    staged (feed b (take n ws) s) p = (if 2 \<le> n then word_of_int (tap_product (tile_mem s) ws p (n - 2)) else 0) \<and>
    pend (feed b (take n ws) s) p = (if 1 \<le> n then tap_product (tile_mem s) ws p (n - 1) else 0)"
  using assms(5,6)
proof (induction n)
  case 0
  then show ?case using assms by (simp add: quiet_def pend_zero)
next
  case (Suc n)
  define t where "t = feed b (take n ws) s"
  have IH: "cfu_wf t" "tile_mem t = tile_mem s" "mem_ctr t = mem_ctr s" "unat (ctr t) = n"
    "\<And>k. acc_of t p k = acc_of s p k + (if k < 8 \<and> k = unat (ucast b :: 3 word)
      then word_of_int (\<Sum>u<n - 3. tap_product (tile_mem s) ws p u) else 0)"
    "prod_of t p = (if 3 \<le> n then word_of_int (tap_product (tile_mem s) ws p (n - 3)) else 0)"
    "staged t p = (if 2 \<le> n then word_of_int (tap_product (tile_mem s) ws p (n - 2)) else 0)"
    "pend t p = (if 1 \<le> n then tap_product (tile_mem s) ws p (n - 1) else 0)"
    using Suc by (auto simp: t_def)
  have step: "feed b (take (Suc n) ws) s = accept 1 (ws ! n) b t"
    using Suc.prems by (simp add: take_Suc_conv_app_nth feed_snoc t_def)
  have "unat (ctr t) < 12" using IH(4) Suc.prems by simp
  note f = op_feed [OF IH(1) assms(4) this]
  have sum: "(\<Sum>u<Suc n - 3. tap_product (tile_mem s) ws p u) =
      (\<Sum>u<n - 3. tap_product (tile_mem s) ws p u) + (if 3 \<le> n then tap_product (tile_mem s) ws p (n - 3) else 0)"
  proof (cases "3 \<le> n")
    case True
    then have "Suc n - 3 = Suc (n - 3)" by simp
    with True show ?thesis by (simp only: sum.lessThan_Suc if_True)
  qed simp
  show ?case
    unfolding step
  proof (intro conjI allI)
    fix k
    show "acc_of (accept 1 (ws ! n) b t) p k = acc_of s p k +
      (if k < 8 \<and> k = unat (ucast b :: 3 word) then word_of_int (\<Sum>u<Suc n - 3. tap_product (tile_mem s) ws p u) else 0)"
      unfolding f(1) sum IH(5,6) by (simp add: add.assoc)
  qed (simp_all add: accept_wf IH f tap_product_def)
qed

section \<open>Reachable states\<close>

text \<open>States that instructions and idle cycles reach from power-up.\<close>

inductive cfu_reach :: "cfu \<Rightarrow> bool" where
  power_up: "cfu_reach cfu_init"
| instruction: "cfu_reach s \<Longrightarrow> cfu_op funct3 f a b s = Some (r, s') \<Longrightarrow> cfu_reach s'"
| idle: "cfu_reach s \<Longrightarrow> \<not> rst i \<Longrightarrow> \<not> cmd_valid i \<Longrightarrow> cfu_reach (cfu_posedge i s)"

lemma wf_posedge:
  assumes "cfu_wf s"
  shows "cfu_wf ((cfu_posedge i s)\<lparr>rsp_valid_reg := False\<rparr>)"
proof -
  have "\<forall>p < 16. length (acc_reg (pe (cfu_posedge i s) ! p)) = 8"
    using assms by (simp add: posedge_pe length_acc_posedge cfu_wf_lengths)
  then show ?thesis unfolding cfu_wf_def using length_posedge [OF assms] by simp
qed

lemma wf_op:
  assumes "cfu_wf s"
  shows "ok (cfu_op funct3 f a b s) (\<lambda>(r, s'). cfu_wf s')"
proof -
  have "cfu_posedge response (cfu_posedge (command funct3 f a b) s) =
      (cfu_posedge (command funct3 f a b) s)\<lparr>rsp_valid_reg := False\<rparr>"
    using length_posedge [OF assms] by (simp add: posedge_idle)
  then show ?thesis
    using wf_posedge [OF assms, of "command funct3 f a b"] cfu_wf_lengths(2) [OF assms]
    by (simp add: cfu_op_def Let_def ok_simps)
qed

lemma wf_idle: "cfu_wf s \<Longrightarrow> \<not> rst i \<Longrightarrow> \<not> cmd_valid i \<Longrightarrow> cfu_posedge i s = s"
  by (cases s) (simp add: posedge_idle cfu_wf_def)

lemma wf_init: "cfu_wf cfu_init"
  by (simp add: cfu_wf_def cfu_init_def mac_init_def)

text \<open>The unit is quiet after power-up.\<close>

lemma quiet_init: "quiet cfu_init"
  by (simp add: quiet_def wf_init prod_of_def staged_def mac_product_def lane_product_def)
    (simp add: cfu_init_def mac_init_def lane_product_def)

text \<open>The CPU does not take the response yet.\<close>

definition stalled :: cfu_in where
  "stalled = response\<lparr>rsp_ready := False\<rparr>"

lemma posedge_stalled: "length (addr s) = length (pe s) \<Longrightarrow> cfu_posedge stalled s = s"
  by (cases s) (simp add: posedge_idle stalled_def)

text \<open>A unit with a product in its pipelines.\<close>

definition loaded_cfu :: cfu where
  "loaded_cfu = cfu_init\<lparr>pe := replicate 16 (mac_init\<lparr>mprod := 5\<rparr>)\<rparr>"

section \<open>Properties\<close>

text \<open>
  C10. Instructions and idle cycles never lead the unit out of its well-formed states, in
  which it accepts every instruction at once.
\<close>

theorem cfu_never_stuck:
  assumes "cfu_reach s"
  shows "cfu_wf s \<and> (\<exists>r s'. cfu_op funct3 f a b s = Some (r, s') \<and> cfu_reach s')"
proof -
  have "cfu_wf s"
    using assms
  proof induction
    case (instruction s funct3 f a b r s')
    then show ?case using wf_op [of s funct3 f a b] by (simp add: ok_simps)
  qed (simp_all add: wf_init wf_idle)
  with wf_op [of s funct3 f a b] show ?thesis
    using cfu_reach.instruction [OF assms] by (fastforce simp: ok_iff)
qed

theorem cfu_never_stuck_witness: "\<exists>r s'. cfu_op 0 5 7 8 cfu_init = Some (r, s') \<and> cfu_reach s'"
  using cfu_never_stuck [OF power_up] by blast

text \<open>
  Cycles without a command, whatever the other inputs hold, change nothing in the unit.
\<close>

theorem idle_cycles_hold:
  assumes "cfu_wf s" and "\<forall>i \<in> set js. \<not> rst i \<and> \<not> cmd_valid i"
  shows "fold cfu_posedge js s = s"
proof -
  have "cfu_posedge i s = s" if "i \<in> set js" for i
  proof -
    have "s\<lparr>rsp_valid_reg := False\<rparr> = s" using assms(1) by (cases s) (simp add: cfu_wf_def)
    then show ?thesis
      using posedge_idle [of i s] assms that by (simp add: cfu_wf_def)
  qed
  then show ?thesis by (induction js) simp_all
qed

theorem idle_cycles_hold_witness: "fold cfu_posedge [response, response] cfu_init = cfu_init"
  using idle_cycles_hold [of cfu_init "[response, response]"]
  by (simp add: cfu_wf_def cfu_init_def mac_init_def response_def)



text \<open>
  The unit acts on \<open>cmd_valid\<close> alone: a write command that is still held in the cycle of the
  response, when \<open>cmd_ready\<close> is low, advances the memory counter a second time.
\<close>

theorem held_command_counts_twice:
  assumes "quiet s" and "mem_ctr s = 0"
  shows "mem_ctr (cfu_posedge (command 0 5 a b) s) = 2 \<and> \<not> cmd_ready (cfu_posedge (command 0 5 a b) s) \<and>
    mem_ctr (cfu_posedge (command 0 5 a b) (cfu_posedge (command 0 5 a b) s)) = 4"
  using assms by (simp add: cfu_posedge_def next_mem_ctr_def wr_en_def cmd_ready_def next_rsp_valid_def quiet_def cfu_wf_def)

theorem held_command_counts_twice_witness:
  "mem_ctr (cfu_posedge (command 0 5 1 2) (cfu_posedge (command 0 5 1 2) cfu_init)) = 4"
proof -
  have "mem_ctr cfu_init = 0" by (simp add: cfu_init_def)
  from held_command_counts_twice [OF quiet_init this, of 1 2] show ?thesis by simp
qed

text \<open>
  Instruction 3 clears the accumulators but not the product register: the next weight word
  adds the product that was on its way. The kernel avoids this by flushing every weight tile.
\<close>

theorem reset_keeps_product:
  assumes "cfu_wf s" and "p < 16"
  shows "\<exists>r s' r' s''. cfu_op 0 3 0 0 s = Some (r, s') \<and> cfu_op 0 1 w 0 s' = Some (r', s'') \<and>
    acc_of s' p 0 = 0 \<and> acc_of s'' p 0 = prod_of s p"
proof -
  let ?s' = "accept 3 0 0 s"
  have wf: "cfu_wf ?s'" by (rule accept_wf [OF assms(1)])
  have "unat (ctr ?s') < 12" by (simp add: op_simps)
  note f = op_feed(1) [OF wf assms(2) this, of w 0 0]
  have "acc_of (accept 1 w 0 ?s') p 0 = prod_of s p"
    using f op_reset(1,3) [OF assms, where a = 0 and b = 0] by simp
  then show ?thesis
    using op_reset(1) [OF assms, where k = 0 and a = 0 and b = 0]
    by (simp add: cfu_op_accept [OF assms(1)] cfu_op_accept [OF wf])
qed

theorem reset_keeps_product_witness:
  "\<exists>r s' r' s''. cfu_op 0 3 0 0 loaded_cfu = Some (r, s') \<and> cfu_op 0 1 0 0 s' = Some (r', s'') \<and>
    acc_of s' 15 0 = 0 \<and> acc_of s'' 15 0 = 5"
proof -
  have "cfu_wf loaded_cfu" by (simp add: loaded_cfu_def cfu_wf_def cfu_init_def mac_init_def)
  from reset_keeps_product [OF this, of 15 0] show ?thesis
    by (simp add: prod_of_def loaded_cfu_def)
qed

end
