(* ===== verification/Tile_Engine.thy ===== *)
theory Tile_Engine
  imports Cfu
begin

text \<open>
  The interface between the accelerated kernel and its function unit: what the sequences of
  custom instructions that the kernel issues do, in terms of the 6-by-6 words of the input tile
  and of the eight accumulators of each of the sixteen PEs. The unit of \<open>proj/accel/cfu.v\<close>
  provides it: the interpretation \<open>unit\<close> rests on the pipeline lemmas of \<open>Cfu\<close>.
\<close>

section \<open>The interface\<close>

text \<open>The words of a list, sent one after the other with instruction 1.\<close>

fun stream :: "(7 word \<Rightarrow> i32 \<Rightarrow> i32 \<Rightarrow> 'c \<Rightarrow> (i32 \<times> 'c) option) \<Rightarrow> i32 \<Rightarrow> i32 list \<Rightarrow> 'c \<Rightarrow> 'c option" where
  "stream op b [] s = Some s"
| "stream op b (w # ws) s = do { (_, s) \<leftarrow> op 1 w b s; stream op b ws s }"

text \<open>
  The products that one PE adds for a weight tile of 3 by 3 words: the PE in row \<open>p div 4\<close> and
  column \<open>p mod 4\<close> of the output tile sees the window of the input tile that starts there.
\<close>

definition window_sum :: "i32 list \<Rightarrow> i32 list \<Rightarrow> nat \<Rightarrow> int" where
  "window_sum t ws p =
     (\<Sum>u<9. dot4 (t ! (6 * (p div 4 + u div 3) + (p mod 4 + u mod 3))) (ws ! u))"

locale tile_engine =
  fixes op :: "7 word \<Rightarrow> i32 \<Rightarrow> i32 \<Rightarrow> 'c \<Rightarrow> (i32 \<times> 'c) option"
    and inv :: "'c \<Rightarrow> bool"
    and tile :: "'c \<Rightarrow> i32 list"
    and wpos :: "'c \<Rightarrow> nat"
    and acc :: "'c \<Rightarrow> nat \<Rightarrow> nat \<Rightarrow> i32"
  assumes reset: "inv s \<Longrightarrow> ok (op 3 0 0 s) (\<lambda>(_, s'). inv s' \<and> (\<forall>p < 16. \<forall>k < 8. acc s' p k = 0))"
    and restart: "inv s \<Longrightarrow> ok (op 4 0 0 s) (\<lambda>(_, s'). inv s' \<and> wpos s' = 0 \<and>
      (\<forall>p < 16. \<forall>k < 8. acc s' p k = acc s p k))"
    and tile_length: "inv s \<Longrightarrow> length (tile s) = 64"
    and store: "inv s \<Longrightarrow> wpos s < 63 \<Longrightarrow> ok (op 5 x y s) (\<lambda>(_, s'). inv s' \<and> wpos s' = wpos s + 2 \<and>
      tile s' = (tile s)[wpos s := x, wpos s + 1 := y] \<and> (\<forall>p < 16. \<forall>k < 8. acc s' p k = acc s p k))"
    and accumulate: "inv s \<Longrightarrow> i < 8 \<Longrightarrow> length ws = 9 \<Longrightarrow>
      ok (do { (_, s) \<leftarrow> op 4 0 0 s; stream op (word_of_nat i) (ws @ [0, 0, 0]) s })
        (\<lambda>s'. inv s' \<and> tile s' = tile s \<and> (\<forall>p < 16. \<forall>k < 8. acc s' p k =
          (if k = i then acc s p k + word_of_int (window_sum (tile s) ws p) else acc s p k)))"
    and result: "inv s \<Longrightarrow> p < 16 \<Longrightarrow> k < 8 \<Longrightarrow> ok (op 2 (word_of_nat p) (word_of_nat k) s)
      (\<lambda>(r, s'). r = acc s p k \<and> inv s' \<and> (\<forall>p < 16. \<forall>k < 8. acc s' p k = acc s p k))"

section \<open>The unit provides it\<close>

lemma tap_window: "u < 9 \<Longrightarrow> p < 16 \<Longrightarrow> tap u + pe_offset p = 6 * (p div 4 + u div 3) + (p mod 4 + u mod 3)"
proof -
  assume "u < 9"
  have "map tap [0..<9] = map (\<lambda>u. 6 * (u div 3) + u mod 3) [0..<9]"
    by (simp add: upt_rec tap_def)
  with \<open>u < 9\<close> have "tap u = 6 * (u div 3) + u mod 3"
    by (simp add: map_eq_conv)
  then show ?thesis by (simp add: pe_offset_def)
qed

lemma window_sum_taps:
  assumes "p < 16" and "length ws = 9"
  shows "(\<Sum>u<9. tap_product t (ws @ zs) p u) = window_sum t ws p"
  unfolding window_sum_def tap_product_def using assms
  by (intro sum.cong) (auto simp: tap_window nth_append)

lemma stream_feed: "cfu_wf s \<Longrightarrow> stream (cfu_op 0) b ws s = Some (feed b ws s)"
  by (induction ws arbitrary: s) (simp_all add: cfu_op_accept accept_wf)

lemma quiet_hold:
  assumes "quiet s" and "ucast f \<noteq> (1 :: 3 word)" and "ucast f \<noteq> (3 :: 3 word)"
  shows "quiet (accept f a b s)"
  using assms op_hold [of s _ f a b] by (simp add: quiet_def accept_wf)

lemma select_nat: "k < 8 \<Longrightarrow> unat (ucast (word_of_nat k :: i32) :: 3 word) = k"
  by (simp add: unsigned_ucast_eq unat_of_nat take_bit_nat_eq_self take_bit_nat_less_self_iff)

lemma feed_tile:
  assumes "quiet s" and "i < 8" and "length ws = 9"
  defines "t \<equiv> feed (word_of_nat i) (ws @ [0, 0, 0]) (accept 4 0 0 s)"
  shows "quiet t" and "tile_mem t = tile_mem s"
    and "p < 16 \<Longrightarrow> k < 8 \<Longrightarrow> acc_of t p k =
      (if k = i then acc_of s p k + word_of_int (window_sum (tile_mem s) ws p) else acc_of s p k)"
proof -
  let ?r = "accept 4 0 0 s"
  have wf: "cfu_wf s" using assms(1) by (simp add: quiet_def)
  have r: "quiet ?r" "ctr ?r = 0" "tile_mem_w ?r = 0"
    using assms(1) by (simp_all add: quiet_hold op_simps)
  have tile: "tile_mem ?r = tile_mem s" by (simp add: op_restart)
  have all: "take 12 (ws @ [0, 0, 0]) = ws @ [0, 0, 0]"
    using assms(3) by simp
  note f = feed_pipeline [OF r, of _ 12 "ws @ [0, 0, 0]" "word_of_nat i", unfolded all tile, folded t_def]
  have zero: "tap_product (tile_mem s) (ws @ [0, 0, 0]) p u = 0" if "u \<in> {9, 10}" for p u
    using that assms(3) by (auto simp: tap_product_def nth_append dot4_zero)
  have l: "12 \<le> length (ws @ [0, 0, 0 :: i32])" using assms(3) by simp
  show "quiet t"
    using f [of 0, OF _ order_refl l] f [OF _ order_refl l] zero by (simp add: quiet_def)
  show "tile_mem t = tile_mem s"
    using f [of 0, OF _ order_refl l] by simp
  show "acc_of t p k =
      (if k = i then acc_of s p k + word_of_int (window_sum (tile_mem s) ws p) else acc_of s p k)"
    if "p < 16" "k < 8"
    using f [OF that(1) order_refl l] that assms(2) window_sum_taps [OF that(1) assms(3), of "tile_mem s" "[0, 0, 0]"]
      op_hold(1) [OF wf that(1), of 4 0 0 k]
    by (auto simp: select_nat)
qed

interpretation unit: tile_engine "cfu_op 0" quiet tile_mem "\<lambda>s. unat (mem_ctr s)" acc_of
proof
  fix s :: cfu and x y
  assume q: "quiet s"
  then have wf: "cfu_wf s" by (simp add: quiet_def)
  show "length (tile_mem s) = 64" using wf by (simp add: cfu_wf_def)
  show "ok (cfu_op 0 3 0 0 s) (\<lambda>(_, s'). quiet s' \<and> (\<forall>p < 16. \<forall>k < 8. acc_of s' p k = 0))"
    using q op_reset [OF wf, where a = 0 and b = 0]
    by (simp add: cfu_op_accept [OF wf] ok_simps quiet_def accept_wf)
  show "ok (cfu_op 0 4 0 0 s) (\<lambda>(_, s'). quiet s' \<and> unat (mem_ctr s') = 0 \<and>
      (\<forall>p < 16. \<forall>k < 8. acc_of s' p k = acc_of s p k))"
    using q op_hold [OF wf] by (simp add: cfu_op_accept [OF wf] ok_simps quiet_hold op_restart)
  show "ok (cfu_op 0 5 x y s) (\<lambda>(_, s'). quiet s' \<and> unat (mem_ctr s') = unat (mem_ctr s) + 2 \<and>
      tile_mem s' = (tile_mem s)[unat (mem_ctr s) := x, unat (mem_ctr s) + 1 := y] \<and>
      (\<forall>p < 16. \<forall>k < 8. acc_of s' p k = acc_of s p k))" if "unat (mem_ctr s) < 63"
  proof -
    have "unat (mem_ctr s + 2) = unat (mem_ctr s) + 2"
      using that by (subst unat_add_lem [THEN iffD1]) simp_all
    then show ?thesis
      using q op_hold [OF wf] by (simp add: cfu_op_accept [OF wf] ok_simps quiet_hold op_write)
  qed
  show "ok (do { (_, s) \<leftarrow> cfu_op 0 4 0 0 s; stream (cfu_op 0) (word_of_nat i) (ws @ [0, 0, 0]) s })
      (\<lambda>s'. quiet s' \<and> tile_mem s' = tile_mem s \<and> (\<forall>p < 16. \<forall>k < 8. acc_of s' p k =
        (if k = i then acc_of s p k + word_of_int (window_sum (tile_mem s) ws p) else acc_of s p k)))"
    if "i < 8" "length ws = 9" for i ws
    using feed_tile [OF q that] by (simp add: cfu_op_accept [OF wf] stream_feed accept_wf [OF wf] ok_simps)
  show "ok (cfu_op 0 2 (word_of_nat p) (word_of_nat k) s)
      (\<lambda>(r, s'). r = acc_of s p k \<and> quiet s' \<and> (\<forall>p < 16. \<forall>k < 8. acc_of s' p k = acc_of s p k))"
    if "p < 16" "k < 8" for p k
    using that q op_hold [OF wf] op_read(1) [OF wf that(1), of "word_of_nat k"]
    by (simp add: cfu_op_accept [OF wf] ok_simps quiet_hold select_nat)
qed

section \<open>Properties\<close>

text \<open>
  C4. A restart, nine weight words and three flushing zeros add, in every PE, the products of
  its window of the input tile to the selected accumulator, exactly once, and leave the pipelines
  empty and the other accumulators as they were.
\<close>

theorem weights_accumulate:
  assumes "quiet s" and "i < 8" and "length ws = 9"
  shows "\<exists>s'. do { (_, s) \<leftarrow> cfu_op 0 4 0 0 s; stream (cfu_op 0) (word_of_nat i) (ws @ [0, 0, 0]) s } = Some s' \<and>
    quiet s' \<and> tile_mem s' = tile_mem s \<and> (\<forall>p < 16. \<forall>k < 8. acc_of s' p k =
      (if k = i then acc_of s p k + word_of_int (window_sum (tile_mem s) ws p) else acc_of s p k))"
  using unit.accumulate [OF assms] by (simp add: ok_iff)

theorem weights_accumulate_witness:
  "\<exists>s'. do { (_, s) \<leftarrow> cfu_op 0 4 0 0 cfu_init; stream (cfu_op 0) 3 (replicate 9 1 @ [0, 0, 0]) s } = Some s' \<and>
    quiet s' \<and> acc_of s' 5 3 = acc_of cfu_init 5 3 + word_of_int (window_sum (tile_mem cfu_init) (replicate 9 1) 5)"
  using weights_accumulate [OF quiet_init, of 3 "replicate 9 1"] by fastforce

end
