(* ===== verification/Conv_Accel.thy ===== *)
theory Conv_Accel
  imports Conv_Ref Tile_Engine
begin

text \<open>
  The accelerated kernel of \<open>proj/accel/.../integer_ops/conv.h\<close>. It computes blocks of 4 by 4
  output positions and \<open>L = 8\<close> output channels: it fills the scratchpad of the function unit with
  a tile of 6 by 6 activation words, sends the nine weight words of every channel, and reads the
  128 accumulators back. \<open>op\<close> stands for the macro \<open>cfu_op0\<close>, whose target (the instruction or
  an emulation in software) a build chooses; the state of the kernel is that of the function
  unit and the output array. The lemmas in the context of \<open>tile_engine\<close> hold for every unit that
  provides the interface; \<open>accel_value\<close> applies them to the unit of \<open>cfu.v\<close>.
\<close>

section \<open>The kernel\<close>

definition L :: int where
  "L = 8"

text \<open>
  One word of the tile: \<open>a = 0x80808080; in_image = ...; if (in_image) a = ...\<close>.
\<close>

definition tile_word :: "(int \<Rightarrow> int \<Rightarrow> i32 option) \<Rightarrow> int \<Rightarrow> int \<Rightarrow> int \<Rightarrow> int \<Rightarrow> i32 option" where
  "tile_word load height width y x = (
     let in_image = (0 \<le> x \<and> x < width \<and> 0 \<le> y \<and> y < height)
     in if in_image then load y x else Some 0x80808080)"

definition accel_fill_tile ::
  "(7 word \<Rightarrow> i32 \<Rightarrow> i32 \<Rightarrow> 'c \<Rightarrow> (i32 \<times> 'c) option) \<Rightarrow> (int \<Rightarrow> int \<Rightarrow> i32 option) \<Rightarrow>
   int \<Rightarrow> int \<Rightarrow> int \<Rightarrow> int \<Rightarrow> 'c \<Rightarrow> 'c option" where
  "accel_fill_tile op load height width in_y in_x =
     cfor 0 6 1 (\<lambda>id s. do {
       a \<leftarrow> tile_word load height width (in_y + id) in_x;
       b \<leftarrow> tile_word load height width (in_y + id) (in_x + 1);
       (_, s) \<leftarrow> op 5 a b s;
       a \<leftarrow> tile_word load height width (in_y + id) (in_x + 2);
       b \<leftarrow> tile_word load height width (in_y + id) (in_x + 3);
       (_, s) \<leftarrow> op 5 a b s;
       a \<leftarrow> tile_word load height width (in_y + id) (in_x + 4);
       b \<leftarrow> tile_word load height width (in_y + id) (in_x + 5);
       (_, s) \<leftarrow> op 5 a b s;
       Some s })"

text \<open>\<open>load k y x\<close> reads the weight word of channel \<open>k\<close>; \<open>oc\<close> is the first channel of the block.\<close>

definition accel_send_weights ::
  "(7 word \<Rightarrow> i32 \<Rightarrow> i32 \<Rightarrow> 'c \<Rightarrow> (i32 \<times> 'c) option) \<Rightarrow> (int \<Rightarrow> int \<Rightarrow> int \<Rightarrow> i32 option) \<Rightarrow>
   int \<Rightarrow> 'c \<Rightarrow> 'c option" where
  "accel_send_weights op load oc =
     cfor 0 L 1 (\<lambda>i s. do {
       (_, s) \<leftarrow> op 4 0 0 s;
       a \<leftarrow> load (oc + i) 0 0;
       (_, s) \<leftarrow> op 1 a (word_of_int i) s;
       a \<leftarrow> load (oc + i) 0 1;
       (_, s) \<leftarrow> op 1 a (word_of_int i) s;
       a \<leftarrow> load (oc + i) 0 2;
       (_, s) \<leftarrow> op 1 a (word_of_int i) s;
       a \<leftarrow> load (oc + i) 1 0;
       (_, s) \<leftarrow> op 1 a (word_of_int i) s;
       a \<leftarrow> load (oc + i) 1 1;
       (_, s) \<leftarrow> op 1 a (word_of_int i) s;
       a \<leftarrow> load (oc + i) 1 2;
       (_, s) \<leftarrow> op 1 a (word_of_int i) s;
       a \<leftarrow> load (oc + i) 2 0;
       (_, s) \<leftarrow> op 1 a (word_of_int i) s;
       a \<leftarrow> load (oc + i) 2 1;
       (_, s) \<leftarrow> op 1 a (word_of_int i) s;
       a \<leftarrow> load (oc + i) 2 2;
       (_, s) \<leftarrow> op 1 a (word_of_int i) s;
       (_, s) \<leftarrow> op 1 0 (word_of_int i) s;
       (_, s) \<leftarrow> op 1 0 (word_of_int i) s;
       (_, s) \<leftarrow> op 1 0 (word_of_int i) s;
       Some s })"

text \<open>
  The output loops; \<open>id\<close> counts the positions of the block. \<open>qc k\<close> is the channel whose
  multiplier and shift scale channel \<open>oc + k\<close>.
\<close>

definition accel_store ::
  "(7 word \<Rightarrow> i32 \<Rightarrow> i32 \<Rightarrow> 'c \<Rightarrow> (i32 \<times> 'c) option) \<Rightarrow> bool \<Rightarrow> (i8, i32) conv_args \<Rightarrow> (int \<Rightarrow> int) \<Rightarrow>
   int \<Rightarrow> int \<Rightarrow> int \<Rightarrow> 'c \<times> i8 list \<Rightarrow> ('c \<times> i8 list) option" where
  "accel_store op nd a qc oc out_y out_x = (\<lambda>(s, output_data). do {
     ((_, s), output_data) \<leftarrow> cfor 0 4 1 (\<lambda>i. cfor 0 4 1 (\<lambda>j ((id, s), output_data). do {
       ((id, s), output_data) \<leftarrow> cfor 0 L 1 (\<lambda>k ((id, s), output_data). do {
         (acc, s) \<leftarrow> op 2 (word_of_int id) (word_of_int k) s;
         acc \<leftarrow> add_bias a (oc + k) acc;
         v \<leftarrow> requantize a (- 128) (qc k) acc;
         output_data \<leftarrow> store_output nd a 0 (out_y + i) (out_x + j) (oc + k) v output_data;
         Some ((id, s), output_data) }) ((id, s), output_data);
       Some ((id + 1, s), output_data) })) ((0, s), output_data);
     Some (s, output_data) })"

text \<open>The branch for a single input channel, with its literal padding and image size.\<close>

definition accel_depth1 ::
  "(7 word \<Rightarrow> i32 \<Rightarrow> i32 \<Rightarrow> 'c \<Rightarrow> (i32 \<times> 'c) option) \<Rightarrow> bool \<Rightarrow> (i8, i32) conv_args \<Rightarrow>
   int \<Rightarrow> int \<Rightarrow> int \<Rightarrow> 'c \<times> i8 list \<Rightarrow> ('c \<times> i8 list) option" where
  "accel_depth1 op nd a output_depth output_height output_width =
     cfor 0 output_depth L (\<lambda>out_channel.
       cfor 0 output_height 4 (\<lambda>out_y.
         cfor 0 output_width 4 (\<lambda>out_x (s, output_data). do {
           let in_y = out_y - 1;
           let in_x = out_x - 1;
           (_, s) \<leftarrow> op 3 0 0 s;
           (_, s) \<leftarrow> op 4 0 0 s;
           s \<leftarrow> accel_fill_tile op (\<lambda>y x. do {
             i \<leftarrow> Offset nd (input_shape a) 0 y x 0;
             v \<leftarrow> rd (input_data a) i;
             Some (ucast v) }) 28 28 in_y in_x s;
           s \<leftarrow> accel_send_weights op (\<lambda>k y x. do {
             i \<leftarrow> Offset nd (filter_shape a) k y x 0;
             v \<leftarrow> rd (filter_data a) i;
             Some (ucast v) }) out_channel s;
           accel_store op nd a (\<lambda>k. out_channel) out_channel out_y out_x (s, output_data) })))"

text \<open>The branch for the other depths, four input channels at a time.\<close>

definition accel_simd ::
  "(7 word \<Rightarrow> i32 \<Rightarrow> i32 \<Rightarrow> 'c \<Rightarrow> (i32 \<times> 'c) option) \<Rightarrow> bool \<Rightarrow> (i8, i32) conv_args \<Rightarrow>
   int \<Rightarrow> int \<Rightarrow> int \<Rightarrow> int \<Rightarrow> int \<Rightarrow> int \<Rightarrow> int \<Rightarrow> int \<Rightarrow> 'c \<times> i8 list \<Rightarrow> ('c \<times> i8 list) option" where
  "accel_simd op nd a pad_w pad_h input_depth input_height input_width output_depth output_height output_width =
     cfor 0 output_depth L (\<lambda>out_channel.
       cfor 0 output_height 4 (\<lambda>out_y.
         cfor 0 output_width 4 (\<lambda>out_x (s, output_data). do {
           let in_y = out_y - pad_h;
           let in_x = out_x - pad_w;
           (_, s) \<leftarrow> op 3 0 0 s;
           s \<leftarrow> cfor 0 input_depth 4 (\<lambda>in_channel s. do {
             (_, s) \<leftarrow> op 4 0 0 s;
             s \<leftarrow> accel_fill_tile op (\<lambda>y x. do {
               i \<leftarrow> Offset nd (input_shape a) 0 y x in_channel;
               load32 (input_data a) i }) input_height input_width in_y in_x s;
             accel_send_weights op (\<lambda>k y x. do {
               i \<leftarrow> Offset nd (filter_shape a) k y x in_channel;
               load32 (filter_data a) i }) out_channel s }) s;
           accel_store op nd a (\<lambda>k. out_channel + k) out_channel out_y out_x (s, output_data) })))"

definition accel_ConvPerChannel ::
  "(7 word \<Rightarrow> i32 \<Rightarrow> i32 \<Rightarrow> 'c \<Rightarrow> (i32 \<times> 'c) option) \<Rightarrow> bool \<Rightarrow> (i8, i32) conv_args \<Rightarrow>
   'c \<times> i8 list \<Rightarrow> ('c \<times> i8 list) option" where
  "accel_ConvPerChannel op nd a st = do {
     let pad_w = sint (pad_width (padding_values (params a)));
     let pad_h = sint (pad_height (padding_values (params a)));
     conv_checks nd a;
     input_depth \<leftarrow> MatchingDim nd (input_shape a) 3 (filter_shape a) 3;
     output_depth \<leftarrow> MatchingDim nd (filter_shape a) 0 (output_shape a) 3;
     bias_check nd a output_depth;
     input_height \<leftarrow> Dims nd (input_shape a) 1;
     input_width \<leftarrow> Dims nd (input_shape a) 2;
     output_height \<leftarrow> Dims nd (output_shape a) 1;
     output_width \<leftarrow> Dims nd (output_shape a) 2;
     if input_depth = 1
     then accel_depth1 op nd a output_depth output_height output_width st
     else accel_simd op nd a pad_w pad_h input_depth input_height input_width
       output_depth output_height output_width st }"

text \<open>The 16-bit kernel of this file is the text of the one in the baseline project's \<open>conv.h\<close>.\<close>

definition accel_ConvPerChannel16 ::
  "('w word \<Rightarrow> i32 \<Rightarrow> int \<Rightarrow> i32 option) \<Rightarrow> bool \<Rightarrow> (i16, 'w::len word) conv_args \<Rightarrow> i16 list \<Rightarrow> i16 list option" where
  "accel_ConvPerChannel16 = baseline_ConvPerChannel16"

section \<open>Words of the tile\<close>

lemma byte_padding: "sint (byte 0 0x80808080) = - 128" "sint (byte 1 0x80808080) = - 128"
  "sint (byte 2 0x80808080) = - 128" "sint (byte 3 0x80808080) = - 128"
  by code_simp+

lemma dot4_padding: "dot4 0x80808080 w = 0"
  by (simp add: dot4_def byte_padding del: One_nat_def)

lemma ucast_pack4: "ucast b = pack4 b 0 0 0"
  by (simp add: pack4_def)

lemma dot4_single: "dot4 (ucast (b :: i8)) (ucast (w :: i8)) = sint w * (sint b + 128)"
  by (simp add: ucast_pack4 dot4_pack4)

section \<open>Sequences of instructions\<close>

text \<open>The words of a tile, row by row.\<close>

definition tile_at :: "(int \<Rightarrow> int \<Rightarrow> i32) \<Rightarrow> int \<Rightarrow> int \<Rightarrow> nat \<Rightarrow> i32" where
  "tile_at px in_y in_x q = px (in_y + int (q div 6)) (in_x + int (q mod 6))"

lemma tile_index:
  fixes a b c d :: nat
  shows "a \<le> 3 \<Longrightarrow> b \<le> 2 \<Longrightarrow> c \<le> 3 \<Longrightarrow> d \<le> 2 \<Longrightarrow> 6 * (a + b) + (c + d) < 36"
  by simp

context tile_engine
begin

text \<open>The invariant and the accumulators, as a function, are all the kernel needs to know.\<close>

definition holds :: "(nat \<Rightarrow> nat \<Rightarrow> i32) \<Rightarrow> 'c \<Rightarrow> bool" where
  "holds A s \<longleftrightarrow> inv s \<and> (\<forall>p < 16. \<forall>k < 8. acc s p k = A p k)"

lemma ok_reset: "inv s \<Longrightarrow> ok (op 3 0 0 s) (\<lambda>(_, s'). holds (\<lambda>_ _. 0) s')"
  by (rule ok_mono [OF reset]) (auto simp: holds_def)

lemma ok_restart: "holds A s \<Longrightarrow> ok (op 4 0 0 s) (\<lambda>(_, s'). holds A s' \<and> wpos s' = 0)"
  by (rule ok_mono [OF restart]) (auto simp: holds_def)

lemma ok_store:
  assumes "holds A s" and "wpos s < 63"
  shows "ok (op 5 x y s) (\<lambda>(_, s'). holds A s' \<and> wpos s' = wpos s + 2 \<and>
    tile s' = (tile s)[wpos s := x, wpos s + 1 := y])"
  using assms by (intro ok_mono [OF store]) (auto simp: holds_def)

lemma ok_result:
  assumes "holds A s" and "p < 16" and "k < 8"
  shows "ok (op 2 (word_of_nat p) (word_of_nat k) s) (\<lambda>(r, s'). r = A p k \<and> holds A s')"
  using assms by (intro ok_mono [OF result]) (auto simp: holds_def)

text \<open>Filling the tile: after \<open>n\<close> words the first \<open>n\<close> are in place.\<close>

definition filled :: "(nat \<Rightarrow> i32) \<Rightarrow> (nat \<Rightarrow> nat \<Rightarrow> i32) \<Rightarrow> nat \<Rightarrow> 'c \<Rightarrow> bool" where
  "filled T A n s \<longleftrightarrow> holds A s \<and> wpos s = n \<and> (\<forall>q < n. tile s ! q = T q)"

lemma ok_store_filled:
  assumes "filled T A n s" and "n < 36"
  shows "ok (op 5 (T n) (T (n + 1)) s) (\<lambda>(_, s'). filled T A (n + 2) s')"
proof -
  have "length (tile s) = 64" and "wpos s = n"
    using assms tile_length by (auto simp: filled_def holds_def)
  with assms show ?thesis
    by (intro ok_mono [OF ok_store [where A = A]]) (auto simp: filled_def nth_list_update less_Suc_eq)
qed

lemma ok_fill_tile:
  assumes "holds A s" and "wpos s = 0"
    and word: "\<And>r c. 0 \<le> r \<Longrightarrow> r < 6 \<Longrightarrow> 0 \<le> c \<Longrightarrow> c < 6 \<Longrightarrow>
      tile_word load height width (in_y + r) (in_x + c) = Some (px (in_y + r) (in_x + c))"
  shows "ok (accel_fill_tile op load height width in_y in_x s) (filled (tile_at px in_y in_x) A 36)"
  unfolding accel_fill_tile_def
proof (rule ok_cfor [where I = "\<lambda>i. filled (tile_at px in_y in_x) A (nat (6 * i))"])
  fix r s
  assume r: "0 \<le> r" "r < 6" and f: "filled (tile_at px in_y in_x) A (nat (6 * r)) s"
  define n where "n = nat (6 * r)"
  have T: "px (in_y + r) (in_x + int c) = tile_at px in_y in_x (n + c)" if "c < 6" for c
  proof -
    have "(n + c) div 6 = nat r" "(n + c) mod 6 = c"
      using r that by (simp_all add: n_def nat_mult_distrib)
    then show ?thesis using r by (simp add: tile_at_def)
  qed
  have w: "tile_word load height width (in_y + r) in_x = Some (tile_at px in_y in_x n)"
    "tile_word load height width (in_y + r) (in_x + 1) = Some (tile_at px in_y in_x (n + 1))"
    "tile_word load height width (in_y + r) (in_x + 2) = Some (tile_at px in_y in_x (n + 2))"
    "tile_word load height width (in_y + r) (in_x + 3) = Some (tile_at px in_y in_x (n + 3))"
    "tile_word load height width (in_y + r) (in_x + 4) = Some (tile_at px in_y in_x (n + 4))"
    "tile_word load height width (in_y + r) (in_x + 5) = Some (tile_at px in_y in_x (n + 5))"
    using word [OF r, of 0] word [OF r, of 1] word [OF r, of 2] word [OF r, of 3] word [OF r, of 4]
      word [OF r, of 5] T [of 0] T [of 1] T [of 2] T [of 3] T [of 4] T [of 5] by simp_all
  have n: "n + 4 < 36" using r by (simp add: n_def)
  have last: "nat (6 * (r + 1)) = n + 2 + 2 + 2" using r by (simp add: n_def)
  show "ok (do {
       a \<leftarrow> tile_word load height width (in_y + r) in_x;
       b \<leftarrow> tile_word load height width (in_y + r) (in_x + 1);
       (_, s) \<leftarrow> op 5 a b s;
       a \<leftarrow> tile_word load height width (in_y + r) (in_x + 2);
       b \<leftarrow> tile_word load height width (in_y + r) (in_x + 3);
       (_, s) \<leftarrow> op 5 a b s;
       a \<leftarrow> tile_word load height width (in_y + r) (in_x + 4);
       b \<leftarrow> tile_word load height width (in_y + r) (in_x + 5);
       (_, s) \<leftarrow> op 5 a b s;
       Some s }) (filled (tile_at px in_y in_x) A (nat (6 * (r + 1))))"
    unfolding w last Option.bind.simps(2) ok_bind case_prod_unfold
  proof (rule ok_mono [OF ok_store_filled], rule f [folded n_def])
    show "n < 36" using n by simp
  next
    fix t assume "case t of (_, s') \<Rightarrow> filled (tile_at px in_y in_x) A (n + 2) s'"
    then have t: "filled (tile_at px in_y in_x) A (n + 2) (snd t)" by (simp add: case_prod_unfold)
    have "n + 2 < 36" using n by simp
    from ok_store_filled [OF t this]
    show "ok (op 5 (tile_at px in_y in_x (n + 2)) (tile_at px in_y in_x (n + 3)) (snd t))
      (\<lambda>t. ok (op 5 (tile_at px in_y in_x (n + 4)) (tile_at px in_y in_x (n + 5)) (snd t))
        (\<lambda>t. ok (Some (snd t)) (filled (tile_at px in_y in_x) A (n + 2 + 2 + 2))))"
      unfolding add.assoc numeral_plus_numeral semiring_norm
    proof (rule ok_mono)
      fix t assume "case t of (_, s') \<Rightarrow> filled (tile_at px in_y in_x) A (n + 4) s'"
      then have t: "filled (tile_at px in_y in_x) A (n + 4) (snd t)" by (simp add: case_prod_unfold)
      from ok_store_filled [OF t n]
      show "ok (op 5 (tile_at px in_y in_x (n + 4)) (tile_at px in_y in_x (n + 5)) (snd t))
          (\<lambda>t. ok (Some (snd t)) (filled (tile_at px in_y in_x) A (n + 6)))"
        by (simp add: ok_Some case_prod_unfold add.commute)
    qed
  qed
qed (use assms(1,2) in \<open>auto simp: filled_def\<close>)

text \<open>The tile is in place and is not going to be rewritten.\<close>

definition loaded :: "(nat \<Rightarrow> i32) \<Rightarrow> (nat \<Rightarrow> nat \<Rightarrow> i32) \<Rightarrow> 'c \<Rightarrow> bool" where
  "loaded T A s \<longleftrightarrow> holds A s \<and> (\<forall>q < 36. tile s ! q = T q)"

lemma filled_loaded: "filled T A 36 s \<Longrightarrow> loaded T A s"
  by (simp add: filled_def loaded_def)

definition window :: "(nat \<Rightarrow> i32) \<Rightarrow> (nat \<Rightarrow> nat \<Rightarrow> i32) \<Rightarrow> nat \<Rightarrow> int" where
  "window T w p = (\<Sum>u<9. dot4 (T (6 * (p div 4 + u div 3) + (p mod 4 + u mod 3))) (w (u div 3) (u mod 3)))"

lemma ok_accumulate:
  assumes "loaded T A s" and "i < 8" and "length ws = 9" and "\<And>u. u < 9 \<Longrightarrow> ws ! u = w (u div 3) (u mod 3)"
  shows "ok (do { (_, s) \<leftarrow> op 4 0 0 s; stream op (word_of_nat i) (ws @ [0, 0, 0]) s })
    (loaded T (\<lambda>p k. if k = i then A p k + word_of_int (window T w p) else A p k))"
proof -
  have s: "inv s" "\<forall>p < 16. \<forall>k < 8. acc s p k = A p k" "\<forall>q < 36. tile s ! q = T q"
    using assms(1) by (simp_all add: loaded_def holds_def)
  have "window_sum (tile s) ws p = window T w p" if "p < 16" for p
    unfolding window_sum_def window_def
  proof (rule sum.cong)
    fix u :: nat assume "u \<in> {..<9}"
    then have "u < 9" "u div 3 \<le> 2" "u mod 3 \<le> 2" "p div 4 \<le> 3" "p mod 4 \<le> 3"
      using that by auto
    moreover from this have "6 * (p div 4 + u div 3) + (p mod 4 + u mod 3) < 36"
      by (intro tile_index)
    ultimately show "dot4 (tile s ! (6 * (p div 4 + u div 3) + (p mod 4 + u mod 3))) (ws ! u) =
        dot4 (T (6 * (p div 4 + u div 3) + (p mod 4 + u mod 3))) (w (u div 3) (u mod 3))"
      using s(3) assms(4) by simp
  qed simp
  with s show ?thesis
    by (intro ok_mono [OF accumulate [OF s(1) assms(2,3)]]) (auto simp: loaded_def holds_def)
qed

lemma ok_send_weights:
  assumes "loaded T A s"
    and word: "\<And>k y x. k < 8 \<Longrightarrow> y < 3 \<Longrightarrow> x < 3 \<Longrightarrow> load (oc + int k) (int y) (int x) = Some (w k y x)"
  shows "ok (accel_send_weights op load oc s) (loaded T (\<lambda>p k. A p k + word_of_int (window T (w k) p)))"
  unfolding accel_send_weights_def
proof (rule ok_cfor [where I = "\<lambda>i. loaded T (\<lambda>p k. if int k < i then A p k + word_of_int (window T (w k) p) else A p k)"])
  fix i s
  assume i: "0 \<le> i" "i < L"
    and s: "loaded T (\<lambda>p k. if int k < i then A p k + word_of_int (window T (w k) p) else A p k) s"
  define k where "k = nat i"
  have k: "i = int k" "k < 8" using i by (simp_all add: k_def L_def)
  let ?ws = "[w k 0 0, w k 0 1, w k 0 2, w k 1 0, w k 1 1, w k 1 2, w k 2 0, w k 2 1, w k 2 2]"
  have nth: "?ws ! u = w k (u div 3) (u mod 3)" if "u < 9" for u
  proof -
    have "?ws = map (\<lambda>u. w k (u div 3) (u mod 3)) [0..<9]"
      by (simp add: upt_rec numeral_2_eq_2)
    then have "?ws ! u = map (\<lambda>u. w k (u div 3) (u mod 3)) [0..<9] ! u" by (rule arg_cong)
    with that show ?thesis by simp
  qed
  have loads: "load (oc + i) 0 0 = Some (w k 0 0)" "load (oc + i) 0 1 = Some (w k 0 1)"
    "load (oc + i) 0 2 = Some (w k 0 2)" "load (oc + i) 1 0 = Some (w k 1 0)"
    "load (oc + i) 1 1 = Some (w k 1 1)" "load (oc + i) 1 2 = Some (w k 1 2)"
    "load (oc + i) 2 0 = Some (w k 2 0)" "load (oc + i) 2 1 = Some (w k 2 1)"
    "load (oc + i) 2 2 = Some (w k 2 2)"
    using word [OF k(2), of 0 0] word [OF k(2), of 0 1] word [OF k(2), of 0 2] word [OF k(2), of 1 0]
      word [OF k(2), of 1 1] word [OF k(2), of 1 2] word [OF k(2), of 2 0] word [OF k(2), of 2 1]
      word [OF k(2), of 2 2] by (simp_all add: k(1) del: One_nat_def)
  have "ok (do { (_, s) \<leftarrow> op 4 0 0 s; stream op (word_of_nat k) (?ws @ [0, 0, 0]) s })
    (loaded T (\<lambda>p k'. if k' = k then (if int k' < i then A p k' + word_of_int (window T (w k') p) else A p k') +
        word_of_int (window T (w k) p)
      else if int k' < i then A p k' + word_of_int (window T (w k') p) else A p k'))"
    by (rule ok_accumulate [OF s k(2)]) (simp, rule nth)
  moreover have "(\<lambda>p k'. if k' = k then (if int k' < i then A p k' + word_of_int (window T (w k') p) else A p k') +
        word_of_int (window T (w k) p)
      else if int k' < i then A p k' + word_of_int (window T (w k') p) else A p k') =
    (\<lambda>p k'. if int k' < i + 1 then A p k' + word_of_int (window T (w k') p) else A p k')"
    by (auto simp: k(1) fun_eq_iff)
  ultimately show "ok (do {
       (_, s) \<leftarrow> op 4 0 0 s;
       a \<leftarrow> load (oc + i) 0 0;
       (_, s) \<leftarrow> op 1 a (word_of_int i) s;
       a \<leftarrow> load (oc + i) 0 1;
       (_, s) \<leftarrow> op 1 a (word_of_int i) s;
       a \<leftarrow> load (oc + i) 0 2;
       (_, s) \<leftarrow> op 1 a (word_of_int i) s;
       a \<leftarrow> load (oc + i) 1 0;
       (_, s) \<leftarrow> op 1 a (word_of_int i) s;
       a \<leftarrow> load (oc + i) 1 1;
       (_, s) \<leftarrow> op 1 a (word_of_int i) s;
       a \<leftarrow> load (oc + i) 1 2;
       (_, s) \<leftarrow> op 1 a (word_of_int i) s;
       a \<leftarrow> load (oc + i) 2 0;
       (_, s) \<leftarrow> op 1 a (word_of_int i) s;
       a \<leftarrow> load (oc + i) 2 1;
       (_, s) \<leftarrow> op 1 a (word_of_int i) s;
       a \<leftarrow> load (oc + i) 2 2;
       (_, s) \<leftarrow> op 1 a (word_of_int i) s;
       (_, s) \<leftarrow> op 1 0 (word_of_int i) s;
       (_, s) \<leftarrow> op 1 0 (word_of_int i) s;
       (_, s) \<leftarrow> op 1 0 (word_of_int i) s;
       Some s }) (loaded T (\<lambda>p k. if int k < i + 1 then A p k + word_of_int (window T (w k) p) else A p k))"
    unfolding loads Option.bind.simps(2) append.simps stream.simps
    by (simp only: k(1) of_int_of_nat_eq)
next
  fix i s
  assume "0 \<le> i" "L \<le> i" "loaded T (\<lambda>p k. if int k < i then A p k + word_of_int (window T (w k) p) else A p k) s"
  then show "loaded T (\<lambda>p k. A p k + word_of_int (window T (w k) p)) s"
    by (simp add: loaded_def holds_def L_def)
qed (use assms(1) in \<open>simp_all add: loaded_def holds_def L_def\<close>)

end

section \<open>Windows of the tile and the convolution\<close>

lemma sum_three: "(\<Sum>i\<in>{0..<3::int}. f i) = f 0 + f 1 + f 2"
proof -
  have "{0..<3::int} = {0, 1, 2}" by auto
  then show ?thesis by (simp add: add.assoc)
qed

text \<open>The terms of the channels from \<open>c0\<close> to \<open>c1\<close> only.\<close>

definition tap_part :: "(i8, i32) conv_args \<Rightarrow> int \<Rightarrow> int \<Rightarrow> int \<Rightarrow> int \<Rightarrow> int \<Rightarrow> int \<Rightarrow> int \<Rightarrow> int" where
  "tap_part a c0 c1 k fy fx y x =
     (if in_image a y x then (\<Sum>c\<in>{c0..<c1}. filter_at a k fy fx c * (input_at a 0 y x c + 128)) else 0)"

definition conv_part :: "(i8, i32) conv_args \<Rightarrow> int \<Rightarrow> int \<Rightarrow> int \<Rightarrow> int \<Rightarrow> int \<Rightarrow> int" where
  "conv_part a c0 c1 k y0 x0 =
     (\<Sum>fy\<in>{0..<3}. \<Sum>fx\<in>{0..<3}. tap_part a c0 c1 k fy fx (y0 + fy) (x0 + fx))"

lemma conv_part_empty: "conv_part a c c k y0 x0 = 0"
proof -
  have "tap_part a c c k fy fx y x = 0" for fy fx y x by (simp add: tap_part_def)
  then show ?thesis by (simp add: conv_part_def)
qed

lemma conv_part_split:
  "c0 \<le> c1 \<Longrightarrow> c1 \<le> c2 \<Longrightarrow> conv_part a c0 c2 k y0 x0 = conv_part a c0 c1 k y0 x0 + conv_part a c1 c2 k y0 x0"
proof -
  assume "c0 \<le> c1" "c1 \<le> c2"
  then have "tap_part a c0 c2 k fy fx y x = tap_part a c0 c1 k fy fx y x + tap_part a c1 c2 k fy fx y x" for fy fx y x
    by (simp add: tap_part_def sum_int_split [of c0 c1 c2])
  then show ?thesis by (simp add: conv_part_def sum.distrib)
qed

lemma conv_part_all:
  assumes "dim (filter_shape a) 1 = 3" and "dim (filter_shape a) 2 = 3"
  shows "conv_part a 0 (dim (input_shape a) 3) k y0 x0 = conv_sum_at a 128 1 1 0 k y0 x0"
  by (simp add: conv_part_def conv_sum_at_def tap_part_def tap_sum_def assms)

context tile_engine
begin

lemma window_conv:
  assumes "i < 4" and "j < 4"
    and dot: "\<And>y x fy fx. 0 \<le> fy \<Longrightarrow> fy < 3 \<Longrightarrow> 0 \<le> fx \<Longrightarrow> fx < 3 \<Longrightarrow>
      dot4 (px y x) (w (nat fy) (nat fx)) = tap_part a c0 c1 k fy fx y x"
  shows "window (tile_at px in_y in_x) w (4 * i + j) = conv_part a c0 c1 k (in_y + int i) (in_x + int j)"
proof -
  have T: "tile_at px in_y in_x (6 * (i + v) + (j + u)) = px (in_y + int i + int v) (in_x + int j + int u)"
    if "v < 3" "u < 3" for v u
  proof -
    have "(6 * (i + v) + (j + u)) div 6 = i + v" "(6 * (i + v) + (j + u)) mod 6 = j + u"
      using assms(2) that by (simp_all only: div_mult_self4 mod_mult_self4, simp_all)
    then show ?thesis by (simp add: tile_at_def add.assoc)
  qed
  have "window (tile_at px in_y in_x) w (4 * i + j) =
      (\<Sum>u<9. dot4 (px (in_y + int i + int (u div 3)) (in_x + int j + int (u mod 3))) (w (u div 3) (u mod 3)))"
    unfolding window_def
  proof (rule sum.cong)
    fix u :: nat assume "u \<in> {..<9}"
    then have "u div 3 < 3" "u mod 3 < 3" by auto
    moreover have "(4 * i + j) div 4 = i" "(4 * i + j) mod 4 = j" using assms(2) by simp_all
    ultimately show "dot4 (tile_at px in_y in_x (6 * ((4 * i + j) div 4 + u div 3) + ((4 * i + j) mod 4 + u mod 3)))
        (w (u div 3) (u mod 3)) =
      dot4 (px (in_y + int i + int (u div 3)) (in_x + int j + int (u mod 3))) (w (u div 3) (u mod 3))"
      by (simp only: T)
  qed simp
  also have "\<dots> = (\<Sum>u<9. tap_part a c0 c1 k (int (u div 3)) (int (u mod 3))
      (in_y + int i + int (u div 3)) (in_x + int j + int (u mod 3)))"
  proof (rule sum.cong)
    fix u :: nat assume "u \<in> {..<9}"
    then have "int (u div 3) < 3" "int (u mod 3) < 3" by auto
    then show "dot4 (px (in_y + int i + int (u div 3)) (in_x + int j + int (u mod 3))) (w (u div 3) (u mod 3)) =
      tap_part a c0 c1 k (int (u div 3)) (int (u mod 3)) (in_y + int i + int (u div 3)) (in_x + int j + int (u mod 3))"
      using dot [of "int (u div 3)" "int (u mod 3)"] by simp
  qed simp
  also have "\<dots> = conv_part a c0 c1 k (in_y + int i) (in_x + int j)"
  proof -
    have "{..<9::nat} = {0, 1, 2, 3, 4, 5, 6, 7, 8}" by auto
    then show ?thesis by (simp add: conv_part_def sum_three add.assoc)
  qed
  finally show ?thesis .
qed

end

section \<open>Storing a block\<close>

text \<open>The output, with the multiplier and the shift of channel \<open>Q k\<close>.\<close>

definition accel_out :: "(i8, i32) conv_args \<Rightarrow> (int \<Rightarrow> int) \<Rightarrow> int \<Rightarrow> int \<Rightarrow> int \<Rightarrow> int \<Rightarrow> i8" where
  "accel_out a Q b y x k =
     the (requantize a (- 128) (Q k) (word_of_int (conv_sum a 128 b y x k + bias_at a k)))"

definition steps :: "int \<Rightarrow> int \<Rightarrow> int set" where
  "steps n k = {i. 0 \<le> i \<and> i < n \<and> k dvd (i - 0)}"

definition block :: "(i8, i32) conv_args \<Rightarrow> int \<Rightarrow> int \<Rightarrow> int \<Rightarrow> int set" where
  "block a oc oy ox = (\<Union>i\<in>steps 4 1. \<Union>j\<in>steps 4 1. \<Union>k\<in>steps 8 1.
     {pos4 (output_shape a) 0 (oy + i) (ox + j) (oc + k)})"

text \<open>The loops over the blocks write the whole tensor.\<close>

definition blocks :: "(i8, i32) conv_args \<Rightarrow> int set" where
  "blocks a = (\<Union>oc\<in>steps (dim (output_shape a) 3) 8. \<Union>oy\<in>steps (dim (output_shape a) 1) 4.
     \<Union>ox\<in>steps (dim (output_shape a) 2) 4. block a oc oy ox)"

context tile_engine
begin

lemma ok_block_store:
  assumes "conv_ok a" and "int (length zs) = elems (output_shape a)"
    and inside: "\<And>i j k. 0 \<le> i \<Longrightarrow> i < 4 \<Longrightarrow> 0 \<le> j \<Longrightarrow> j < 4 \<Longrightarrow> 0 \<le> k \<Longrightarrow> k < 8 \<Longrightarrow>
      index4 (output_shape a) 0 (oy + i) (ox + j) (oc + k) \<and> qc k = Q (oc + k) \<and>
      0 \<le> Q (oc + k) \<and> Q (oc + k) < dim (output_shape a) 3"
    and "holds (\<lambda>p k. word_of_int (conv_sum a 128 0 (oy + int (p div 4)) (ox + int (p mod 4)) (oc + int k))) s"
  shows "ok (accel_store op nd a qc oc oy ox (s, zs))
    (\<lambda>(s', ys). inv s' \<and> wrote (block a oc oy ox) (at_output a (accel_out a Q)) zs ys)"
proof -
  define A where "A = (\<lambda>p k. word_of_int (conv_sum a 128 0 (oy + int (p div 4)) (ox + int (p mod 4)) (oc + int k)) :: i32)"
  let ?V = "at_output a (accel_out a Q)"
  have channel: "ok (do {
      (acc, s) \<leftarrow> op 2 (word_of_int id) (word_of_int k) s;
      acc \<leftarrow> add_bias a (oc + k) acc;
      v \<leftarrow> requantize a (- 128) (qc k) acc;
      ys \<leftarrow> store_output nd a 0 (oy + i) (ox + j) (oc + k) v ys;
      Some ((id, s), ys) })
    (\<lambda>(c, ys'). (fst c = 4 * i + j \<and> holds A (snd c)) \<and>
      wrote {pos4 (output_shape a) 0 (oy + i) (ox + j) (oc + k)} ?V ys ys')"
    if i: "0 \<le> i" "i < 4" and j: "0 \<le> j" "j < 4" and k: "0 \<le> k" "k < 8" and id: "id = 4 * i + j" and "holds A s"
      and len: "int (length ys) = elems (output_shape a)" for i j k id s ys
  proof -
    define p where "p = nat (4 * i + j)"
    have p: "word_of_int id = (word_of_nat p :: i32)" "p < 16" "int (p div 4) = i" "int (p mod 4) = j"
      using i j by (auto simp: p_def id zdiv_int zmod_int)
    have kn: "word_of_int k = (word_of_nat (nat k) :: i32)" "nat k < 8" "int (nat k) = k"
      using k by simp_all
    note ix = inside [OF i j k]
    have bound: "0 \<le> oc + k" "oc + k < dim (output_shape a) 3"
      using ix by (auto simp: index4_def)
    have q: "requantize a (- 128) (qc k) (A p (nat k) + word_of_int (bias_at a (oc + k))) =
        Some (accel_out a Q 0 (oy + i) (ox + j) (oc + k))"
      using requantize_defined [OF assms(1), of "Q (oc + k)"] ix
      using k by (auto simp: A_def p kn accel_out_def)
    note st = store_output_wrote [OF assms(1) len conjunct1 [OF ix], of _ "accel_out a Q", OF refl]
    show ?thesis
      unfolding ok_bind p(1) kn(1)
    proof (rule ok_mono [OF ok_result [OF \<open>holds A s\<close> p(2) kn(2)]])
      fix t assume t: "case t of (r, s') \<Rightarrow> r = A p (nat k) \<and> holds A s'"
      show "ok (case t of (acc, s) \<Rightarrow> do {
          acc \<leftarrow> add_bias a (oc + k) acc;
          v \<leftarrow> requantize a (- 128) (qc k) acc;
          ys \<leftarrow> store_output nd a 0 (oy + i) (ox + j) (oc + k) v ys;
          Some ((id, s), ys) })
        (\<lambda>(c, ys'). (fst c = 4 * i + j \<and> holds A (snd c)) \<and>
          wrote {pos4 (output_shape a) 0 (oy + i) (ox + j) (oc + k)} ?V ys ys')"
        using t st id
        by (auto simp: add_bias_value [OF assms(1) bound] q ok_simps ok_iff [of "store_output _ _ _ _ _ _ _ _"]
            split: prod.splits)
    qed
  qed
  have "ok (cfor 0 4 1 (\<lambda>i. cfor 0 4 1 (\<lambda>j ((id, s), output_data). do {
       ((id, s), output_data) \<leftarrow> cfor 0 8 1 (\<lambda>k ((id, s), output_data). do {
         (acc, s) \<leftarrow> op 2 (word_of_int id) (word_of_int k) s;
         acc \<leftarrow> add_bias a (oc + k) acc;
         v \<leftarrow> requantize a (- 128) (qc k) acc;
         output_data \<leftarrow> store_output nd a 0 (oy + i) (ox + j) (oc + k) v output_data;
         Some ((id, s), output_data) }) ((id, s), output_data);
       Some ((id + 1, s), output_data) })) ((0, s), zs))
    (\<lambda>(c, ys). (fst c = 4 * 4 \<and> holds A (snd c)) \<and> wrote (block a oc oy ox) ?V zs ys)"
    unfolding block_def steps_def
  proof (rule cfor_wrote_indexed [where P = "\<lambda>i c. fst c = 4 * i \<and> holds A (snd c)"])
    show "fst (0 :: int, s) = 4 * 0 \<and> holds A (snd (0 :: int, s))" using assms(4) by (simp add: A_def)
  next
    fix i :: int and c :: "int \<times> 'c" and ys :: "i8 list" assume i: "0 \<le> i" "i < 4" and c: "fst c = 4 * i \<and> holds A (snd c)" and len: "length ys = length zs"
    show "ok (cfor 0 4 1 (\<lambda>j ((id, s), output_data). do {
       ((id, s), output_data) \<leftarrow> cfor 0 8 1 (\<lambda>k ((id, s), output_data). do {
         (acc, s) \<leftarrow> op 2 (word_of_int id) (word_of_int k) s;
         acc \<leftarrow> add_bias a (oc + k) acc;
         v \<leftarrow> requantize a (- 128) (qc k) acc;
         output_data \<leftarrow> store_output nd a 0 (oy + i) (ox + j) (oc + k) v output_data;
         Some ((id, s), output_data) }) ((id, s), output_data);
       Some ((id + 1, s), output_data) }) (c, ys))
      (\<lambda>(c', ys'). (fst c' = 4 * (i + 1) \<and> holds A (snd c')) \<and>
        wrote (\<Union>j\<in>{j. 0 \<le> j \<and> j < 4 \<and> 1 dvd (j - 0)}. \<Union>k\<in>{k. 0 \<le> k \<and> k < 8 \<and> 1 dvd (k - 0)}.
          {pos4 (output_shape a) 0 (oy + i) (ox + j) (oc + k)}) ?V ys ys')"
    proof (rule ok_mono [OF cfor_wrote_indexed [where P = "\<lambda>j c. fst c = 4 * i + j \<and> holds A (snd c)"]])
      fix j :: int and c' :: "int \<times> 'c" and vs :: "i8 list" assume j: "0 \<le> j" "j < 4" and c': "fst c' = 4 * i + j \<and> holds A (snd c')" and len': "length vs = length ys"
      obtain id t where ct: "c' = (id, t)" by (cases c')
      have "ok (cfor 0 8 1 (\<lambda>k ((id, s), output_data). do {
         (acc, s) \<leftarrow> op 2 (word_of_int id) (word_of_int k) s;
         acc \<leftarrow> add_bias a (oc + k) acc;
         v \<leftarrow> requantize a (- 128) (qc k) acc;
         output_data \<leftarrow> store_output nd a 0 (oy + i) (ox + j) (oc + k) v output_data;
         Some ((id, s), output_data) }) (c', vs))
        (\<lambda>(c', ys'). (fst c' = 4 * i + j \<and> holds A (snd c')) \<and>
          wrote (\<Union>k\<in>{k. 0 \<le> k \<and> k < 8 \<and> 1 dvd (k - 0)}. {pos4 (output_shape a) 0 (oy + i) (ox + j) (oc + k)}) ?V vs ys')"
      proof (rule cfor_wrote [where P = "\<lambda>c. fst c = 4 * i + j \<and> holds A (snd c)"])
        fix k :: int and c'' :: "int \<times> 'c" and us :: "i8 list" assume k: "0 \<le> k" "k < 8" and c'': "fst c'' = 4 * i + j \<and> holds A (snd c'')"
          and len'': "length us = length vs"
        obtain id t where ct: "c'' = (id, t)" by (cases c'')
        show "ok ((\<lambda>((id, s), output_data). do {
             (acc, s) \<leftarrow> op 2 (word_of_int id) (word_of_int k) s;
             acc \<leftarrow> add_bias a (oc + k) acc;
             v \<leftarrow> requantize a (- 128) (qc k) acc;
             output_data \<leftarrow> store_output nd a 0 (oy + i) (ox + j) (oc + k) v output_data;
             Some ((id, s), output_data) }) (c'', us))
          (\<lambda>(c', ys). (fst c' = 4 * i + j \<and> holds A (snd c')) \<and>
            wrote {pos4 (output_shape a) 0 (oy + i) (ox + j) (oc + k)} ?V us ys)"
          unfolding ct prod.case using c'' len len' len'' assms(2)
          by (intro channel [OF i j k]) (simp_all add: ct)
      qed (use c' in simp_all)
      then show "ok ((\<lambda>((id, s), output_data). do {
           ((id, s), output_data) \<leftarrow> cfor 0 8 1 (\<lambda>k ((id, s), output_data). do {
             (acc, s) \<leftarrow> op 2 (word_of_int id) (word_of_int k) s;
             acc \<leftarrow> add_bias a (oc + k) acc;
             v \<leftarrow> requantize a (- 128) (qc k) acc;
             output_data \<leftarrow> store_output nd a 0 (oy + i) (ox + j) (oc + k) v output_data;
             Some ((id, s), output_data) }) ((id, s), output_data);
           Some ((id + 1, s), output_data) }) (c', vs))
          (\<lambda>(c', ys'). (fst c' = 4 * i + (j + 1) \<and> holds A (snd c')) \<and>
            wrote (\<Union>k\<in>{k. 0 \<le> k \<and> k < 8 \<and> 1 dvd (k - 0)}. {pos4 (output_shape a) 0 (oy + i) (ox + j) (oc + k)}) ?V vs ys')"
        unfolding ct prod.case ok_bind
        by (rule ok_mono) (auto simp: ok_simps)
    qed (use c in auto)
  qed simp_all
  then show ?thesis
    unfolding accel_store_def L_def ok_bind prod.case
    by (rule ok_mono) (auto simp: ok_simps holds_def)
qed

lemma ok_blocks:
  assumes "int (length zs) = elems (output_shape a)" and "inv s"
    and "\<And>oc oy ox s zs. oc \<in> steps (dim (output_shape a) 3) 8 \<Longrightarrow> oy \<in> steps (dim (output_shape a) 1) 4 \<Longrightarrow>
      ox \<in> steps (dim (output_shape a) 2) 4 \<Longrightarrow> inv s \<Longrightarrow> int (length zs) = elems (output_shape a) \<Longrightarrow>
      ok (body oc oy ox (s, zs)) (\<lambda>(s', ys). inv s' \<and> wrote (block a oc oy ox) V zs ys)"
  shows "ok (cfor 0 (dim (output_shape a) 3) L (\<lambda>oc. cfor 0 (dim (output_shape a) 1) 4 (\<lambda>oy.
      cfor 0 (dim (output_shape a) 2) 4 (body oc oy))) (s, zs))
    (\<lambda>(s', ys). inv s' \<and> wrote (blocks a) V zs ys)"
  unfolding blocks_def steps_def L_def
  by (intro cfor_wrote [where P = inv] assms(2,3)) (auto simp: steps_def assms(1))

end

lemma steps_floor:
  assumes "k dvd n" and "0 < k" and "0 \<le> i" and "i < n"
  shows "i - i mod k \<in> steps n k" and "i mod k \<in> steps k 1" and "i = i - i mod k + i mod k"
proof -
  have "k dvd (i - i mod k)" by (simp add: minus_mod_eq_mult_div)
  moreover have "0 \<le> i - i mod k" using assms(2,3) by (simp add: minus_mod_eq_mult_div pos_imp_zdiv_nonneg_iff zero_le_mult_iff)
  moreover have "i - i mod k < n" using assms(2,4) pos_mod_sign [OF assms(2), of i] by linarith
  ultimately show "i - i mod k \<in> steps n k" by (simp add: steps_def)
  show "i mod k \<in> steps k 1" using assms(2) by (simp add: steps_def)
qed simp

lemma blocks_cover:
  fixes a :: "(i8, i32) conv_args"
  assumes "shape4 (output_shape a)" and "dim (output_shape a) 0 = 1"
    and "4 dvd dim (output_shape a) 1" and "4 dvd dim (output_shape a) 2" and "8 dvd dim (output_shape a) 3"
  shows "{0..<elems (output_shape a)} \<subseteq> blocks a"
proof
  fix p assume "p \<in> {0..<elems (output_shape a)}"
  with index4_positions [OF assms(1)] obtain b y x k where
    "b \<in> {0..<dim (output_shape a) 0}" "y \<in> {0..<dim (output_shape a) 1}" "x \<in> {0..<dim (output_shape a) 2}"
    "k \<in> {0..<dim (output_shape a) 3}" and p: "p = pos4 (output_shape a) b y x k"
    by blast
  then have b: "b = 0" and "0 \<le> y" "y < dim (output_shape a) 1" "0 \<le> x" "x < dim (output_shape a) 2"
    "0 \<le> k" "k < dim (output_shape a) 3"
    using assms(2) by auto
  note y = steps_floor [OF assms(3) _ this(2,3)] and x = steps_floor [OF assms(4) _ this(4,5)]
    and k = steps_floor [OF assms(5) _ this(6,7)]
  have "p \<in> block a (k - k mod 8) (y - y mod 4) (x - x mod 4)"
    unfolding block_def p b using y(2) x(2) k(2) by (intro UN_I [of "y mod 4"] UN_I [of "x mod 4"] UN_I [of "k mod 8"]) auto
  then show "p \<in> blocks a"
    unfolding blocks_def using y(1) x(1) k(1) by (intro UN_I) auto
qed

section \<open>The words that the kernel loads\<close>

text \<open>
  What the accelerated kernel requires of its arguments beyond \<open>conv_ok\<close>: one image, a filter of
  3 by 3, unit stride and dilation, output dimensions that its blocks divide, and either one input
  channel with the literal sizes of that branch, or a multiple of four input channels.
\<close>

definition accel_ok :: "(i8, i32) conv_args \<Rightarrow> bool" where
  "accel_ok a \<longleftrightarrow> conv_ok a \<and> dim (output_shape a) 0 = 1 \<and>
     4 dvd dim (output_shape a) 1 \<and> 4 dvd dim (output_shape a) 2 \<and> 8 dvd dim (output_shape a) 3 \<and>
     dim (filter_shape a) 1 = 3 \<and> dim (filter_shape a) 2 = 3 \<and>
     stride_width (params a) = 1 \<and> stride_height (params a) = 1 \<and>
     dilation_width_factor (params a) = 1 \<and> dilation_height_factor (params a) = 1 \<and>
     (if dim (input_shape a) 3 = 1
      then pad_width (padding_values (params a)) = 1 \<and> pad_height (padding_values (params a)) = 1 \<and>
        dim (input_shape a) 1 = 28 \<and> dim (input_shape a) 2 = 28
      else 4 dvd dim (input_shape a) 3)"

lemma accel_okD:
  assumes "accel_ok a"
  shows "conv_ok a" "dim (output_shape a) 0 = 1" "4 dvd dim (output_shape a) 1" "4 dvd dim (output_shape a) 2"
    "8 dvd dim (output_shape a) 3" "dim (filter_shape a) 1 = 3" "dim (filter_shape a) 2 = 3"
    "dim (input_shape a) 0 = 1"
  using assms conv_ok_shapes(4) [of a] by (simp_all add: accel_ok_def)

lemma accel_conv_sum:
  assumes "accel_ok a"
  shows "conv_sum a 128 0 oy ox k =
    conv_part a 0 (dim (input_shape a) 3) k (oy - sint (pad_height (padding_values (params a))))
      (ox - sint (pad_width (padding_values (params a))))"
  using assms by (simp add: conv_sum_def conv_part_all accel_ok_def)

definition input_byte :: "(i8, i32) conv_args \<Rightarrow> int \<Rightarrow> int \<Rightarrow> int \<Rightarrow> i8" where
  "input_byte a y x c = input_data a ! nat (pos4 (input_shape a) 0 y x c)"

definition filter_byte :: "(i8, i32) conv_args \<Rightarrow> int \<Rightarrow> int \<Rightarrow> int \<Rightarrow> int \<Rightarrow> i8" where
  "filter_byte a k y x c = filter_data a ! nat (pos4 (filter_shape a) k y x c)"

definition simd_pixel :: "(i8, i32) conv_args \<Rightarrow> int \<Rightarrow> int \<Rightarrow> int \<Rightarrow> i32" where
  "simd_pixel a c y x = (if in_image a y x
     then pack4 (input_byte a y x c) (input_byte a y x (c + 1)) (input_byte a y x (c + 2)) (input_byte a y x (c + 3))
     else 0x80808080)"

definition simd_weight :: "(i8, i32) conv_args \<Rightarrow> int \<Rightarrow> int \<Rightarrow> int \<Rightarrow> int \<Rightarrow> i32" where
  "simd_weight a c k y x =
     pack4 (filter_byte a k y x c) (filter_byte a k y x (c + 1)) (filter_byte a k y x (c + 2)) (filter_byte a k y x (c + 3))"

definition single_pixel :: "(i8, i32) conv_args \<Rightarrow> int \<Rightarrow> int \<Rightarrow> i32" where
  "single_pixel a y x = (if in_image a y x then ucast (input_byte a y x 0) else 0x80808080)"

lemma simd_tile_word:
  assumes "accel_ok a" and "0 \<le> c" and "c + 3 < dim (input_shape a) 3"
  shows "tile_word (\<lambda>y x. do { i \<leftarrow> Offset nd (input_shape a) 0 y x c; load32 (input_data a) i })
    (dim (input_shape a) 1) (dim (input_shape a) 2) y x = Some (simd_pixel a c y x)"
proof (cases "in_image a y x")
  case True
  then have "index4 (input_shape a) 0 y x c" "index4 (input_shape a) 0 y x (c + 3)"
    using assms accel_okD [OF assms(1)] by (auto simp: index4_def in_image_def point_inside_def)
  with True load_word [OF conv_ok_shapes(1) conv_ok_lengths(1)] accel_okD(1) [OF assms(1)] show ?thesis
    by (simp add: tile_word_def in_image_def point_inside_def simd_pixel_def input_byte_def)
next
  case False
  then show ?thesis
    by (auto simp: tile_word_def in_image_def point_inside_def simd_pixel_def)
qed

lemma single_tile_word:
  assumes "accel_ok a" and "dim (input_shape a) 3 = 1"
  shows "tile_word (\<lambda>y x. do { i \<leftarrow> Offset nd (input_shape a) 0 y x 0; v \<leftarrow> rd (input_data a) i; Some (ucast v) })
    28 28 y x = Some (single_pixel a y x)"
proof -
  have d: "dim (input_shape a) 1 = 28" "dim (input_shape a) 2 = 28"
    using assms by (simp_all add: accel_ok_def)
  show ?thesis
  proof (cases "in_image a y x")
    case True
    then have "index4 (input_shape a) 0 y x 0"
      using assms accel_okD [OF assms(1)] by (auto simp: index4_def in_image_def point_inside_def)
    with True load_byte [OF conv_ok_shapes(1) conv_ok_lengths(1)] accel_okD(1) [OF assms(1)] show ?thesis
      by (simp add: tile_word_def in_image_def point_inside_def single_pixel_def input_byte_def d)
  next
    case False
    then show ?thesis
      by (auto simp: tile_word_def in_image_def point_inside_def single_pixel_def d)
  qed
qed

lemma weight_word:
  assumes "accel_ok a" and "0 \<le> k" "k < dim (output_shape a) 3" and "0 \<le> y" "y < 3" and "0 \<le> x" "x < 3" and "0 \<le> c"
  shows "c + 3 < dim (input_shape a) 3 \<Longrightarrow>
      do { i \<leftarrow> Offset nd (filter_shape a) k y x c; load32 (filter_data a) i } = Some (simd_weight a c k y x)"
    and "c < dim (input_shape a) 3 \<Longrightarrow>
      do { i \<leftarrow> Offset nd (filter_shape a) k y x c; v \<leftarrow> rd (filter_data a) i; Some (f v) } = Some (f (filter_byte a k y x c))"
proof -
  note ok = accel_okD [OF assms(1)] and s = conv_ok_shapes [OF accel_okD(1) [OF assms(1)]]
  have index: "index4 (filter_shape a) k y x c'" if "0 \<le> c'" "c' < dim (input_shape a) 3" for c'
    using that assms ok s by (auto simp: index4_def)
  show "do { i \<leftarrow> Offset nd (filter_shape a) k y x c; load32 (filter_data a) i } = Some (simd_weight a c k y x)"
    if "c + 3 < dim (input_shape a) 3"
    using load_word [OF s(2) conv_ok_lengths(2) [OF ok(1)] index index] that assms(8)
    by (simp add: simd_weight_def filter_byte_def)
  show "do { i \<leftarrow> Offset nd (filter_shape a) k y x c; v \<leftarrow> rd (filter_data a) i; Some (f v) } =
      Some (f (filter_byte a k y x c))" if "c < dim (input_shape a) 3"
    using load_byte [OF s(2) conv_ok_lengths(2) [OF ok(1)] index] that assms(8)
    by (simp add: filter_byte_def)
qed

lemma simd_dot: "dot4 (simd_pixel a c y x) (simd_weight a c k fy fx) = tap_part a c (c + 4) k fy fx y x"
  by (simp add: simd_pixel_def simd_weight_def dot4_padding dot4_pack4 tap_part_def sum_four
      input_byte_def filter_byte_def input_at_def filter_at_def)

lemma single_dot: "dot4 (single_pixel a y x) (ucast (filter_byte a k fy fx 0)) = tap_part a 0 1 k fy fx y x"
proof -
  have "{0..<1::int} = {0}" by auto
  then show ?thesis
    by (simp add: single_pixel_def dot4_padding dot4_single tap_part_def
        input_byte_def filter_byte_def input_at_def filter_at_def)
qed

section \<open>The kernel\<close>

lemma steps_inside:
  assumes "accel_ok a" and "oc \<in> steps (dim (output_shape a) 3) 8" "oy \<in> steps (dim (output_shape a) 1) 4"
    "ox \<in> steps (dim (output_shape a) 2) 4"
    and "0 \<le> i" "i < 4" "0 \<le> j" "j < 4" "0 \<le> k" "k < 8"
  shows "index4 (output_shape a) 0 (oy + i) (ox + j) (oc + k)"
proof -
  have room: "l + m < n" if "l \<in> steps n d" "d dvd n" "m < d" for l m n d :: int
  proof -
    have "d dvd (n - l)" "0 < n - l" using that by (auto simp: steps_def)
    then have "d \<le> n - l" by (rule zdvd_imp_le)
    with that(3) show ?thesis by simp
  qed
  have "0 \<le> oc" "0 \<le> oy" "0 \<le> ox" using assms(2-4) by (auto simp: steps_def)
  with assms accel_okD [OF assms(1)] room [OF assms(2)] room [OF assms(3)] room [OF assms(4)] show ?thesis
    by (simp add: index4_def)
qed

context tile_engine
begin

text \<open>The accumulators after the channels below \<open>c\<close>.\<close>

definition sums :: "(i8, i32) conv_args \<Rightarrow> int \<Rightarrow> int \<Rightarrow> int \<Rightarrow> int \<Rightarrow> nat \<Rightarrow> nat \<Rightarrow> i32" where
  "sums a oc in_y in_x c = (\<lambda>p k. word_of_int
     (conv_part a 0 c (oc + int k) (in_y + int (p div 4)) (in_x + int (p mod 4))))"

lemma sums_step:
  assumes "0 \<le> c" "c \<le> c'"
    and dot: "\<And>y x k fy fx. 0 \<le> fy \<Longrightarrow> fy < 3 \<Longrightarrow> 0 \<le> fx \<Longrightarrow> fx < 3 \<Longrightarrow>
      dot4 (px y x) (w k (nat fy) (nat fx)) = tap_part a c c' (oc + int k) fy fx y x"
    and "loaded T (\<lambda>p k. sums a oc in_y in_x c p k + word_of_int (window (tile_at px in_y in_x) (w k) p)) s"
  shows "holds (sums a oc in_y in_x c') s"
proof -
  have "sums a oc in_y in_x c p k + word_of_int (window (tile_at px in_y in_x) (w k) p) = sums a oc in_y in_x c' p k"
    if "p < 16" for p k
  proof -
    have "p div 4 < 4" "p mod 4 < 4" using that by auto
    then have "window (tile_at px in_y in_x) (w k) (4 * (p div 4) + p mod 4) =
        conv_part a c c' (oc + int k) (in_y + int (p div 4)) (in_x + int (p mod 4))"
      using dot by (rule window_conv)
    then show ?thesis using assms(1,2) by (simp add: sums_def conv_part_split [of 0 c c'])
  qed
  with assms(4) show ?thesis by (simp add: loaded_def holds_def)
qed

lemma ok_channel_group:
  assumes "accel_ok a" and oc: "0 \<le> oc" "oc + 7 < dim (output_shape a) 3"
    and c: "0 \<le> c" "c + 3 < dim (input_shape a) 3"
    and "holds (sums a oc in_y in_x c) s"
  shows "ok (do {
      (_, s) \<leftarrow> op 4 0 0 s;
      s \<leftarrow> accel_fill_tile op (\<lambda>y x. do {
        i \<leftarrow> Offset nd (input_shape a) 0 y x c;
        load32 (input_data a) i }) (dim (input_shape a) 1) (dim (input_shape a) 2) in_y in_x s;
      accel_send_weights op (\<lambda>k y x. do {
        i \<leftarrow> Offset nd (filter_shape a) k y x c;
        load32 (filter_data a) i }) oc s })
    (holds (sums a oc in_y in_x (c + 4)))"
  unfolding ok_bind
proof (rule ok_mono [OF ok_restart [OF assms(6)]])
  fix t assume "case t of (_, s') \<Rightarrow> holds (sums a oc in_y in_x c) s' \<and> wpos s' = 0"
  then have t: "holds (sums a oc in_y in_x c) (snd t)" "wpos (snd t) = 0" by auto
  have fill: "ok (accel_fill_tile op (\<lambda>y x. do {
      i \<leftarrow> Offset nd (input_shape a) 0 y x c;
      load32 (input_data a) i }) (dim (input_shape a) 1) (dim (input_shape a) 2) in_y in_x (snd t))
    (filled (tile_at (simd_pixel a c) in_y in_x) (sums a oc in_y in_x c) 36)"
    by (rule ok_fill_tile [OF t]) (rule simd_tile_word [OF assms(1) c])
  have send: "ok (accel_send_weights op (\<lambda>k y x. do {
      i \<leftarrow> Offset nd (filter_shape a) k y x c;
      load32 (filter_data a) i }) oc s) (holds (sums a oc in_y in_x (c + 4)))"
    if s: "filled (tile_at (simd_pixel a c) in_y in_x) (sums a oc in_y in_x c) 36 s" for s
    using c(1) simd_dot
    by (intro ok_mono [OF ok_send_weights [OF filled_loaded [OF s],
          where w = "\<lambda>k y x. simd_weight a c (oc + int k) (int y) (int x)"]] weight_word(1) [OF assms(1)])
      (use oc c in \<open>auto elim!: sums_step [rotated 3]\<close>)
  show "ok (case t of (_, s) \<Rightarrow> do {
      s \<leftarrow> accel_fill_tile op (\<lambda>y x. do {
        i \<leftarrow> Offset nd (input_shape a) 0 y x c;
        load32 (input_data a) i }) (dim (input_shape a) 1) (dim (input_shape a) 2) in_y in_x s;
      accel_send_weights op (\<lambda>k y x. do {
        i \<leftarrow> Offset nd (filter_shape a) k y x c;
        load32 (filter_data a) i }) oc s }) (holds (sums a oc in_y in_x (c + 4)))"
    unfolding case_prod_unfold ok_bind by (rule ok_mono [OF fill]) (rule send)
qed

lemma steps_block:
  assumes "accel_ok a" and "oc \<in> steps (dim (output_shape a) 3) 8"
  shows "0 \<le> oc" "oc + 7 < dim (output_shape a) 3"
proof -
  have "8 dvd (dim (output_shape a) 3 - oc)" "0 < dim (output_shape a) 3 - oc"
    using assms accel_okD(5) by (auto simp: steps_def)
  then have "8 \<le> dim (output_shape a) 3 - oc" by (rule zdvd_imp_le)
  then show "0 \<le> oc" "oc + 7 < dim (output_shape a) 3" using assms(2) by (auto simp: steps_def)
qed

text \<open>From accumulators that hold the convolution to the block in the output.\<close>

lemma ok_sums_store:
  assumes "accel_ok a" and "int (length zs) = elems (output_shape a)"
    and st: "oc \<in> steps (dim (output_shape a) 3) 8" "oy \<in> steps (dim (output_shape a) 1) 4"
    "ox \<in> steps (dim (output_shape a) 2) 4"
    and q: "\<And>k. 0 \<le> k \<Longrightarrow> k < 8 \<Longrightarrow> qc k = Q (oc + k) \<and> 0 \<le> Q (oc + k) \<and> Q (oc + k) < dim (output_shape a) 3"
    and "holds (sums a oc (oy - sint (pad_height (padding_values (params a))))
      (ox - sint (pad_width (padding_values (params a)))) (dim (input_shape a) 3)) s"
  shows "ok (accel_store op nd a qc oc oy ox (s, zs))
    (\<lambda>(s', ys). inv s' \<and> wrote (block a oc oy ox) (at_output a (accel_out a Q)) zs ys)"
proof (rule ok_block_store [OF accel_okD(1) [OF assms(1)] assms(2)])
  show "holds (\<lambda>p k. word_of_int (conv_sum a 128 0 (oy + int (p div 4)) (ox + int (p mod 4)) (oc + int k))) s"
    using assms(7) by (simp add: sums_def accel_conv_sum [OF assms(1)] algebra_simps)
qed (use steps_inside [OF assms(1) st] q in auto)

lemma ok_simd:
  assumes "accel_ok a" and "int (length zs) = elems (output_shape a)" and "inv s" and "dim (input_shape a) 3 \<noteq> 1"
  shows "ok (accel_simd op nd a (sint (pad_width (padding_values (params a))))
      (sint (pad_height (padding_values (params a)))) (dim (input_shape a) 3) (dim (input_shape a) 1)
      (dim (input_shape a) 2) (dim (output_shape a) 3) (dim (output_shape a) 1) (dim (output_shape a) 2) (s, zs))
    (\<lambda>(s', ys). inv s' \<and> wrote (blocks a) (at_output a (accel_out a (\<lambda>k. k))) zs ys)"
  unfolding accel_simd_def
proof (rule ok_blocks [OF assms(2,3)])
  fix oc oy ox s and zs :: "i8 list"
  assume st: "oc \<in> steps (dim (output_shape a) 3) 8" "oy \<in> steps (dim (output_shape a) 1) 4"
      "ox \<in> steps (dim (output_shape a) 2) 4"
    and "inv s" and len: "int (length zs) = elems (output_shape a)"
  let ?y = "oy - sint (pad_height (padding_values (params a)))"
  let ?x = "ox - sint (pad_width (padding_values (params a)))"
  note oc = steps_block [OF assms(1) st(1)]
  have depth: "4 dvd dim (input_shape a) 3" "0 \<le> dim (input_shape a) 3"
    using assms(1,4) shape4_nonneg(4) [OF conv_ok_shapes(1) [OF accel_okD(1) [OF assms(1)]]]
    by (simp_all add: accel_ok_def)
  have channels: "ok (cfor 0 (dim (input_shape a) 3) 4 (\<lambda>in_channel s. do {
       (_, s) \<leftarrow> op 4 0 0 s;
       s \<leftarrow> accel_fill_tile op (\<lambda>y x. do {
         i \<leftarrow> Offset nd (input_shape a) 0 y x in_channel;
         load32 (input_data a) i }) (dim (input_shape a) 1) (dim (input_shape a) 2) ?y ?x s;
       accel_send_weights op (\<lambda>k y x. do {
         i \<leftarrow> Offset nd (filter_shape a) k y x in_channel;
         load32 (filter_data a) i }) oc s }) s')
    (holds (sums a oc ?y ?x (dim (input_shape a) 3)))"
    if s': "holds (\<lambda>_ _. 0) s'" for s'
  proof (rule ok_cfor [where I = "\<lambda>c. holds (sums a oc ?y ?x c)"])
    show "holds (sums a oc ?y ?x 0) s'" using s' by (simp add: sums_def conv_part_empty)
  next
    fix c s assume c: "0 \<le> c" "c < dim (input_shape a) 3" "4 dvd (c - 0)" and h: "holds (sums a oc ?y ?x c) s"
    have "c + 3 < dim (input_shape a) 3" by (rule dvd4_room [OF depth(1) c(3,2)])
    from ok_channel_group [OF assms(1) oc c(1) this h]
    show "ok (do {
       (_, s) \<leftarrow> op 4 0 0 s;
       s \<leftarrow> accel_fill_tile op (\<lambda>y x. do {
         i \<leftarrow> Offset nd (input_shape a) 0 y x c;
         load32 (input_data a) i }) (dim (input_shape a) 1) (dim (input_shape a) 2) ?y ?x s;
       accel_send_weights op (\<lambda>k y x. do {
         i \<leftarrow> Offset nd (filter_shape a) k y x c;
         load32 (filter_data a) i }) oc s }) (holds (sums a oc ?y ?x (c + 4)))" .
  next
    fix c s assume c: "0 \<le> c" "dim (input_shape a) 3 \<le> c" "c < dim (input_shape a) 3 + 4 \<or> c = 0" "4 dvd (c - 0)"
      and "holds (sums a oc ?y ?x c) s"
    moreover have "c = dim (input_shape a) 3"
      using c depth dvd_window [of 4 c 0 "dim (input_shape a) 3"] by auto
    ultimately show "holds (sums a oc ?y ?x (dim (input_shape a) 3)) s" by simp
  qed simp
  have store: "ok (accel_store op nd a (\<lambda>k. oc + k) oc oy ox (s, zs))
    (\<lambda>(s', ys). inv s' \<and> wrote (block a oc oy ox) (at_output a (accel_out a (\<lambda>k. k))) zs ys)"
    if "holds (sums a oc ?y ?x (dim (input_shape a) 3)) s" for s
    using oc that by (intro ok_sums_store [OF assms(1) len st]) auto
  show "ok ((\<lambda>(s, output_data). do {
         let in_y = ?y;
         let in_x = ?x;
         (_, s) \<leftarrow> op 3 0 0 s;
         s \<leftarrow> cfor 0 (dim (input_shape a) 3) 4 (\<lambda>in_channel s. do {
           (_, s) \<leftarrow> op 4 0 0 s;
           s \<leftarrow> accel_fill_tile op (\<lambda>y x. do {
             i \<leftarrow> Offset nd (input_shape a) 0 y x in_channel;
             load32 (input_data a) i }) (dim (input_shape a) 1) (dim (input_shape a) 2) in_y in_x s;
           accel_send_weights op (\<lambda>k y x. do {
             i \<leftarrow> Offset nd (filter_shape a) k y x in_channel;
             load32 (filter_data a) i }) oc s }) s;
         accel_store op nd a (\<lambda>k. oc + k) oc oy ox (s, output_data) }) (s, zs))
    (\<lambda>(s', ys). inv s' \<and> wrote (block a oc oy ox) (at_output a (accel_out a (\<lambda>k. k))) zs ys)"
    unfolding prod.case Let_def
    by (rule ok_bind_pair [OF ok_reset [OF \<open>inv s\<close>]], rule ok_bindI [OF channels], assumption, rule store)
qed

lemma ok_depth1:
  assumes "accel_ok a" and "int (length zs) = elems (output_shape a)" and "inv s" and "dim (input_shape a) 3 = 1"
  shows "ok (accel_depth1 op nd a (dim (output_shape a) 3) (dim (output_shape a) 1) (dim (output_shape a) 2) (s, zs))
    (\<lambda>(s', ys). inv s' \<and> wrote (blocks a) (at_output a (accel_out a (\<lambda>k. k - k mod 8))) zs ys)"
  unfolding accel_depth1_def
proof (rule ok_blocks [OF assms(2,3)])
  fix oc oy ox s and zs :: "i8 list"
  assume st: "oc \<in> steps (dim (output_shape a) 3) 8" "oy \<in> steps (dim (output_shape a) 1) 4"
      "ox \<in> steps (dim (output_shape a) 2) 4"
    and "inv s" and len: "int (length zs) = elems (output_shape a)"
  note oc = steps_block [OF assms(1) st(1)]
  have pad: "sint (pad_height (padding_values (params a))) = 1" "sint (pad_width (padding_values (params a))) = 1"
    using assms(1,4) by (simp_all add: accel_ok_def)
  have fill: "ok (accel_fill_tile op (\<lambda>y x. do {
      i \<leftarrow> Offset nd (input_shape a) 0 y x 0;
      v \<leftarrow> rd (input_data a) i;
      Some (ucast v) }) 28 28 (oy - 1) (ox - 1) s)
    (filled (tile_at (single_pixel a) (oy - 1) (ox - 1)) (sums a oc (oy - 1) (ox - 1) 0) 36)"
    if "holds (sums a oc (oy - 1) (ox - 1) 0) s" "wpos s = 0" for s
    by (rule ok_fill_tile [OF that]) (rule single_tile_word [OF assms(1,4)])
  have send: "ok (accel_send_weights op (\<lambda>k y x. do {
      i \<leftarrow> Offset nd (filter_shape a) k y x 0;
      v \<leftarrow> rd (filter_data a) i;
      Some (ucast v) }) oc s) (holds (sums a oc (oy - 1) (ox - 1) 1))"
    if s: "filled (tile_at (single_pixel a) (oy - 1) (ox - 1)) (sums a oc (oy - 1) (ox - 1) 0) 36 s" for s
    using single_dot
    by (intro ok_mono [OF ok_send_weights [OF filled_loaded [OF s],
          where w = "\<lambda>k y x. ucast (filter_byte a (oc + int k) (int y) (int x) 0)"]] weight_word(2) [OF assms(1)])
      (use oc assms(4) in \<open>auto elim!: sums_step [rotated 3]\<close>)
  have q: "oc = oc + k - (oc + k) mod 8" if "0 \<le> k" "k < 8" for k
  proof -
    have "(oc + k) mod 8 = k"
      using st(1) that by (auto simp: steps_def mod_add_eq [symmetric, of oc] dvd_eq_mod_eq_0)
    then show ?thesis by simp
  qed
  have store: "ok (accel_store op nd a (\<lambda>k. oc) oc oy ox (s, zs))
    (\<lambda>(s', ys). inv s' \<and> wrote (block a oc oy ox) (at_output a (accel_out a (\<lambda>k. k - k mod 8))) zs ys)"
    if "holds (sums a oc (oy - 1) (ox - 1) 1) s" for s
    using oc that q assms(4) by (intro ok_sums_store [OF assms(1) len st]) (auto simp: pad)
  have zero: "sums a oc (oy - 1) (ox - 1) 0 = (\<lambda>_ _. 0)" by (simp add: sums_def conv_part_empty)
  show "ok ((\<lambda>(s, output_data). do {
         let in_y = oy - 1;
         let in_x = ox - 1;
         (_, s) \<leftarrow> op 3 0 0 s;
         (_, s) \<leftarrow> op 4 0 0 s;
         s \<leftarrow> accel_fill_tile op (\<lambda>y x. do {
           i \<leftarrow> Offset nd (input_shape a) 0 y x 0;
           v \<leftarrow> rd (input_data a) i;
           Some (ucast v) }) 28 28 in_y in_x s;
         s \<leftarrow> accel_send_weights op (\<lambda>k y x. do {
           i \<leftarrow> Offset nd (filter_shape a) k y x 0;
           v \<leftarrow> rd (filter_data a) i;
           Some (ucast v) }) oc s;
         accel_store op nd a (\<lambda>k. oc) oc oy ox (s, output_data) }) (s, zs))
    (\<lambda>(s', ys). inv s' \<and> wrote (block a oc oy ox) (at_output a (accel_out a (\<lambda>k. k - k mod 8))) zs ys)"
    unfolding prod.case Let_def
    by (rule ok_bind_pair [OF ok_reset [OF \<open>inv s\<close>]], rule ok_bind_pair [OF ok_restart], assumption,
        rule ok_bindI [OF fill]) (auto simp: zero intro: ok_bindI [OF send] store)
qed

end

text \<open>
  The whole kernel. With one input channel, the multiplier and the shift of channel \<open>k\<close> are those
  of the first channel of its block.
\<close>

definition scale_channel :: "(i8, i32) conv_args \<Rightarrow> int \<Rightarrow> int" where
  "scale_channel a k = (if dim (input_shape a) 3 = 1 then k - k mod 8 else k)"

context tile_engine
begin

lemma ok_accel:
  assumes "accel_ok a" and "int (length output_data) = elems (output_shape a)" and "inv s"
  shows "ok (accel_ConvPerChannel op nd a (s, output_data))
    (\<lambda>(s', ys). inv s' \<and>
      ys = map (\<lambda>i. at_output a (accel_out a (scale_channel a)) (int i)) [0..<length output_data])"
proof -
  have "ok (accel_ConvPerChannel op nd a (s, output_data))
    (\<lambda>(s', ys). inv s' \<and> wrote (blocks a) (at_output a (accel_out a (scale_channel a))) output_data ys)"
    unfolding accel_ConvPerChannel_def conv_prologue [OF accel_okD(1) [OF assms(1)]] Option.bind.simps(2) Let_def
    using ok_depth1 [OF assms] ok_simd [OF assms]
    by (cases "dim (input_shape a) 3 = 1") (simp_all add: scale_channel_def [abs_def])
  moreover have "{0..<int (length output_data)} \<subseteq> blocks a"
    unfolding assms(2) using accel_okD [OF assms(1)]
    by (intro blocks_cover conv_ok_shapes(3)) simp_all
  ultimately show ?thesis
    by (auto elim!: ok_mono dest: wrote_all)
qed

end

section \<open>On the unit of cfu.v\<close>

lemma accel_value:
  assumes "accel_ok a" and "int (length output_data) = elems (output_shape a)" and "quiet s"
  shows "\<exists>s'. accel_ConvPerChannel (cfu_op 0) nd a (s, output_data) =
      Some (s', map (\<lambda>i. at_output a (accel_out a (scale_channel a)) (int i)) [0..<length output_data]) \<and>
    quiet s'"
  using unit.ok_accel [OF assms] by (auto simp: ok_iff)

lemma accel_out_conv: "accel_out a (\<lambda>k. k) = conv_out a 128 (- 128)"
  by (simp add: accel_out_def [abs_def] conv_out_def [abs_def])

end
