(* ===== verification/Conv_Unrolled.thy ===== *)
theory Conv_Unrolled
  imports Conv_Ref
begin

text \<open>
  The unrolled kernels: \<open>conv_unrolled.h\<close> of the baseline project, which takes four input channels
  in each iteration unless there is only one, and \<open>conv_constant.h\<close> and \<open>conv_unrolled.h\<close> of
  \<open>proj/example_renode\<close>, which replace the parameters of the model they serve by literals. The
  calls to the performance counters have no effect on the result and are left out.
\<close>

section \<open>The baseline project\<close>

definition unrolled_channels ::
  "bool \<Rightarrow> (i8, i32) conv_args \<Rightarrow> int \<Rightarrow> int \<Rightarrow> int \<Rightarrow> int \<Rightarrow> int \<Rightarrow> int \<Rightarrow> int \<Rightarrow> i32 \<Rightarrow> i32 option" where
  "unrolled_channels nd a input_depth batch out_channel filter_y filter_x in_y in_x =
     cfor 0 input_depth 4 (\<lambda>in_channel acc. do {
       input_val1 \<leftarrow> load_input nd a batch in_y in_x in_channel;
       filter_val1 \<leftarrow> load_filter nd a out_channel filter_y filter_x in_channel;
       input_val2 \<leftarrow> load_input nd a batch in_y in_x (in_channel + 1);
       filter_val2 \<leftarrow> load_filter nd a out_channel filter_y filter_x (in_channel + 1);
       input_val3 \<leftarrow> load_input nd a batch in_y in_x (in_channel + 2);
       filter_val3 \<leftarrow> load_filter nd a out_channel filter_y filter_x (in_channel + 2);
       input_val4 \<leftarrow> load_input nd a batch in_y in_x (in_channel + 3);
       filter_val4 \<leftarrow> load_filter nd a out_channel filter_y filter_x (in_channel + 3);
       let acc = acc + filter_val1 * (input_val1 + input_offset (params a));
       let acc = acc + filter_val2 * (input_val2 + input_offset (params a));
       let acc = acc + filter_val3 * (input_val3 + input_offset (params a));
       let acc = acc + filter_val4 * (input_val4 + input_offset (params a));
       Some acc })"

text \<open>The loop nest, which the two branches of the kernel repeat around their channel loops.\<close>

definition unrolled_nest ::
  "(int \<Rightarrow> int \<Rightarrow> int \<Rightarrow> int \<Rightarrow> int \<Rightarrow> int \<Rightarrow> i32 \<Rightarrow> i32 option) \<Rightarrow> bool \<Rightarrow> (i8, i32) conv_args \<Rightarrow>
   int \<Rightarrow> int \<Rightarrow> int \<Rightarrow> int \<Rightarrow> int \<Rightarrow> int \<Rightarrow> int \<Rightarrow> int \<Rightarrow> i8 list \<Rightarrow> i8 list option" where
  "unrolled_nest channels nd a batches output_depth input_height input_width filter_height filter_width
     output_height output_width =
     cfor 0 batches 1 (\<lambda>batch.
       cfor 0 output_height 1 (\<lambda>out_y.
         let in_y_origin = out_y * sint (stride_height (params a)) - sint (pad_height (padding_values (params a))) in
         cfor 0 output_width 1 (\<lambda>out_x.
           let in_x_origin = out_x * sint (stride_width (params a)) - sint (pad_width (padding_values (params a))) in
           cfor 0 output_depth 1 (\<lambda>out_channel output_data. do {
             acc \<leftarrow> cfor 0 filter_height 1 (\<lambda>filter_y.
               let in_y = in_y_origin + sint (dilation_height_factor (params a)) * filter_y in
               cfor 0 filter_width 1 (\<lambda>filter_x acc.
                 let in_x = in_x_origin + sint (dilation_width_factor (params a)) * filter_x in
                 if \<not> point_inside input_height input_width in_y in_x then Some acc
                 else channels batch out_channel filter_y filter_x in_y in_x acc)) 0;
             acc \<leftarrow> add_bias a out_channel acc;
             v \<leftarrow> requantize a (output_offset (params a)) out_channel acc;
             store_output nd a batch out_y out_x out_channel v output_data }))))"

definition unrolled_ConvPerChannel :: "bool \<Rightarrow> (i8, i32) conv_args \<Rightarrow> i8 list \<Rightarrow> i8 list option" where
  "unrolled_ConvPerChannel nd a output_data = do {
     conv_checks nd a;
     batches \<leftarrow> MatchingDim nd (input_shape a) 0 (output_shape a) 0;
     input_depth \<leftarrow> MatchingDim nd (input_shape a) 3 (filter_shape a) 3;
     output_depth \<leftarrow> MatchingDim nd (filter_shape a) 0 (output_shape a) 3;
     bias_check nd a output_depth;
     input_height \<leftarrow> Dims nd (input_shape a) 1;
     input_width \<leftarrow> Dims nd (input_shape a) 2;
     filter_height \<leftarrow> Dims nd (filter_shape a) 1;
     filter_width \<leftarrow> Dims nd (filter_shape a) 2;
     output_height \<leftarrow> Dims nd (output_shape a) 1;
     output_width \<leftarrow> Dims nd (output_shape a) 2;
     if input_depth = 1
     then unrolled_nest (baseline_channels nd a input_depth) nd a batches output_depth input_height input_width
       filter_height filter_width output_height output_width output_data
     else unrolled_nest (unrolled_channels nd a input_depth) nd a batches output_depth input_height input_width
       filter_height filter_width output_height output_width output_data }"

text \<open>The 16-bit kernel of this file is the text of the one in \<open>conv.h\<close>.\<close>

definition unrolled_ConvPerChannel16 ::
  "('w word \<Rightarrow> i32 \<Rightarrow> int \<Rightarrow> i32 option) \<Rightarrow> bool \<Rightarrow> (i16, 'w::len word) conv_args \<Rightarrow> i16 list \<Rightarrow> i16 list option" where
  "unrolled_ConvPerChannel16 = baseline_ConvPerChannel16"

lemma unrolled_channels_value:
  assumes "4 dvd dim (input_shape a) 3" and "conv_ok a" and "index4 (output_shape a) b oy ox k"
    and "0 \<le> fy" "fy < dim (filter_shape a) 1" "0 \<le> fx" "fx < dim (filter_shape a) 2"
    and "in_image a y x"
  shows "unrolled_channels nd a (dim (input_shape a) 3) b k fy fx y x acc =
    Some (acc + word_of_int (tap_sum a (sint (input_offset (params a))) b k fy fx y x))"
proof -
  have "unrolled_channels nd a (dim (input_shape a) 3) b k fy fx y x acc =
    Some (acc + (\<Sum>c\<in>{0..<dim (input_shape a) 3}.
      word_of_int (filter_at a k fy fx c * (input_at a b y x c + sint (input_offset (params a))))))"
    unfolding unrolled_channels_def
  proof (rule cfor_sum_block)
    fix c and acc :: i32
    assume c: "0 \<le> c" "c < dim (input_shape a) 3" "4 dvd (c - 0)"
    then have "c + 3 < dim (input_shape a) 3" using assms(1) dvd4_room by blast
    note v = load_input_value [OF assms(2) tap_index(1) [OF assms(2-8)]]
      load_filter_value [OF assms(2) tap_index(2) [OF assms(2-8)]]
    show "do {
       input_val1 \<leftarrow> load_input nd a b y x c;
       filter_val1 \<leftarrow> load_filter nd a k fy fx c;
       input_val2 \<leftarrow> load_input nd a b y x (c + 1);
       filter_val2 \<leftarrow> load_filter nd a k fy fx (c + 1);
       input_val3 \<leftarrow> load_input nd a b y x (c + 2);
       filter_val3 \<leftarrow> load_filter nd a k fy fx (c + 2);
       input_val4 \<leftarrow> load_input nd a b y x (c + 3);
       filter_val4 \<leftarrow> load_filter nd a k fy fx (c + 3);
       let acc = acc + filter_val1 * (input_val1 + input_offset (params a));
       let acc = acc + filter_val2 * (input_val2 + input_offset (params a));
       let acc = acc + filter_val3 * (input_val3 + input_offset (params a));
       let acc = acc + filter_val4 * (input_val4 + input_offset (params a));
       Some acc } =
      Some (acc + (\<Sum>j\<in>{c..<c + 4}.
        word_of_int (filter_at a k fy fx j * (input_at a b y x j + sint (input_offset (params a))))))"
      using c \<open>c + 3 < dim (input_shape a) 3\<close> unfolding sum_four by (simp add: v Let_def add.assoc)
  qed (use assms(1) in auto)
  then show ?thesis using assms(8) by (simp add: tap_sum_def word_of_int_sum)
qed

lemma unrolled_nest_value:
  assumes "conv_ok a" and "int (length output_data) = elems (output_shape a)"
    and "\<And>b oy ox k fy fx y x acc. index4 (output_shape a) b oy ox k \<Longrightarrow>
      0 \<le> fy \<Longrightarrow> fy < dim (filter_shape a) 1 \<Longrightarrow> 0 \<le> fx \<Longrightarrow> fx < dim (filter_shape a) 2 \<Longrightarrow> in_image a y x \<Longrightarrow>
      channels b k fy fx y x acc = Some (acc + word_of_int (tap_sum a (sint (input_offset (params a))) b k fy fx y x))"
  shows "unrolled_nest channels nd a (dim (output_shape a) 0) (dim (output_shape a) 3) (dim (input_shape a) 1)
      (dim (input_shape a) 2) (dim (filter_shape a) 1) (dim (filter_shape a) 2) (dim (output_shape a) 1)
      (dim (output_shape a) 2) output_data =
    Some (map (\<lambda>i. at_output a (conv_out a (sint (input_offset (params a))) (output_offset (params a))) (int i))
      [0..<length output_data])"
  unfolding unrolled_nest_def Let_def in_image_def [symmetric]
  by (rule conv_loops [OF assms(1,2), where inner = channels, OF assms(3)])
    (simp_all only: conv_sum_def [symmetric] output_stage [OF assms(1)])

lemma unrolled_ConvPerChannel_value:
  assumes "conv_ok a" and "int (length output_data) = elems (output_shape a)"
    and "dim (input_shape a) 3 = 1 \<or> 4 dvd dim (input_shape a) 3"
  shows "unrolled_ConvPerChannel nd a output_data =
    Some (map (\<lambda>i. at_output a (conv_out a (sint (input_offset (params a))) (output_offset (params a))) (int i))
      [0..<length output_data])"
proof (cases "dim (input_shape a) 3 = 1")
  case True
  then show ?thesis
    unfolding unrolled_ConvPerChannel_def conv_prologue [OF assms(1)] Option.bind.simps(2)
    by (simp only: if_True simp_thms) (intro unrolled_nest_value [OF assms(1,2)] baseline_channels_value [OF assms(1), unfolded True])
next
  case False
  with assms(3) have "4 dvd dim (input_shape a) 3" by simp
  from unrolled_channels_value [OF this assms(1)] False show ?thesis
    unfolding unrolled_ConvPerChannel_def conv_prologue [OF assms(1)] Option.bind.simps(2)
    by (simp only: if_False) (intro unrolled_nest_value [OF assms(1,2)])
qed

end
