(* ===== verification/Simd_Mac.thy ===== *)
theory Simd_Mac
  imports Mac
begin

text \<open>
  The function unit of \<open>proj/example_renode\<close>: the instruction \<open>SimdMac\<close> of its \<open>cfu.py\<close> inside
  the state machine \<open>Cfu\<close> of \<open>python/amaranth_cfu/cfu.py\<close>, one clock cycle at a time (\<open>m.d.comb\<close>
  are functions of the state and the inputs, \<open>m.d.sync\<close> takes effect in the next state). The
  locale \<open>simd_mac\<close> is the interface its kernels use; the interpretation \<open>gateware\<close> proves that
  the cycles of the state machine provide it.
\<close>

section \<open>The instruction\<close>

text \<open>\<open>Signal(signed(16))\<close> for each of the four products.\<close>

definition simd_prod :: "i32 \<Rightarrow> i32 \<Rightarrow> nat \<Rightarrow> i16" where
  "simd_prod in0 in1 k = word_of_int ((sint (byte k in0) + 128) * sint (byte k in1))"

definition SimdMac_output :: "7 word \<Rightarrow> i32 \<Rightarrow> i32 \<Rightarrow> i32 \<Rightarrow> i32" where
  "SimdMac_output funct7 in0 in1 output =
     (if funct7 \<noteq> 0 then 0
      else output + scast (simd_prod in0 in1 0) + scast (simd_prod in0 in1 1) +
        scast (simd_prod in0 in1 2) + scast (simd_prod in0 in1 3))"

section \<open>The state machine\<close>

datatype fsm = WAIT_CMD | WAIT_INSTRUCTION | WAIT_TRANSFER

record simd_cfu =
  state :: fsm
  stored_function_id :: "3 word"
  stored_output :: i32
  mac_output :: i32
  mac_done :: bool

record simd_in =
  s_cmd_valid :: bool
  s_function_id :: "10 word"
  s_in0 :: i32
  s_in1 :: i32
  s_rsp_ready :: bool

definition s_funct3 :: "simd_in \<Rightarrow> 3 word" where
  "s_funct3 i = ucast (s_function_id i)"

definition s_funct7 :: "simd_in \<Rightarrow> 7 word" where
  "s_funct7 i = ucast (drop_bit 3 (s_function_id i))"

definition s_cmd_ready :: "simd_cfu \<Rightarrow> bool" where
  "s_cmd_ready s = (state s = WAIT_CMD)"

definition current_function_id :: "simd_cfu \<Rightarrow> simd_in \<Rightarrow> 3 word" where
  "current_function_id s i =
     (case state s of WAIT_CMD \<Rightarrow> s_funct3 i | WAIT_INSTRUCTION \<Rightarrow> stored_function_id s | WAIT_TRANSFER \<Rightarrow> 0)"

text \<open>The functions other than 0 are the fallback: done at once, with their first operand.\<close>

definition instruction_done :: "simd_cfu \<Rightarrow> 3 word \<Rightarrow> bool" where
  "instruction_done s f = (if f = 0 then mac_done s else True)"

definition instruction_output :: "simd_cfu \<Rightarrow> simd_in \<Rightarrow> 3 word \<Rightarrow> i32" where
  "instruction_output s i f = (if f = 0 then mac_output s else s_in0 i)"

text \<open>An instruction is being watched for completion.\<close>

definition watching :: "simd_cfu \<Rightarrow> simd_in \<Rightarrow> bool" where
  "watching s i = (case state s of WAIT_CMD \<Rightarrow> s_cmd_valid i | WAIT_INSTRUCTION \<Rightarrow> True | WAIT_TRANSFER \<Rightarrow> False)"

definition s_rsp_valid :: "simd_cfu \<Rightarrow> simd_in \<Rightarrow> bool" where
  "s_rsp_valid s i = (state s = WAIT_TRANSFER \<or>
     watching s i \<and> instruction_done s (current_function_id s i))"

definition s_rsp_out :: "simd_cfu \<Rightarrow> simd_in \<Rightarrow> i32" where
  "s_rsp_out s i =
     (if state s = WAIT_TRANSFER then stored_output s
      else instruction_output s i (current_function_id s i))"

definition next_state :: "simd_cfu \<Rightarrow> simd_in \<Rightarrow> fsm" where
  "next_state s i =
     (if state s = WAIT_TRANSFER then (if s_rsp_ready i then WAIT_CMD else WAIT_TRANSFER)
      else if watching s i then
        (if instruction_done s (current_function_id s i)
         then (if s_rsp_ready i then WAIT_CMD else WAIT_TRANSFER)
         else WAIT_INSTRUCTION)
      else state s)"

definition simd_step :: "simd_in \<Rightarrow> simd_cfu \<Rightarrow> simd_cfu" where
  "simd_step i s = (
     let start = (state s = WAIT_CMD \<and> s_cmd_valid i \<and> s_funct3 i = 0)
     in \<lparr>state = next_state s i,
         stored_function_id = (if state s = WAIT_CMD \<and> s_cmd_valid i then s_funct3 i else stored_function_id s),
         stored_output = (if watching s i \<and> instruction_done s (current_function_id s i) \<and> \<not> s_rsp_ready i
           then instruction_output s i (current_function_id s i) else stored_output s),
         mac_output = (if start then SimdMac_output (s_funct7 i) (s_in0 i) (s_in1 i) (mac_output s) else mac_output s),
         mac_done = start\<rparr>)"

section \<open>One custom instruction\<close>

definition s_command :: "3 word \<Rightarrow> 7 word \<Rightarrow> i32 \<Rightarrow> i32 \<Rightarrow> bool \<Rightarrow> simd_in" where
  "s_command funct3 funct7 rs1 rs2 ready = \<lparr>s_cmd_valid = True,
     s_function_id = push_bit 3 (ucast funct7) OR ucast funct3, s_in0 = rs1, s_in1 = rs2, s_rsp_ready = ready\<rparr>"

definition s_idle :: "bool \<Rightarrow> simd_in" where
  "s_idle ready = \<lparr>s_cmd_valid = False, s_function_id = 0, s_in0 = 0, s_in1 = 0, s_rsp_ready = ready\<rparr>"

text \<open>
  The CPU takes the response \<open>delay\<close> cycles after the unit offers it.
\<close>

fun await :: "nat \<Rightarrow> simd_cfu \<Rightarrow> (i32 \<times> simd_cfu) option" where
  "await 0 s = (if s_rsp_valid s (s_idle True) then Some (s_rsp_out s (s_idle True), simd_step (s_idle True) s) else None)"
| "await (Suc delay) s = (if s_rsp_valid s (s_idle False) then await delay (simd_step (s_idle False) s) else None)"

definition simd_op :: "nat \<Rightarrow> 3 word \<Rightarrow> 7 word \<Rightarrow> i32 \<Rightarrow> i32 \<Rightarrow> simd_cfu \<Rightarrow> (i32 \<times> simd_cfu) option" where
  "simd_op delay funct3 funct7 rs1 rs2 s =
     (if s_cmd_ready s then
        let ready = (delay = 0); i = s_command funct3 funct7 rs1 rs2 ready; s' = simd_step i s
        in if s_rsp_valid s i
           then if ready then Some (s_rsp_out s i, s') else await (delay - 1) s'
           else await delay s'
      else None)"

definition simd_init :: simd_cfu where
  "simd_init = \<lparr>state = WAIT_CMD, stored_function_id = 0, stored_output = 0, mac_output = 0, mac_done = False\<rparr>"

section \<open>What the instruction computes\<close>

text \<open>The products fit their 16 bits.\<close>

lemma sint_simd_prod: "sint (simd_prod x w k) = (sint (byte k x) + 128) * sint (byte k w)"
proof -
  have "0 \<le> sint (byte k x) + 128" "sint (byte k x) + 128 \<le> 255" "\<bar>sint (byte k w)\<bar> \<le> 128"
    using sint8_range [of "byte k x"] sint8_range [of "byte k w"] by auto
  then have "\<bar>(sint (byte k x) + 128) * sint (byte k w)\<bar> \<le> 255 * 128"
    unfolding abs_mult by (intro mult_mono) auto
  then show ?thesis unfolding simd_prod_def by (intro sint16_of_int) auto
qed

lemma SimdMac_accumulates: "SimdMac_output 0 x w out = out + word_of_int (dot4 x w)"
  by (simp add: SimdMac_output_def scast_sint [of "simd_prod _ _ _"] sint_simd_prod dot4_def add.assoc
      del: of_int_mult of_int_add) (simp add: add.assoc)

lemma SimdMac_resets: "f \<noteq> 0 \<Longrightarrow> SimdMac_output f x w out = 0"
  by (simp add: SimdMac_output_def)

section \<open>The interface\<close>

locale simd_mac =
  fixes op :: "7 word \<Rightarrow> i32 \<Rightarrow> i32 \<Rightarrow> 'c \<Rightarrow> (i32 \<times> 'c) option"
    and inv :: "'c \<Rightarrow> bool"
    and total :: "'c \<Rightarrow> i32"
  assumes reset: "inv s \<Longrightarrow> ok (op 1 0 0 s) (\<lambda>(r, s'). r = 0 \<and> inv s' \<and> total s' = 0)"
    and mac: "inv s \<Longrightarrow> ok (op 0 x w s) (\<lambda>(r, s'). r = total s + word_of_int (dot4 x w) \<and> inv s' \<and> total s' = r)"

section \<open>The gateware provides it\<close>

definition simd_idle :: "simd_cfu \<Rightarrow> bool" where
  "simd_idle s \<longleftrightarrow> state s = WAIT_CMD \<and> \<not> mac_done s"

lemma s_command_fields [simp]:
  "s_funct3 (s_command f3 f7 a b r) = f3" "s_funct7 (s_command f3 f7 a b r) = f7"
  "s_cmd_valid (s_command f3 f7 a b r)" "s_in0 (s_command f3 f7 a b r) = a" "s_in1 (s_command f3 f7 a b r) = b"
  "s_rsp_ready (s_command f3 f7 a b r) = r" "\<not> s_cmd_valid (s_idle r)" "s_rsp_ready (s_idle r) = r"
proof -
  show "s_funct3 (s_command f3 f7 a b r) = f3"
    by (rule bit_word_eqI) (auto simp: s_funct3_def s_command_def bit_simps)
  show "s_funct7 (s_command f3 f7 a b r) = f7"
    by (rule bit_word_eqI) (auto simp: s_funct7_def s_command_def bit_simps dest: bit_imp_le_length)
qed (simp_all add: s_command_def s_idle_def)

lemmas fsm_simps = simd_step_def next_state_def watching_def current_function_id_def instruction_done_def
  instruction_output_def s_rsp_valid_def s_rsp_out_def Let_def

text \<open>Waiting for the CPU keeps the response, whatever the delay.\<close>

lemma await_transfer:
  assumes "state s = WAIT_TRANSFER" and "\<not> mac_done s"
  shows "await n s = Some (stored_output s, s\<lparr>state := WAIT_CMD\<rparr>)"
  using assms by (induction n arbitrary: s) (simp_all add: fsm_simps)

lemma simd_op_mac:
  assumes "simd_idle s"
  shows "ok (simd_op n 0 f a b s) (\<lambda>(r, s'). r = SimdMac_output f a b (mac_output s) \<and> simd_idle s' \<and> mac_output s' = r)"
proof -
  define t where "t = simd_step (s_command 0 f a b (n = 0)) s"
  have t: "state t = WAIT_INSTRUCTION" "stored_function_id t = 0" "mac_done t"
    "mac_output t = SimdMac_output f a b (mac_output s)"
    using assms by (simp_all add: t_def simd_idle_def fsm_simps)
  have "simd_op n 0 f a b s = await n t"
    using assms by (simp add: simd_op_def s_cmd_ready_def simd_idle_def t_def Let_def s_rsp_valid_def watching_def
        instruction_done_def current_function_id_def)
  also have "\<dots> = Some (mac_output t, (case n of 0 \<Rightarrow> simd_step (s_idle True) t
      | Suc _ \<Rightarrow> (simd_step (s_idle False) t)\<lparr>state := WAIT_CMD\<rparr>))"
    using t by (cases n) (simp_all add: await_transfer fsm_simps)
  finally show ?thesis
    using t by (cases n) (simp_all add: ok_Some simd_idle_def fsm_simps)
qed

interpretation gateware: simd_mac "simd_op delay 0" simd_idle mac_output
proof
  fix s assume s: "simd_idle s"
  show "ok (simd_op delay 0 1 0 0 s) (\<lambda>(r, s'). r = 0 \<and> simd_idle s' \<and> mac_output s' = 0)"
    by (rule ok_mono [OF simd_op_mac [OF s]]) (auto simp: SimdMac_resets)
  show "ok (simd_op delay 0 0 x w s)
      (\<lambda>(r, s'). r = mac_output s + word_of_int (dot4 x w) \<and> simd_idle s' \<and> mac_output s' = r)" for x w
    by (rule ok_mono [OF simd_op_mac [OF s]]) (auto simp: SimdMac_accumulates)
qed

section \<open>Properties\<close>

text \<open>
  C12. The custom instruction takes effect once and returns the new accumulator, however many
  cycles the CPU waits before it takes the response.
\<close>

theorem simd_op_any_delay:
  assumes "simd_idle s"
  shows "\<exists>s'. simd_op n 0 f a b s = Some (SimdMac_output f a b (mac_output s), s') \<and> simd_idle s' \<and>
    mac_output s' = SimdMac_output f a b (mac_output s)"
  using simd_op_mac [OF assms, of n f a b] by (auto simp: ok_iff)

theorem simd_op_any_delay_witness:
  "\<exists>s'. simd_op 2 0 0 0x02 0x03 simd_init = Some (390, s') \<and> simd_idle s' \<and> mac_output s' = 390"
proof -
  have "simd_idle simd_init" by (simp add: simd_idle_def simd_init_def)
  moreover have "SimdMac_output 0 0x02 0x03 (mac_output simd_init) = 390" by code_simp
  ultimately show ?thesis using simd_op_any_delay [of simd_init 2 0 "0x02" "0x03"] by simp
qed

text \<open>
  The functions without an instruction return their first operand at once and leave the
  accumulator alone.
\<close>

theorem simd_fallback:
  assumes "simd_idle s" and "f3 \<noteq> 0"
  shows "\<exists>s'. simd_op n f3 f7 a b s = Some (a, s') \<and> simd_idle s' \<and> mac_output s' = mac_output s"
proof (cases n)
  case 0
  then show ?thesis using assms by (simp add: simd_op_def s_cmd_ready_def simd_idle_def fsm_simps)
next
  case (Suc m)
  then show ?thesis using assms
    by (simp add: simd_op_def s_cmd_ready_def simd_idle_def fsm_simps await_transfer)
qed

theorem simd_fallback_witness: "\<exists>s'. simd_op 3 5 0 11 22 simd_init = Some (11, s') \<and> mac_output s' = 0"
proof -
  have "simd_idle simd_init" by (simp add: simd_idle_def simd_init_def)
  from simd_fallback [OF this, of 5 3 0 11 22] show ?thesis by (auto simp: simd_init_def)
qed

end
