(* ===== verification/Renode_Conv.thy ===== *)
theory Renode_Conv
  imports Conv_Unrolled Simd_Mac
begin

text \<open>
  The kernels of \<open>proj/example_renode\<close>, which replace the parameters of the model they serve by
  literals (a filter of 3 by 3, unit stride, no padding, an input offset of 128 and an output
  offset of -128): \<open>conv_constant.h\<close>, \<open>conv_unrolled.h\<close>, and \<open>conv_simd.h\<close> and \<open>conv_final.h\<close>,
  which compute four products with each custom instruction. The last two are proved for every
  unit with the interface \<open>simd_mac\<close> and then for the gateware of the project. Their branch for
  one input channel does not compute the convolution: it sign-extends the operands, so the three
  unused lanes contribute; \<open>simd1_tap_error\<close> says how much.
\<close>

section \<open>The constant and the unrolled kernel\<close>

definition constant_channels ::
  "bool \<Rightarrow> (i8, i32) conv_args \<Rightarrow> int \<Rightarrow> int \<Rightarrow> int \<Rightarrow> int \<Rightarrow> int \<Rightarrow> int \<Rightarrow> int \<Rightarrow> i32 \<Rightarrow> i32 option" where
  "constant_channels nd a input_depth batch out_channel filter_y filter_x in_y in_x =
     cfor 0 input_depth 1 (\<lambda>in_channel acc. do {
       input_val \<leftarrow> load_input nd a batch in_y in_x in_channel;
       filter_val \<leftarrow> load_filter nd a out_channel filter_y filter_x in_channel;
       Some (acc + filter_val * (input_val + 128)) })"

definition renode_channels4 ::
  "bool \<Rightarrow> (i8, i32) conv_args \<Rightarrow> int \<Rightarrow> int \<Rightarrow> int \<Rightarrow> int \<Rightarrow> int \<Rightarrow> int \<Rightarrow> int \<Rightarrow> i32 \<Rightarrow> i32 option" where
  "renode_channels4 nd a input_depth batch out_channel filter_y filter_x in_y in_x =
     cfor 0 input_depth 4 (\<lambda>in_channel acc. do {
       input_val \<leftarrow> load_input nd a batch in_y in_x in_channel;
       filter_val \<leftarrow> load_filter nd a out_channel filter_y filter_x in_channel;
       let acc = acc + filter_val * (input_val + 128);
       input_val \<leftarrow> load_input nd a batch in_y in_x (in_channel + 1);
       filter_val \<leftarrow> load_filter nd a out_channel filter_y filter_x (in_channel + 1);
       let acc = acc + filter_val * (input_val + 128);
       input_val \<leftarrow> load_input nd a batch in_y in_x (in_channel + 2);
       filter_val \<leftarrow> load_filter nd a out_channel filter_y filter_x (in_channel + 2);
       let acc = acc + filter_val * (input_val + 128);
       input_val \<leftarrow> load_input nd a batch in_y in_x (in_channel + 3);
       filter_val \<leftarrow> load_filter nd a out_channel filter_y filter_x (in_channel + 3);
       let acc = acc + filter_val * (input_val + 128);
       Some acc })"

definition renode_single ::
  "bool \<Rightarrow> (i8, i32) conv_args \<Rightarrow> int \<Rightarrow> int \<Rightarrow> int \<Rightarrow> int \<Rightarrow> int \<Rightarrow> int \<Rightarrow> i32 \<Rightarrow> i32 option" where
  "renode_single nd a batch out_channel filter_y filter_x in_y in_x acc = do {
     input_val_1 \<leftarrow> load_input nd a batch in_y in_x 0;
     filter_val_1 \<leftarrow> load_filter nd a out_channel filter_y filter_x 0;
     Some (acc + filter_val_1 * (input_val_1 + 128)) }"

text \<open>The loop nest around them, the same in the three branches of the two kernels.\<close>

definition renode_nest ::
  "(int \<Rightarrow> int \<Rightarrow> int \<Rightarrow> int \<Rightarrow> int \<Rightarrow> int \<Rightarrow> i32 \<Rightarrow> i32 option) \<Rightarrow> bool \<Rightarrow> (i8, i32) conv_args \<Rightarrow>
   int \<Rightarrow> int \<Rightarrow> int \<Rightarrow> int \<Rightarrow> int \<Rightarrow> int \<Rightarrow> i8 list \<Rightarrow> i8 list option" where
  "renode_nest channels nd a batches output_depth input_height input_width output_height output_width =
     cfor 0 batches 1 (\<lambda>batch.
       cfor 0 output_height 1 (\<lambda>out_y.
         let in_y_origin = out_y in
         cfor 0 output_width 1 (\<lambda>out_x.
           let in_x_origin = out_x in
           cfor 0 output_depth 1 (\<lambda>out_channel output_data. do {
             acc \<leftarrow> cfor 0 3 1 (\<lambda>filter_y.
               let in_y = in_y_origin + filter_y in
               cfor 0 3 1 (\<lambda>filter_x acc.
                 let in_x = in_x_origin + filter_x in
                 if \<not> point_inside input_height input_width in_y in_x then Some acc
                 else channels batch out_channel filter_y filter_x in_y in_x acc)) 0;
             acc \<leftarrow> add_bias a out_channel acc;
             v \<leftarrow> requantize a (- 128) out_channel acc;
             store_output nd a batch out_y out_x out_channel v output_data }))))"

definition constant_ConvPerChannel :: "bool \<Rightarrow> (i8, i32) conv_args \<Rightarrow> i8 list \<Rightarrow> i8 list option" where
  "constant_ConvPerChannel nd a output_data = do {
     conv_checks nd a;
     batches \<leftarrow> MatchingDim nd (input_shape a) 0 (output_shape a) 0;
     input_depth \<leftarrow> MatchingDim nd (input_shape a) 3 (filter_shape a) 3;
     output_depth \<leftarrow> MatchingDim nd (filter_shape a) 0 (output_shape a) 3;
     bias_check nd a output_depth;
     input_height \<leftarrow> Dims nd (input_shape a) 1;
     input_width \<leftarrow> Dims nd (input_shape a) 2;
     output_height \<leftarrow> Dims nd (output_shape a) 1;
     output_width \<leftarrow> Dims nd (output_shape a) 2;
     renode_nest (constant_channels nd a input_depth) nd a batches output_depth input_height input_width
       output_height output_width output_data }"

text \<open>For an input depth other than 12 and 1 the kernel leaves the output as it is.\<close>

definition renode_ConvPerChannel :: "bool \<Rightarrow> (i8, i32) conv_args \<Rightarrow> i8 list \<Rightarrow> i8 list option" where
  "renode_ConvPerChannel nd a output_data = do {
     conv_checks nd a;
     batches \<leftarrow> MatchingDim nd (input_shape a) 0 (output_shape a) 0;
     input_depth \<leftarrow> MatchingDim nd (input_shape a) 3 (filter_shape a) 3;
     output_depth \<leftarrow> MatchingDim nd (filter_shape a) 0 (output_shape a) 3;
     bias_check nd a output_depth;
     input_height \<leftarrow> Dims nd (input_shape a) 1;
     input_width \<leftarrow> Dims nd (input_shape a) 2;
     output_height \<leftarrow> Dims nd (output_shape a) 1;
     output_width \<leftarrow> Dims nd (output_shape a) 2;
     output_data \<leftarrow> (if input_depth = 12
       then renode_nest (renode_channels4 nd a input_depth) nd a batches output_depth input_height input_width
         output_height output_width output_data
       else Some output_data);
     if input_depth = 1
     then renode_nest (renode_single nd a) nd a batches output_depth input_height input_width
       output_height output_width output_data
     else Some output_data }"

section \<open>The SIMD kernels\<close>

text \<open>Twelve channels, four with each instruction.\<close>

definition simd_channels ::
  "(7 word \<Rightarrow> i32 \<Rightarrow> i32 \<Rightarrow> 'c \<Rightarrow> (i32 \<times> 'c) option) \<Rightarrow> bool \<Rightarrow> (i8, i32) conv_args \<Rightarrow> int \<Rightarrow>
   int \<Rightarrow> int \<Rightarrow> int \<Rightarrow> int \<Rightarrow> int \<Rightarrow> int \<Rightarrow> i32 \<times> 'c \<Rightarrow> (i32 \<times> 'c) option" where
  "simd_channels op nd a input_depth batch out_channel filter_y filter_x in_y in_x =
     cfor 0 input_depth 4 (\<lambda>in_channel (acc, s). do {
       i \<leftarrow> Offset nd (input_shape a) batch in_y in_x in_channel;
       input_val \<leftarrow> load32 (input_data a) i;
       i \<leftarrow> Offset nd (filter_shape a) out_channel filter_y filter_x in_channel;
       filter_val \<leftarrow> load32 (filter_data a) i;
       op 0 input_val filter_val s })"

text \<open>One channel: the bytes are converted to \<open>uint32_t\<close>, which extends their sign.\<close>

definition simd_single ::
  "(7 word \<Rightarrow> i32 \<Rightarrow> i32 \<Rightarrow> 'c \<Rightarrow> (i32 \<times> 'c) option) \<Rightarrow> bool \<Rightarrow> (i8, i32) conv_args \<Rightarrow>
   int \<Rightarrow> int \<Rightarrow> int \<Rightarrow> int \<Rightarrow> int \<Rightarrow> int \<Rightarrow> i32 \<times> 'c \<Rightarrow> (i32 \<times> 'c) option" where
  "simd_single op nd a batch out_channel filter_y filter_x in_y in_x = (\<lambda>(acc, s). do {
     input_val_1 \<leftarrow> load_input nd a batch in_y in_x 0;
     filter_val_1 \<leftarrow> load_filter nd a out_channel filter_y filter_x 0;
     op 0 input_val_1 filter_val_1 s })"

definition simd_nest ::
  "(7 word \<Rightarrow> i32 \<Rightarrow> i32 \<Rightarrow> 'c \<Rightarrow> (i32 \<times> 'c) option) \<Rightarrow>
   (int \<Rightarrow> int \<Rightarrow> int \<Rightarrow> int \<Rightarrow> int \<Rightarrow> int \<Rightarrow> i32 \<times> 'c \<Rightarrow> (i32 \<times> 'c) option) \<Rightarrow> bool \<Rightarrow> (i8, i32) conv_args \<Rightarrow>
   int \<Rightarrow> int \<Rightarrow> int \<Rightarrow> int \<Rightarrow> int \<Rightarrow> int \<Rightarrow> 'c \<times> i8 list \<Rightarrow> ('c \<times> i8 list) option" where
  "simd_nest op channels nd a batches output_depth input_height input_width output_height output_width =
     cfor 0 batches 1 (\<lambda>batch.
       cfor 0 output_height 1 (\<lambda>out_y.
         let in_y_origin = out_y in
         cfor 0 output_width 1 (\<lambda>out_x.
           let in_x_origin = out_x in
           cfor 0 output_depth 1 (\<lambda>out_channel (s, output_data). do {
             (acc, s) \<leftarrow> op 1 0 0 s;
             (acc, s) \<leftarrow> cfor 0 3 1 (\<lambda>filter_y.
               let in_y = in_y_origin + filter_y in
               cfor 0 3 1 (\<lambda>filter_x (acc, s).
                 let in_x = in_x_origin + filter_x in
                 if \<not> point_inside input_height input_width in_y in_x then Some (acc, s)
                 else channels batch out_channel filter_y filter_x in_y in_x (acc, s))) (acc, s);
             acc \<leftarrow> add_bias a out_channel acc;
             v \<leftarrow> requantize a (- 128) out_channel acc;
             output_data \<leftarrow> store_output nd a batch out_y out_x out_channel v output_data;
             Some (s, output_data) }))))"

definition simd_ConvPerChannel ::
  "(7 word \<Rightarrow> i32 \<Rightarrow> i32 \<Rightarrow> 'c \<Rightarrow> (i32 \<times> 'c) option) \<Rightarrow> bool \<Rightarrow> (i8, i32) conv_args \<Rightarrow>
   'c \<times> i8 list \<Rightarrow> ('c \<times> i8 list) option" where
  "simd_ConvPerChannel op nd a st = do {
     conv_checks nd a;
     batches \<leftarrow> MatchingDim nd (input_shape a) 0 (output_shape a) 0;
     input_depth \<leftarrow> MatchingDim nd (input_shape a) 3 (filter_shape a) 3;
     output_depth \<leftarrow> MatchingDim nd (filter_shape a) 0 (output_shape a) 3;
     bias_check nd a output_depth;
     input_height \<leftarrow> Dims nd (input_shape a) 1;
     input_width \<leftarrow> Dims nd (input_shape a) 2;
     output_height \<leftarrow> Dims nd (output_shape a) 1;
     output_width \<leftarrow> Dims nd (output_shape a) 2;
     st \<leftarrow> (if input_depth = 12
       then simd_nest op (simd_channels op nd a input_depth) nd a batches output_depth input_height input_width
         output_height output_width st
       else Some st);
     if input_depth = 1
     then simd_nest op (simd_single op nd a) nd a batches output_depth input_height input_width
       output_height output_width st
     else Some st }"

text \<open>The final kernel: the bounds of the loops are those of one model.\<close>

definition final_ConvPerChannel ::
  "(7 word \<Rightarrow> i32 \<Rightarrow> i32 \<Rightarrow> 'c \<Rightarrow> (i32 \<times> 'c) option) \<Rightarrow> bool \<Rightarrow> (i8, i32) conv_args \<Rightarrow>
   'c \<times> i8 list \<Rightarrow> ('c \<times> i8 list) option" where
  "final_ConvPerChannel op nd a st = do {
     conv_checks nd a;
     input_depth \<leftarrow> MatchingDim nd (input_shape a) 3 (filter_shape a) 3;
     output_depth \<leftarrow> MatchingDim nd (filter_shape a) 0 (output_shape a) 3;
     bias_check nd a output_depth;
     input_height \<leftarrow> Dims nd (input_shape a) 1;
     input_width \<leftarrow> Dims nd (input_shape a) 2;
     st \<leftarrow> (if input_depth = 12
       then simd_nest op (simd_channels op nd a 12) nd a 1 12 input_height input_width 24 24 st
       else Some st);
     if input_depth = 1
     then simd_nest op (simd_single op nd a) nd a 1 12 input_height input_width 26 26 st
     else Some st }"

text \<open>
  The 16-bit kernels of the four files are the text of the one in the baseline project's \<open>conv.h\<close>.
\<close>

definition constant_ConvPerChannel16 ::
  "('w word \<Rightarrow> i32 \<Rightarrow> int \<Rightarrow> i32 option) \<Rightarrow> bool \<Rightarrow> (i16, 'w::len word) conv_args \<Rightarrow> i16 list \<Rightarrow> i16 list option" where
  "constant_ConvPerChannel16 = baseline_ConvPerChannel16"

definition renode_ConvPerChannel16 ::
  "('w word \<Rightarrow> i32 \<Rightarrow> int \<Rightarrow> i32 option) \<Rightarrow> bool \<Rightarrow> (i16, 'w::len word) conv_args \<Rightarrow> i16 list \<Rightarrow> i16 list option" where
  "renode_ConvPerChannel16 = baseline_ConvPerChannel16"

definition simd_ConvPerChannel16 ::
  "('w word \<Rightarrow> i32 \<Rightarrow> int \<Rightarrow> i32 option) \<Rightarrow> bool \<Rightarrow> (i16, 'w::len word) conv_args \<Rightarrow> i16 list \<Rightarrow> i16 list option" where
  "simd_ConvPerChannel16 = baseline_ConvPerChannel16"

definition final_ConvPerChannel16 ::
  "('w word \<Rightarrow> i32 \<Rightarrow> int \<Rightarrow> i32 option) \<Rightarrow> bool \<Rightarrow> (i16, 'w::len word) conv_args \<Rightarrow> i16 list \<Rightarrow> i16 list option" where
  "final_ConvPerChannel16 = baseline_ConvPerChannel16"

section \<open>The kernels without the unit\<close>

text \<open>The arguments that the literals of the kernels fit.\<close>

definition renode_ok :: "(i8, i32) conv_args \<Rightarrow> bool" where
  "renode_ok a \<longleftrightarrow> conv_ok a \<and> dim (filter_shape a) 1 = 3 \<and> dim (filter_shape a) 2 = 3 \<and>
     stride_width (params a) = 1 \<and> stride_height (params a) = 1 \<and>
     dilation_width_factor (params a) = 1 \<and> dilation_height_factor (params a) = 1 \<and>
     pad_width (padding_values (params a)) = 0 \<and> pad_height (padding_values (params a)) = 0"

lemma renode_okD:
  assumes "renode_ok a"
  shows "conv_ok a" "dim (filter_shape a) 1 = 3" "dim (filter_shape a) 2 = 3"
  using assms by (simp_all add: renode_ok_def)

lemma renode_conv_sum: "renode_ok a \<Longrightarrow> conv_sum a zp b oy ox k = conv_sum_at a zp 1 1 b k oy ox"
  by (simp add: conv_sum_def renode_ok_def)

lemma tap_sum_128:
  "in_image a y x \<Longrightarrow> word_of_int (tap_sum a 128 b k fy fx y x) =
    (\<Sum>c\<in>{0..<dim (input_shape a) 3}. word_of_int (filter_at a k fy fx c * (input_at a b y x c + 128)))"
  by (simp add: tap_sum_def word_of_int_sum)

lemma constant_channels_value:
  assumes "conv_ok a" and "index4 (output_shape a) b oy ox k"
    and "0 \<le> fy" "fy < dim (filter_shape a) 1" "0 \<le> fx" "fx < dim (filter_shape a) 2"
    and "in_image a y x"
  shows "constant_channels nd a (dim (input_shape a) 3) b k fy fx y x acc =
    Some (acc + word_of_int (tap_sum a 128 b k fy fx y x))"
  unfolding tap_sum_128 [OF assms(7)] constant_channels_def
  by (intro cfor_sum) (simp add: load_input_value [OF assms(1)] load_filter_value [OF assms(1)] tap_index [OF assms])

lemma renode_channels4_value:
  assumes "4 dvd dim (input_shape a) 3" and "conv_ok a" and "index4 (output_shape a) b oy ox k"
    and "0 \<le> fy" "fy < dim (filter_shape a) 1" "0 \<le> fx" "fx < dim (filter_shape a) 2"
    and "in_image a y x"
  shows "renode_channels4 nd a (dim (input_shape a) 3) b k fy fx y x acc =
    Some (acc + word_of_int (tap_sum a 128 b k fy fx y x))"
  unfolding tap_sum_128 [OF assms(8)] renode_channels4_def
proof (rule cfor_sum_block)
  fix c and acc :: i32
  assume c: "0 \<le> c" "c < dim (input_shape a) 3" "4 dvd (c - 0)"
  then have "c + 3 < dim (input_shape a) 3" using assms(1) dvd4_room by blast
  note v = load_input_value [OF assms(2) tap_index(1) [OF assms(2-8)]]
    load_filter_value [OF assms(2) tap_index(2) [OF assms(2-8)]]
  show "do {
     input_val \<leftarrow> load_input nd a b y x c;
     filter_val \<leftarrow> load_filter nd a k fy fx c;
     let acc = acc + filter_val * (input_val + 128);
     input_val \<leftarrow> load_input nd a b y x (c + 1);
     filter_val \<leftarrow> load_filter nd a k fy fx (c + 1);
     let acc = acc + filter_val * (input_val + 128);
     input_val \<leftarrow> load_input nd a b y x (c + 2);
     filter_val \<leftarrow> load_filter nd a k fy fx (c + 2);
     let acc = acc + filter_val * (input_val + 128);
     input_val \<leftarrow> load_input nd a b y x (c + 3);
     filter_val \<leftarrow> load_filter nd a k fy fx (c + 3);
     let acc = acc + filter_val * (input_val + 128);
     Some acc } =
    Some (acc + (\<Sum>j\<in>{c..<c + 4}. word_of_int (filter_at a k fy fx j * (input_at a b y x j + 128))))"
    using c \<open>c + 3 < dim (input_shape a) 3\<close> unfolding sum_four by (simp add: v Let_def add.assoc)
qed (use assms(1) in auto)

lemma renode_single_value:
  assumes "dim (input_shape a) 3 = 1" and "conv_ok a" and "index4 (output_shape a) b oy ox k"
    and "0 \<le> fy" "fy < dim (filter_shape a) 1" "0 \<le> fx" "fx < dim (filter_shape a) 2"
    and "in_image a y x"
  shows "renode_single nd a b k fy fx y x acc = Some (acc + word_of_int (tap_sum a 128 b k fy fx y x))"
proof -
  have one: "{0..<1::int} = {0}" by auto
  show ?thesis
    unfolding tap_sum_128 [OF assms(8)] renode_single_def assms(1) one
    by (simp add: load_input_value [OF assms(2)] load_filter_value [OF assms(2)] tap_index [OF assms(2-8)] assms(1))
qed

lemma renode_nest_value:
  assumes "renode_ok a" and "int (length output_data) = elems (output_shape a)"
    and "\<And>b oy ox k fy fx y x acc. index4 (output_shape a) b oy ox k \<Longrightarrow>
      0 \<le> fy \<Longrightarrow> fy < dim (filter_shape a) 1 \<Longrightarrow> 0 \<le> fx \<Longrightarrow> fx < dim (filter_shape a) 2 \<Longrightarrow> in_image a y x \<Longrightarrow>
      channels b k fy fx y x acc = Some (acc + word_of_int (tap_sum a 128 b k fy fx y x))"
  shows "renode_nest channels nd a (dim (output_shape a) 0) (dim (output_shape a) 3) (dim (input_shape a) 1)
      (dim (input_shape a) 2) (dim (output_shape a) 1) (dim (output_shape a) 2) output_data =
    Some (map (\<lambda>i. at_output a (conv_out a 128 (- 128)) (int i)) [0..<length output_data])"
proof -
  note ok = renode_okD [OF assms(1)]
  show ?thesis
    unfolding renode_nest_def Let_def in_image_def [symmetric]
    by (rule conv_loops [OF ok(1) assms(2), where inner = channels and Yo = "\<lambda>y. y" and Xo = "\<lambda>x. x"
          and dy = 1 and dx = 1, unfolded ok(2,3) mult_1])
      (simp_all only: assms(3) [unfolded ok(2,3)] renode_conv_sum [OF assms(1), symmetric], rule output_stage [OF ok(1)])
qed

lemma constant_ConvPerChannel_value:
  assumes "renode_ok a" and "int (length output_data) = elems (output_shape a)"
  shows "constant_ConvPerChannel nd a output_data =
    Some (map (\<lambda>i. at_output a (conv_out a 128 (- 128)) (int i)) [0..<length output_data])"
  unfolding constant_ConvPerChannel_def conv_prologue [OF renode_okD(1) [OF assms(1)]] Option.bind.simps(2)
  by (intro renode_nest_value [OF assms] constant_channels_value [OF renode_okD(1) [OF assms(1)]])

lemma renode_ConvPerChannel_value:
  assumes "renode_ok a" and "int (length output_data) = elems (output_shape a)"
  shows "renode_ConvPerChannel nd a output_data =
    (if dim (input_shape a) 3 = 12 \<or> dim (input_shape a) 3 = 1
     then Some (map (\<lambda>i. at_output a (conv_out a 128 (- 128)) (int i)) [0..<length output_data])
     else Some output_data)"
proof -
  note ok = renode_okD(1) [OF assms(1)]
  consider "dim (input_shape a) 3 = 12" | "dim (input_shape a) 3 = 1"
    | "dim (input_shape a) 3 \<noteq> 12" "dim (input_shape a) 3 \<noteq> 1" by blast
  then show ?thesis
  proof cases
    case 1
    then have "4 dvd dim (input_shape a) 3" by simp
    note n = renode_nest_value [OF assms renode_channels4_value [OF this ok]]
    from 1 show ?thesis
      unfolding renode_ConvPerChannel_def conv_prologue [OF ok] Option.bind.simps(2) by (simp add: n [unfolded 1])
  next
    case 2
    note n = renode_nest_value [OF assms renode_single_value [OF 2 ok]]
    from 2 show ?thesis
      unfolding renode_ConvPerChannel_def conv_prologue [OF ok] Option.bind.simps(2) by (simp add: n)
  next
    case 3
    then show ?thesis
      unfolding renode_ConvPerChannel_def conv_prologue [OF ok] Option.bind.simps(2) by simp
  qed
qed

section \<open>The SIMD kernels\<close>

text \<open>
  What the kernel adds up when a tap of the filter contributes \<open>tv\<close>, and its output.
\<close>

definition taps_total :: "(i8, i32) conv_args \<Rightarrow> (int \<Rightarrow> int \<Rightarrow> int \<Rightarrow> int \<Rightarrow> int \<Rightarrow> int \<Rightarrow> int) \<Rightarrow>
   int \<Rightarrow> int \<Rightarrow> int \<Rightarrow> int \<Rightarrow> int" where
  "taps_total a tv b oy ox k = (\<Sum>fy\<in>{0..<3}. \<Sum>fx\<in>{0..<3}.
     if in_image a (oy + fy) (ox + fx) then tv b k fy fx (oy + fy) (ox + fx) else 0)"

definition taps_out :: "(i8, i32) conv_args \<Rightarrow> (int \<Rightarrow> int \<Rightarrow> int \<Rightarrow> int \<Rightarrow> int \<Rightarrow> int \<Rightarrow> int) \<Rightarrow>
   int \<Rightarrow> int \<Rightarrow> int \<Rightarrow> int \<Rightarrow> i8" where
  "taps_out a tv b y x k = the (requantize a (- 128) k (word_of_int (taps_total a tv b y x k + bias_at a k)))"

text \<open>One channel, sign-extended into all four lanes.\<close>

definition simd1_tap :: "(i8, i32) conv_args \<Rightarrow> int \<Rightarrow> int \<Rightarrow> int \<Rightarrow> int \<Rightarrow> int \<Rightarrow> int \<Rightarrow> int" where
  "simd1_tap a b k fy fx y x = dot4 (word_of_int (input_at a b y x 0)) (word_of_int (filter_at a k fy fx 0))"

context simd_mac
begin

definition holds :: "i32 \<Rightarrow> 'c \<Rightarrow> bool" where
  "holds acc s \<longleftrightarrow> inv s \<and> total s = acc"

lemma ok_mac: "holds acc s \<Longrightarrow> ok (op 0 x w s) (\<lambda>(r, s'). holds r s' \<and> r = acc + word_of_int (dot4 x w))"
  unfolding holds_def by (auto intro: ok_mono [OF mac])

text \<open>The loops over the filter, for a statement in their middle that adds \<open>tv\<close>.\<close>

lemma ok_taps:
  assumes "\<And>fy fx acc s. 0 \<le> fy \<Longrightarrow> fy < 3 \<Longrightarrow> 0 \<le> fx \<Longrightarrow> fx < 3 \<Longrightarrow> in_image a (oy + fy) (ox + fx) \<Longrightarrow> holds acc s \<Longrightarrow>
      ok (channels fy fx (oy + fy) (ox + fx) (acc, s))
        (\<lambda>(r, s'). holds r s' \<and> r = acc + word_of_int (tv b k fy fx (oy + fy) (ox + fx)))"
    and "holds acc s"
  shows "ok (cfor 0 3 1 (\<lambda>fy. cfor 0 3 1 (\<lambda>fx (acc, s).
      if \<not> in_image a (oy + fy) (ox + fx) then Some (acc, s)
      else channels fy fx (oy + fy) (ox + fx) (acc, s))) (acc, s))
    (\<lambda>(r, s'). holds r s' \<and> r = acc + word_of_int (taps_total a tv b oy ox k))"
proof -
  let ?g = "\<lambda>fy fx. if in_image a (oy + fy) (ox + fx) then tv b k fy fx (oy + fy) (ox + fx) else 0"
  have one: "{i..<i + 1} = {i}" for i :: int by auto
  have row: "ok (cfor 0 3 1 (\<lambda>fx (acc, s).
      if \<not> in_image a (oy + fy) (ox + fx) then Some (acc, s)
      else channels fy fx (oy + fy) (ox + fx) (acc, s)) (acc, s))
    (\<lambda>(r, s'). holds r s' \<and> r = acc + (\<Sum>fx\<in>{0..<3}. word_of_int (?g fy fx)))"
    if fy: "0 \<le> fy" "fy < 3" and s: "holds acc s" for fy acc s
  proof (rule ok_cfor_sum [where R = holds, OF _ _ s])
    fix fx :: int and acc s assume "0 \<le> fx" "fx < 3" and "holds acc s"
    with assms(1) [OF fy this(1,2)] show "ok ((\<lambda>(acc, s).
        if \<not> in_image a (oy + fy) (ox + fx) then Some (acc, s)
        else channels fy fx (oy + fy) (ox + fx) (acc, s)) (acc, s))
      (\<lambda>(r, s'). holds r s' \<and> r = acc + (\<Sum>fx\<in>{fx..<fx + 1}. word_of_int (?g fy fx)))"
      unfolding one by (cases "in_image a (oy + fy) (ox + fx)") (simp_all add: ok_Some)
  qed simp_all
  show ?thesis
    unfolding taps_total_def word_of_int_sum
    by (rule ok_cfor_sum [where R = holds, OF _ _ assms(2)]) (simp_all only: one sum.insert row, simp_all add: row)
qed

lemma ok_nest:
  assumes "renode_ok a" and "int (length output_data) = elems (output_shape a)" and "inv s"
    and tap: "\<And>b oy ox k fy fx y x acc s. index4 (output_shape a) b oy ox k \<Longrightarrow>
      0 \<le> fy \<Longrightarrow> fy < 3 \<Longrightarrow> 0 \<le> fx \<Longrightarrow> fx < 3 \<Longrightarrow> in_image a y x \<Longrightarrow> holds acc s \<Longrightarrow>
      ok (channels b k fy fx y x (acc, s)) (\<lambda>(r, s'). holds r s' \<and> r = acc + word_of_int (tv b k fy fx y x))"
  shows "ok (simd_nest op channels nd a (dim (output_shape a) 0) (dim (output_shape a) 3) (dim (input_shape a) 1)
      (dim (input_shape a) 2) (dim (output_shape a) 1) (dim (output_shape a) 2) (s, output_data))
    (\<lambda>(s', ys). inv s' \<and> ys = map (\<lambda>i. at_output a (taps_out a tv) (int i)) [0..<length output_data])"
proof -
  note ok = renode_okD(1) [OF assms(1)]
  have one: "ok (do {
      (acc, s) \<leftarrow> op 1 0 0 s;
      (acc, s) \<leftarrow> cfor 0 3 1 (\<lambda>fy. cfor 0 3 1 (\<lambda>fx (acc, s).
        if \<not> in_image a (oy + fy) (ox + fx) then Some (acc, s)
        else channels b k fy fx (oy + fy) (ox + fx) (acc, s))) (acc, s);
      acc \<leftarrow> add_bias a k acc;
      v \<leftarrow> requantize a (- 128) k acc;
      zs \<leftarrow> store_output nd a b oy ox k v zs;
      Some (s, zs) })
    (\<lambda>(s', ys). inv s' \<and> wrote {pos4 (output_shape a) b oy ox k} (at_output a (taps_out a tv)) zs ys)"
    if ix: "index4 (output_shape a) b oy ox k" and len: "int (length zs) = elems (output_shape a)" and s: "inv s"
    for b oy ox k s zs
  proof -
    have k: "0 \<le> k" "k < dim (output_shape a) 3" using ix by (auto simp: index4_def)
    have start: "ok (op 1 0 0 s) (\<lambda>(r, s'). r = 0 \<and> holds 0 s')"
      by (rule ok_mono [OF reset [OF s]]) (auto simp: holds_def)
    have q: "requantize a (- 128) k (word_of_int (taps_total a tv b oy ox k) + word_of_int (bias_at a k)) =
        Some (taps_out a tv b oy ox k)"
      using requantize_defined [OF ok k] by (auto simp: taps_out_def)
    show ?thesis
    proof (rule ok_bind_pair [OF start])
      fix r :: i32 and s assume r: "r = 0 \<and> holds 0 s"
      have taps: "ok (cfor 0 3 1 (\<lambda>fy. cfor 0 3 1 (\<lambda>fx (acc, s).
            if \<not> in_image a (oy + fy) (ox + fx) then Some (acc, s)
            else channels b k fy fx (oy + fy) (ox + fx) (acc, s))) (r, s))
          (\<lambda>(r', s'). holds r' s' \<and> r' = r + word_of_int (taps_total a tv b oy ox k))"
        by (rule ok_taps [where channels = "channels b k"]) (erule (5) tap [OF ix], use r in simp)
      show "ok (do {
          (acc, s) \<leftarrow> cfor 0 3 1 (\<lambda>fy. cfor 0 3 1 (\<lambda>fx (acc, s).
            if \<not> in_image a (oy + fy) (ox + fx) then Some (acc, s)
            else channels b k fy fx (oy + fy) (ox + fx) (acc, s))) (r, s);
          acc \<leftarrow> add_bias a k acc;
          v \<leftarrow> requantize a (- 128) k acc;
          zs \<leftarrow> store_output nd a b oy ox k v zs;
          Some (s, zs) })
        (\<lambda>(s', ys). inv s' \<and> wrote {pos4 (output_shape a) b oy ox k} (at_output a (taps_out a tv)) zs ys)"
        by (rule ok_bind_pair [OF taps])
          (use r store_output_wrote [OF ok len ix, of _ "taps_out a tv", OF refl] in
            \<open>auto simp: add_bias_value [OF ok k] q ok_simps ok_iff [of "store_output _ _ _ _ _ _ _ _"] holds_def\<close>)
    qed
  qed
  have all: "{i. 0 \<le> i \<and> i < n \<and> 1 dvd (i - 0)} = {0..<n}" for n :: int by auto
  have "ok (simd_nest op channels nd a (dim (output_shape a) 0) (dim (output_shape a) 3) (dim (input_shape a) 1)
      (dim (input_shape a) 2) (dim (output_shape a) 1) (dim (output_shape a) 2) (s, output_data))
    (\<lambda>(s', ys). inv s' \<and> wrote (\<Union>i0\<in>{0..<dim (output_shape a) 0}. \<Union>i1\<in>{0..<dim (output_shape a) 1}.
      \<Union>i2\<in>{0..<dim (output_shape a) 2}. \<Union>i3\<in>{0..<dim (output_shape a) 3}.
      {pos4 (output_shape a) i0 i1 i2 i3}) (at_output a (taps_out a tv)) output_data ys)"
    unfolding all [symmetric] simd_nest_def Let_def in_image_def [symmetric]
    by (intro cfor_wrote [where P = inv] assms(3))
      (simp_all only: prod.case, simp_all add: one index4I assms(2))
  then show ?thesis
    using wrote_all [OF _ index4_positions [OF conv_ok_shapes(3) [OF ok], folded assms(2)]]
    by (auto elim!: ok_mono)
qed

lemma simd_channels_value:
  assumes "conv_ok a" and "4 dvd dim (input_shape a) 3" and ix: "index4 (output_shape a) b oy ox k"
    and "0 \<le> fy" "fy < dim (filter_shape a) 1" "0 \<le> fx" "fx < dim (filter_shape a) 2"
    and "in_image a y x" and "holds acc s"
  shows "ok (simd_channels op nd a (dim (input_shape a) 3) b k fy fx y x (acc, s))
    (\<lambda>(r, s'). holds r s' \<and> r = acc + word_of_int (tap_sum a 128 b k fy fx y x))"
  unfolding tap_sum_128 [OF assms(8)] simd_channels_def
proof (rule ok_cfor_sum [where R = holds, OF _ _ assms(9)])
  fix c acc s assume c: "0 \<le> c" "c < dim (input_shape a) 3" "4 dvd (c - 0)" and s: "holds acc s"
  have c3: "c + 3 < dim (input_shape a) 3" by (rule dvd4_room [OF assms(2) c(3,2)])
  note t = tap_index [OF assms(1) ix assms(4-8)]
  note li = load_word [OF conv_ok_shapes(1) [OF assms(1)] conv_ok_lengths(1) [OF assms(1)] t(1) [OF c(1,2)] t(1) [of "c + 3"]]
  note lf = load_word [OF conv_ok_shapes(2) [OF assms(1)] conv_ok_lengths(2) [OF assms(1)] t(2) [OF c(1,2)] t(2) [of "c + 3"]]
  let ?x = "pack4 (input_data a ! nat (pos4 (input_shape a) b y x c)) (input_data a ! nat (pos4 (input_shape a) b y x (c + 1)))
    (input_data a ! nat (pos4 (input_shape a) b y x (c + 2))) (input_data a ! nat (pos4 (input_shape a) b y x (c + 3)))"
  let ?w = "pack4 (filter_data a ! nat (pos4 (filter_shape a) k fy fx c)) (filter_data a ! nat (pos4 (filter_shape a) k fy fx (c + 1)))
    (filter_data a ! nat (pos4 (filter_shape a) k fy fx (c + 2))) (filter_data a ! nat (pos4 (filter_shape a) k fy fx (c + 3)))"
  have dot: "word_of_int (dot4 ?x ?w) =
      (\<Sum>j\<in>{c..<c + 4}. word_of_int (filter_at a k fy fx j * (input_at a b y x j + 128)) :: i32)"
    unfolding sum_four dot4_pack4 input_at_def filter_at_def of_int_add by (simp only: add.assoc)
  have split: "do {
      i \<leftarrow> Offset nd (input_shape a) b y x c;
      input_val \<leftarrow> load32 (input_data a) i;
      i \<leftarrow> Offset nd (filter_shape a) k fy fx c;
      filter_val \<leftarrow> load32 (filter_data a) i;
      op 0 input_val filter_val s } =
    do {
      input_val \<leftarrow> do { i \<leftarrow> Offset nd (input_shape a) b y x c; load32 (input_data a) i };
      filter_val \<leftarrow> do { i \<leftarrow> Offset nd (filter_shape a) k fy fx c; load32 (filter_data a) i };
      op 0 input_val filter_val s }"
    by simp
  have c0: "0 \<le> c + 3" using c(1) by simp
  show "ok ((\<lambda>(acc, s). do {
      i \<leftarrow> Offset nd (input_shape a) b y x c;
      input_val \<leftarrow> load32 (input_data a) i;
      i \<leftarrow> Offset nd (filter_shape a) k fy fx c;
      filter_val \<leftarrow> load32 (filter_data a) i;
      op 0 input_val filter_val s }) (acc, s))
    (\<lambda>(r, s'). holds r s' \<and> r = acc + (\<Sum>j\<in>{c..<c + 4}.
      word_of_int (filter_at a k fy fx j * (input_at a b y x j + 128))))"
    unfolding prod.case split li [OF c0 c3] lf [OF c0 c3] Option.bind.simps(2) dot [symmetric]
    by (intro ok_mac [OF s])
qed (use assms(2) in auto)

lemma simd_single_value:
  assumes "conv_ok a" and "dim (input_shape a) 3 = 1" and "index4 (output_shape a) b oy ox k"
    and "0 \<le> fy" "fy < dim (filter_shape a) 1" "0 \<le> fx" "fx < dim (filter_shape a) 2"
    and "in_image a y x" and "holds acc s"
  shows "ok (simd_single op nd a b k fy fx y x (acc, s))
    (\<lambda>(r, s'). holds r s' \<and> r = acc + word_of_int (simd1_tap a b k fy fx y x))"
  unfolding simd_single_def simd1_tap_def prod.case
  using tap_index [OF assms(1,3-8), of 0] ok_mac [OF assms(9)] assms(1,2)
  by (simp add: load_input_value load_filter_value)

end

lemma taps_total_conv: "renode_ok a \<Longrightarrow> taps_total a (tap_sum a 128) b oy ox k = conv_sum a 128 b oy ox k"
proof -
  assume "renode_ok a"
  moreover have "(if in_image a y x then tap_sum a 128 b k fy fx y x else 0) = tap_sum a 128 b k fy fx y x" for fy fx y x
    by (simp add: tap_sum_def)
  ultimately show ?thesis
    by (simp add: taps_total_def renode_conv_sum conv_sum_at_def renode_okD)
qed

lemma taps_out_conv: "renode_ok a \<Longrightarrow> taps_out a (tap_sum a 128) = conv_out a 128 (- 128)"
  by (simp add: taps_out_def [abs_def] conv_out_def [abs_def] taps_total_conv)

text \<open>The output of the SIMD kernels, by the depth of the input.\<close>

definition simd_output :: "(i8, i32) conv_args \<Rightarrow> i8 list \<Rightarrow> i8 list" where
  "simd_output a output_data =
     (if dim (input_shape a) 3 = 12 then
        map (\<lambda>i. at_output a (conv_out a 128 (- 128)) (int i)) [0..<length output_data]
      else if dim (input_shape a) 3 = 1 then
        map (\<lambda>i. at_output a (taps_out a (simd1_tap a)) (int i)) [0..<length output_data]
      else output_data)"

context simd_mac
begin

lemma ok_simd_kernel:
  assumes "renode_ok a" and "int (length output_data) = elems (output_shape a)" and "inv s"
  shows "ok (simd_ConvPerChannel op nd a (s, output_data)) (\<lambda>(s', ys). inv s' \<and> ys = simd_output a output_data)"
proof -
  note ok = renode_okD [OF assms(1)]
  consider "dim (input_shape a) 3 = 12" | "dim (input_shape a) 3 = 1"
    | "dim (input_shape a) 3 \<noteq> 12" "dim (input_shape a) 3 \<noteq> 1" by blast
  then show ?thesis
  proof cases
    case 1
    then have "4 dvd dim (input_shape a) 3" by simp
    from ok_nest [where tv = "tap_sum a 128" and channels = "simd_channels op nd a (dim (input_shape a) 3)" and nd = nd,
        OF assms simd_channels_value [OF ok(1) this, unfolded ok(2,3)]] 1 show ?thesis
      unfolding simd_ConvPerChannel_def conv_prologue [OF ok(1)] Option.bind.simps(2)
      by (simp add: simd_output_def taps_out_conv [OF assms(1)])
  next
    case 2
    from ok_nest [where tv = "simd1_tap a" and channels = "simd_single op nd a" and nd = nd,
        OF assms simd_single_value [OF ok(1) 2, unfolded ok(2,3)]] 2 show ?thesis
      unfolding simd_ConvPerChannel_def conv_prologue [OF ok(1)] Option.bind.simps(2)
      by (simp add: simd_output_def)
  next
    case 3
    with assms(3) show ?thesis
      unfolding simd_ConvPerChannel_def conv_prologue [OF ok(1)] Option.bind.simps(2)
      by (simp add: simd_output_def ok_Some)
  qed
qed

end

text \<open>
  The final kernel is the SIMD kernel on the two shapes of output that its literals describe.
\<close>

definition final_shapes :: "(i8, i32) conv_args \<Rightarrow> bool" where
  "final_shapes a \<longleftrightarrow> dim (output_shape a) 0 = 1 \<and> dim (output_shape a) 3 = 12 \<and>
     (dim (input_shape a) 3 = 12 \<and> dim (output_shape a) 1 = 24 \<and> dim (output_shape a) 2 = 24 \<or>
      dim (input_shape a) 3 = 1 \<and> dim (output_shape a) 1 = 26 \<and> dim (output_shape a) 2 = 26)"

lemma final_simd:
  assumes "conv_ok a" and "final_shapes a"
  shows "final_ConvPerChannel op nd a st = simd_ConvPerChannel op nd a st"
  using assms(2)
  unfolding final_ConvPerChannel_def simd_ConvPerChannel_def conv_prologue [OF assms(1)] Option.bind.simps(2)
  by (auto simp: final_shapes_def)

section \<open>The error of the branch for one channel\<close>

lemma byte_scast:
  "byte 0 (scast (b :: i8)) = b"
  "byte 1 (scast b) = (if sint b < 0 then - 1 else 0)"
  "byte 2 (scast b) = (if sint b < 0 then - 1 else 0)"
  "byte 3 (scast b) = (if sint b < 0 then - 1 else 0)"
proof -
  have s: "bit b n \<longleftrightarrow> sint b < 0" if "7 \<le> n" "n < 8" for n
  proof -
    have "n = 7" using that by simp
    then show ?thesis using bit_last_iff [of b] by simp
  qed
  show "byte 0 (scast b) = b" "byte 1 (scast b) = (if sint b < 0 then - 1 else 0)"
    "byte 2 (scast b) = (if sint b < 0 then - 1 else 0)" "byte 3 (scast b) = (if sint b < 0 then - 1 else 0)"
    by (rule bit_word_eqI; auto simp: byte_def bit_simps s min_def)+
qed

lemma simd1_tap_error:
  "simd1_tap a b k fy fx y x =
    filter_at a k fy fx 0 * (input_at a b y x 0 + 128) -
    (if filter_at a k fy fx 0 < 0 then 3 * (if input_at a b y x 0 < 0 then 127 else 128) else 0)"
proof -
  have "dot4 (scast i) (scast f) = sint f * (sint i + 128) - (if sint f < 0 then 3 * (if sint i < 0 then 127 else 128) else 0)"
    for i f :: i8
    by (simp add: dot4_def byte_scast del: One_nat_def)
  then show ?thesis by (simp only: simd1_tap_def filter_at_def input_at_def scast_sint [symmetric])
qed

end
