(* ===== verification/Console.thy ===== *)
theory Console
  imports Prelude
begin

text \<open>
  The console: characters that were typed and are still unread, and everything that was printed.
  A read with nothing typed waits for ever, which is \<open>None\<close>. The conversions of \<open>printf\<close> that
  the code uses are functions into strings; \<open>console\<close> is the base record of the states of the
  components that print, so that their routines can be items of a menu.
\<close>

section \<open>State\<close>

record console =
  cin :: string
  cout :: string

abbreviation LF :: char where "LF \<equiv> CHR 0x0A"
abbreviation CR :: char where "CR \<equiv> CHR 0x0D"

definition print :: "string \<Rightarrow> 'a console_scheme \<Rightarrow> 'a console_scheme" where
  "print str s = s\<lparr>cout := cout s @ str\<rparr>"

text \<open>\<open>puts\<close> ends the line.\<close>

definition puts :: "string \<Rightarrow> 'a console_scheme \<Rightarrow> 'a console_scheme" where
  "puts str = print (str @ [LF])"

definition readchar :: "'a console_scheme \<Rightarrow> (char \<times> 'a console_scheme) option" where
  "readchar s = (case cin s of [] \<Rightarrow> None | c # cs \<Rightarrow> Some (c, s\<lparr>cin := cs\<rparr>))"

text \<open>\<open>putsnonl\<close> of \<open>common/src/stdio.c\<close>: up to the terminating zero, which must be in the array.\<close>

fun putsnonl :: "string \<Rightarrow> 'a console_scheme \<Rightarrow> 'a console_scheme option" where
  "putsnonl [] st = None"
| "putsnonl (c # cs) st = (if c \<noteq> CHR 0x00 then putsnonl cs (print [c] st) else Some st)"

section \<open>Conversions\<close>

definition digit :: "int \<Rightarrow> char" where
  "digit d = char_of (if d < 10 then 48 + d else 87 + d)"

function digits :: "int \<Rightarrow> int \<Rightarrow> string" where
  "digits b n = (if b \<le> 1 \<or> n < b then [digit n] else digits b (n div b) @ [digit (n mod b)])"
  by pat_completeness auto
termination
  by (relation "measure (\<lambda>(b, n). nat n)") (auto simp: int_div_less_self)

declare digits.simps [simp del]

definition dec :: "int \<Rightarrow> string" where
  "dec v = (if v < 0 then CHR ''-'' # digits 10 (- v) else digits 10 v)"

text \<open>Of an unsigned value.\<close>

definition hex :: "int \<Rightarrow> string" where
  "hex v = digits 16 v"

text \<open>Padding on the left to a width: \<open>%6d\<close>, \<open>%08lx\<close>.\<close>

definition pad :: "nat \<Rightarrow> char \<Rightarrow> string \<Rightarrow> string" where
  "pad w c str = replicate (w - length str) c @ str"

abbreviation blanks :: "nat \<Rightarrow> string \<Rightarrow> string" where "blanks w \<equiv> pad w (CHR '' '')"
abbreviation zeros :: "nat \<Rightarrow> string \<Rightarrow> string" where "zeros w \<equiv> pad w (CHR ''0'')"

section \<open>Reading a number\<close>

text \<open>
  \<open>strtol(s, NULL, 0)\<close> for a 32-bit \<open>long\<close>: white space, a sign, a base from the prefix, the
  longest sequence of digits, and the nearest \<open>long\<close> when the number is out of range.
\<close>

definition digit_value :: "char \<Rightarrow> int" where
  "digit_value c = (let n = of_char c in
     if 48 \<le> n \<and> n \<le> 57 then n - 48
     else if 97 \<le> n \<and> n \<le> 122 then n - 87
     else if 65 \<le> n \<and> n \<le> 90 then n - 55 else 99)"

fun digits_value :: "int \<Rightarrow> int \<Rightarrow> string \<Rightarrow> int" where
  "digits_value b acc [] = acc"
| "digits_value b acc (c # cs) =
     (if digit_value c < b then digits_value b (acc * b + digit_value c) cs else acc)"

definition is_blank :: "char \<Rightarrow> bool" where
  "is_blank c \<longleftrightarrow> c = CHR '' '' \<or> 9 \<le> (of_char c :: int) \<and> (of_char c :: int) \<le> 13"

definition magnitude :: "string \<Rightarrow> int" where
  "magnitude str =
     (case str of
        a # x # d # cs \<Rightarrow>
          if a = CHR ''0'' \<and> (x = CHR ''x'' \<or> x = CHR ''X'') \<and> digit_value d < 16 then digits_value 16 0 (d # cs)
          else if a = CHR ''0'' then digits_value 8 0 str else digits_value 10 0 str
      | a # cs \<Rightarrow> if a = CHR ''0'' then digits_value 8 0 str else digits_value 10 0 str
      | [] \<Rightarrow> 0)"

definition strtol :: "string \<Rightarrow> i32" where
  "strtol str =
     (let str = dropWhile is_blank str;
          negative = (case str of c # cs \<Rightarrow> c = CHR ''-'' | [] \<Rightarrow> False);
          signed = (case str of c # cs \<Rightarrow> c = CHR ''-'' \<or> c = CHR ''+'' | [] \<Rightarrow> False);
          n = magnitude (if signed then tl str else str);
          v = (if negative then - n else n)
      in word_of_int (max (- (2 ^ 31)) (min (2 ^ 31 - 1) v)))"

text \<open>\<open>read_val\<close> of \<open>common/src/base.c\<close>: at most 80 characters of the 81 of \<open>buf\<close>, echoed.\<close>

fun read_chars :: "nat \<Rightarrow> char \<Rightarrow> string \<Rightarrow> 'a console_scheme \<Rightarrow> (string \<times> 'a console_scheme) option" where
  "read_chars 0 c buf s = Some (buf, s)"
| "read_chars (Suc room) c buf s =
     (if c \<noteq> CR \<and> c \<noteq> LF
      then do { (c', s) \<leftarrow> readchar (print [c] s); read_chars room c' (buf @ [c]) s }
      else Some (buf, s))"

definition read_val :: "string \<Rightarrow> 'a console_scheme \<Rightarrow> (i32 \<times> 'a console_scheme) option" where
  "read_val prompt s = do {
     let s = print (prompt @ '' > '') s;
     (c, s) \<leftarrow> readchar s;
     (buf, s) \<leftarrow> read_chars 80 c [] s;
     let s = print [LF] s;
     Some (strtol (takeWhile (\<lambda>c. c \<noteq> CHR 0x00) buf), s) }"

section \<open>What was printed can be read\<close>

lemma print_print: "print b (print a s) = print (a @ b) s"
  by (simp add: print_def)

lemma digit_value_digit: "0 \<le> d \<Longrightarrow> d < 36 \<Longrightarrow> digit_value (digit d) = d"
  by (auto simp: digit_value_def digit_def)

lemma digit_zero: "digit 0 = CHR ''0''"
  by code_simp

lemma digits_nonempty: "digits b n \<noteq> []"
  by (subst digits.simps) simp

lemma digits_step: "1 < b \<Longrightarrow> b \<le> n \<Longrightarrow> digits b n = digits b (n div b) @ [digit (n mod b)]"
  by (subst digits.simps) simp

lemma digits_small: "n < b \<Longrightarrow> digits b n = [digit n]"
  by (subst digits.simps) simp

lemma digits_induct [consumes 2, case_names small large]:
  fixes b n :: int
  assumes "1 < b" "0 \<le> n" and "\<And>n. 0 \<le> n \<Longrightarrow> n < b \<Longrightarrow> P n"
    and "\<And>n. b \<le> n \<Longrightarrow> P (n div b) \<Longrightarrow> 0 \<le> n mod b \<Longrightarrow> n mod b < b \<Longrightarrow> P n"
  shows "P n"
  using assms(2)
proof (induction "nat n" arbitrary: n rule: less_induct)
  case less
  show ?case
  proof (cases "n < b")
    case False
    then have "P (n div b)" using assms(1) less.prems
      by (intro less.hyps) (auto simp: int_div_less_self pos_imp_zdiv_nonneg_iff)
    with False assms(1,4) show ?thesis by simp
  qed (use less.prems assms(3) in simp)
qed

lemma digits_set:
  assumes b: "1 < b" and n: "0 \<le> n" and c: "c \<in> set (digits b n)"
  shows "\<exists>d. 0 \<le> d \<and> d < b \<and> c = digit d"
  using b n c by (induction n rule: digits_induct) (use b in \<open>auto simp: digits_small digits_step intro: exI [of _ "_ mod b"]\<close>)

lemma digits_length:
  assumes b: "1 < b" and n: "0 \<le> n" and "n < b ^ k" and "0 < k"
  shows "length (digits b n) \<le> k"
  using b n assms(3,4)
proof (induction n arbitrary: k rule: digits_induct)
  case (large n)
  then have "k \<noteq> 1" by auto
  then obtain l where l: "k = Suc l" "0 < l" using large.prems by (cases k) auto
  have "n div b < b ^ l"
  proof (rule ccontr)
    assume "\<not> n div b < b ^ l"
    then have "b * b ^ l \<le> b * (n div b)" using b by simp
    also have "\<dots> \<le> n" using mult_div_mod_eq [of b n] large.hyps by linarith
    finally show False using large.prems l by simp
  qed
  with large.IH [of l] l large.hyps b show ?case by (simp add: digits_step)
qed (simp add: digits_small)

lemma digits_value_append:
  "\<forall>c\<in>set xs. digit_value c < b \<Longrightarrow> digits_value b acc (xs @ ys) = digits_value b (digits_value b acc xs) ys"
  by (induction xs arbitrary: acc) simp_all

lemma digit_bound: "1 < b \<Longrightarrow> b \<le> 36 \<Longrightarrow> 0 \<le> n \<Longrightarrow> c \<in> set (digits b n) \<Longrightarrow> digit_value c < b"
  using digits_set [of b n c] by (auto simp: digit_value_digit)

lemma digits_value_digits:
  assumes b: "1 < b" and n: "0 \<le> n" and "b \<le> 36"
  shows "digits_value b 0 (digits b n) = n"
  using b n assms(3)
proof (induction n rule: digits_induct)
  case (large n)
  have "digit_value (digit (n mod b)) = n mod b" using large by (intro digit_value_digit) auto
  moreover have "\<forall>c\<in>set (digits b (n div b)). digit_value c < b"
    using large b by (auto simp: pos_imp_zdiv_nonneg_iff intro!: digit_bound [of b "n div b"])
  ultimately show ?case using large b
    by (simp add: digits_step digits_value_append div_mult_mod_eq)
qed (simp add: digits_small digit_value_digit)

lemma digits_value_zeros: "1 < b \<Longrightarrow> digits_value b 0 (zeros w xs) = digits_value b 0 xs"
proof -
  assume b: "1 < b"
  have "digits_value b 0 (replicate k (CHR ''0'') @ xs) = digits_value b 0 xs" for k
    using b by (induction k) (simp_all add: digit_value_def)
  then show ?thesis by (simp add: pad_def)
qed

lemma digits_head:
  assumes b: "1 < b" and n: "0 \<le> n" and "0 < n"
  shows "\<exists>d cs. digits b n = digit d # cs \<and> 0 < d \<and> d < b"
  using b n assms(3)
proof (induction n rule: digits_induct)
  case (large n)
  then have "0 < n div b" using b by (simp add: pos_imp_zdiv_pos_iff)
  with large b show ?case by (auto simp: digits_step)
qed (auto simp: digits_small)

lemma magnitude_dec: "0 \<le> n \<Longrightarrow> magnitude (digits 10 n) = n"
proof (cases "n = 0")
  case True
  then show ?thesis by (simp add: digits_small digit_zero magnitude_def digit_value_def)
next
  case False
  moreover assume n: "0 \<le> n"
  ultimately obtain d cs where d: "digits 10 n = digit d # cs" "0 < d" "d < 10"
    using digits_head [of 10 n] by auto
  then have "digit d \<noteq> CHR ''0''"
    using digit_value_digit [of d] digit_value_digit [of 0] by (auto simp: digit_zero)
  then have "magnitude (digits 10 n) = digits_value 10 0 (digits 10 n)"
    unfolding d(1) magnitude_def by (simp split: list.split)
  then show ?thesis using n by (simp add: digits_value_digits)
qed

lemma magnitude_hex: "0 \<le> n \<Longrightarrow> magnitude (''0x'' @ zeros w (digits 16 n)) = n"
proof -
  assume n: "0 \<le> n"
  obtain d cs where d: "zeros w (digits 16 n) = d # cs"
    by (cases "zeros w (digits 16 n)") (auto simp: pad_def digits_nonempty)
  then have "d \<in> set (zeros w (digits 16 n))" by simp
  then have "digit_value d < 16" using digit_bound [of 16 n d] n by (auto simp: pad_def digit_value_def)
  then have "magnitude (''0x'' @ zeros w (digits 16 n)) = digits_value 16 0 (zeros w (digits 16 n))"
    by (simp add: magnitude_def d)
  then show ?thesis using n by (simp add: digits_value_zeros digits_value_digits)
qed

lemma digit_plain:
  assumes "0 \<le> d" "d < 36"
  shows "digit d \<noteq> CR" "digit d \<noteq> LF" "digit d \<noteq> CHR 0x00" "\<not> is_blank (digit d)" "digit d \<noteq> CHR ''-''" "digit d \<noteq> CHR ''+''"
proof -
  have odd: "digit_value CR = 99" "digit_value LF = 99" "digit_value (CHR 0x00) = 99"
    "digit_value (CHR ''-'') = 99" "digit_value (CHR ''+'') = 99" by code_simp+
  show "digit d \<noteq> CR" "digit d \<noteq> LF" "digit d \<noteq> CHR 0x00" "digit d \<noteq> CHR ''-''" "digit d \<noteq> CHR ''+''"
    using digit_value_digit [OF assms] assms odd by auto
  have "digit_value c = 99" if "is_blank c" for c
    using that by (auto simp: is_blank_def digit_value_def Let_def)
  with digit_value_digit [OF assms] assms show "\<not> is_blank (digit d)" by fastforce
qed

lemma strtol_dec: "- (2 ^ 31) \<le> v \<Longrightarrow> v < 2 ^ 31 \<Longrightarrow> strtol (dec v) = word_of_int v"
proof -
  assume v: "- (2 ^ 31) \<le> v" "v < 2 ^ 31"
  show ?thesis
  proof (cases "v < 0")
    case True
    then have "dropWhile is_blank (dec v) = CHR ''-'' # digits 10 (- v)"
      by (simp add: dec_def is_blank_def)
    with True v show ?thesis by (simp add: strtol_def magnitude_dec)
  next
    case False
    obtain c cs where c: "digits 10 v = c # cs" by (cases "digits 10 v") (auto simp: digits_nonempty)
    then obtain d where "0 \<le> d" "d < 10" "c = digit d"
      using digits_set [of 10 v c] False by auto
    with digit_plain [of d] have plain: "\<not> is_blank c" "c \<noteq> CHR ''-''" "c \<noteq> CHR ''+''" by auto
    have "magnitude (c # cs) = v" using magnitude_dec [of v] False c by simp
    with False v c plain show ?thesis by (simp add: strtol_def dec_def)
  qed
qed

text \<open>A hexadecimal number above \<open>LONG_MAX\<close> reads as \<open>LONG_MAX\<close>.\<close>

lemma strtol_hex: "0 \<le> v \<Longrightarrow> strtol (''0x'' @ zeros w (hex v)) = word_of_int (min (2 ^ 31 - 1) v)"
  using magnitude_hex [of v w] by (simp add: strtol_def hex_def is_blank_def)

section \<open>Typing a line\<close>

lemma read_chars_line:
  "length line \<le> room \<Longrightarrow> \<forall>c\<in>set line. c \<noteq> CR \<and> c \<noteq> LF \<Longrightarrow> e = CR \<or> e = LF \<Longrightarrow>
    cin s = tl (line @ [e]) @ rest \<Longrightarrow>
    read_chars room (hd (line @ [e])) buf s = Some (buf @ line, s\<lparr>cin := rest, cout := cout s @ line\<rparr>)"
proof (induction line arbitrary: room buf s)
  case Nil
  then show ?case by (cases room) auto
next
  case (Cons c line)
  then obtain r where r: "room = Suc r" by (cases room) auto
  obtain d ds where d: "line @ [e] = d # ds" by (cases "line @ [e]") auto
  with Cons.prems have "readchar (print [c] s) = Some (d, s\<lparr>cin := ds @ rest, cout := cout s @ [c]\<rparr>)"
    by (simp add: readchar_def print_def)
  moreover have "read_chars r (hd (line @ [e])) (buf @ [c]) (s\<lparr>cin := ds @ rest, cout := cout s @ [c]\<rparr>) =
      Some ((buf @ [c]) @ line, s\<lparr>cin := rest, cout := cout s @ [c] @ line\<rparr>)"
    using Cons.prems r d by (subst Cons.IH) auto
  ultimately show ?case using Cons.prems r d by simp
qed

lemma read_chars_bounded:
  "read_chars room c buf s = Some (buf', s') \<Longrightarrow> length buf' \<le> length buf + room \<and>
    (\<exists>used. cin s = used @ cin s' \<and> length used \<le> room)"
proof (induction room arbitrary: c buf s)
  case (Suc room)
  show ?case
  proof (cases "c \<noteq> CR \<and> c \<noteq> LF")
    case True
    with Suc.prems obtain c' s1 where s1: "readchar (print [c] s) = Some (c', s1)"
      "read_chars room c' (buf @ [c]) s1 = Some (buf', s')" by (auto split: bind_splits)
    then have "cin s = c' # cin s1" by (auto simp: readchar_def print_def split: list.splits)
    with Suc.IH [OF s1(2)] show ?thesis by (auto intro: exI [of _ "c' # _"])
  qed (use Suc.prems in auto)
qed auto

lemma read_chars_returns: "room \<le> length (cin s) \<Longrightarrow> read_chars room c buf s \<noteq> None"
proof (induction room arbitrary: c buf s)
  case (Suc room)
  then obtain d ds where "cin s = d # ds" by (cases "cin s") auto
  with Suc.prems Suc.IH [of "s\<lparr>cout := cout s @ [c], cin := ds\<rparr>" d "buf @ [c]"] show ?case
    by (simp add: readchar_def print_def)
qed simp


lemma read_val_line:
  assumes "length line \<le> 80" and "\<forall>c\<in>set line. c \<noteq> CR \<and> c \<noteq> LF \<and> c \<noteq> CHR 0x00" and "e = CR \<or> e = LF"
    and "cin s = line @ e # rest"
  shows "read_val prompt s = Some (strtol line, s\<lparr>cin := rest, cout := cout s @ prompt @ '' > '' @ line @ [LF]\<rparr>)"
proof -
  obtain d ds where d: "line @ [e] = d # ds" by (cases "line @ [e]") auto
  then have "cin s = d # ds @ rest" using assms(4) by (metis append.assoc append_Cons append_Nil)
  then have "readchar (print (prompt @ '' > '') s) = Some (d, s\<lparr>cin := ds @ rest, cout := cout s @ prompt @ '' > ''\<rparr>)"
    by (simp add: readchar_def print_def)
  moreover have "read_chars 80 (hd (line @ [e])) [] (s\<lparr>cin := ds @ rest, cout := cout s @ prompt @ '' > ''\<rparr>) =
      Some ([] @ line, s\<lparr>cin := rest, cout := cout s @ prompt @ '' > '' @ line\<rparr>)"
    using assms d by (subst read_chars_line [where e = e and rest = rest]) auto
  ultimately show ?thesis using takeWhile_eq_all_conv [of "\<lambda>c. c \<noteq> CHR 0x00" line, THEN iffD2] assms(2)
    by (simp add: read_val_def d print_def del: takeWhile_eq_all_conv)
qed

lemma digits_plain: "1 < b \<Longrightarrow> b \<le> 36 \<Longrightarrow> 0 \<le> n \<Longrightarrow> c \<in> set (digits b n) \<Longrightarrow> c \<noteq> CR \<and> c \<noteq> LF \<and> c \<noteq> CHR 0x00"
  using digits_set [of b n c] digit_plain by auto

lemma dec_plain: "c \<in> set (dec v) \<Longrightarrow> c \<noteq> CR \<and> c \<noteq> LF \<and> c \<noteq> CHR 0x00"
  using digits_plain [of 10 v c] digits_plain [of 10 "- v" c] by (auto simp: dec_def split: if_splits)

lemma dec_length: "- (2 ^ 31) \<le> v \<Longrightarrow> v < 2 ^ 31 \<Longrightarrow> length (dec v) \<le> 11"
  using digits_length [of 10 v 10] digits_length [of 10 "- v" 10] by (auto simp: dec_def)

text \<open>
  C21. Typing a number of 32 bits in decimal and ending the line, \<open>read_val\<close> returns the number,
  echoes what was typed and leaves the rest of the input.
\<close>
theorem read_val_decimal:
  assumes "- (2 ^ 31) \<le> v" and "v < 2 ^ 31" and "e = CR \<or> e = LF" and "cin s = dec v @ e # rest"
  shows "read_val prompt s = Some (word_of_int v, s\<lparr>cin := rest, cout := cout s @ prompt @ '' > '' @ dec v @ [LF]\<rparr>)"
proof -
  have "read_val prompt s = Some (strtol (dec v), s\<lparr>cin := rest, cout := cout s @ prompt @ '' > '' @ dec v @ [LF]\<rparr>)"
    using dec_length [OF assms(1,2)] dec_plain assms(3,4) by (intro read_val_line) auto
  then show ?thesis using strtol_dec [OF assms(1,2)] by simp
qed

lemma read_val_decimal_witness:
  "read_val ''n'' \<lparr>cin = ''-42'' @ CR # ''x'', cout = []\<rparr> = Some (word_of_int (- 42), \<lparr>cin = ''x'', cout = ''n > -42'' @ [LF]\<rparr>)"
proof -
  have "dec (- 42) = ''-42''" by code_simp
  with read_val_decimal [of "- 42" CR "\<lparr>cin = ''-42'' @ CR # ''x'', cout = []\<rparr>" "''x''" "''n''"] show ?thesis by simp
qed

text \<open>
  A word from \<open>0x80000000\<close> on cannot be entered: its hexadecimal digits, as the interactive
  tests print them, read as \<open>0x7FFFFFFF\<close>.
\<close>
theorem read_val_saturates:
  fixes v :: i32
  assumes "2 ^ 31 \<le> uint v" and "cin s = ''0x'' @ zeros 8 (hex (uint v)) @ CR # rest"
  shows "read_val prompt s = Some (0x7FFFFFFF, s\<lparr>cin := rest, cout := cout s @ prompt @ '' > 0x'' @ zeros 8 (hex (uint v)) @ [LF]\<rparr>)"
proof -
  let ?line = "''0x'' @ zeros 8 (hex (uint v))"
  have "length (hex (uint v)) \<le> 8" using digits_length [of 16 "uint v" 8] uint_lt2p [of v] by (simp add: hex_def)
  then have "length ?line \<le> 80" by (simp add: pad_def)
  moreover have "\<forall>c\<in>set ?line. c \<noteq> CR \<and> c \<noteq> LF \<and> c \<noteq> CHR 0x00"
    using digits_plain [of 16 "uint v"] by (auto simp: pad_def hex_def)
  ultimately have "read_val prompt s = Some (strtol ?line, s\<lparr>cin := rest, cout := cout s @ prompt @ '' > '' @ ?line @ [LF]\<rparr>)"
    using assms(2) by (intro read_val_line) auto
  moreover have "min (2 ^ 31 - 1) (uint v) = 0x7FFFFFFF" using assms(1) by simp
  ultimately show ?thesis using strtol_hex [of "uint v" 8] by simp
qed

lemma read_val_saturates_witness:
  "read_val ''n'' \<lparr>cin = ''0x80000000'' @ [CR], cout = []\<rparr> = Some (0x7FFFFFFF, \<lparr>cin = [], cout = ''n > 0x80000000'' @ [LF]\<rparr>)"
proof -
  have "zeros 8 (hex 0x80000000) = ''80000000''" by code_simp
  with read_val_saturates [of "0x80000000 :: i32" "\<lparr>cin = ''0x80000000'' @ [CR], cout = []\<rparr>" "[]" "''n''"] show ?thesis by simp
qed

text \<open>
  With 81 characters typed \<open>read_val\<close> always returns, whatever they are, and it takes no more
  than those 81: its buffer cannot overflow.
\<close>
theorem read_val_returns:
  assumes "81 \<le> length (cin s)"
  shows "\<exists>v s' used. read_val prompt s = Some (v, s') \<and> cin s = used @ cin s' \<and> length used \<le> 81"
proof -
  obtain c cs where c: "cin s = c # cs" "80 \<le> length cs" using assms by (cases "cin s") auto
  obtain buf t where t: "read_chars 80 c [] (s\<lparr>cout := cout s @ prompt @ '' > '', cin := cs\<rparr>) = Some (buf, t)"
    using read_chars_returns [of 80 "s\<lparr>cout := cout s @ prompt @ '' > '', cin := cs\<rparr>" c "[]"] c(2) by auto
  obtain used where "cs = used @ cin t" "length used \<le> 80"
    using read_chars_bounded [OF t] by auto
  then show ?thesis using c(1) t
    by (auto simp: read_val_def readchar_def print_def intro!: exI [of _ "c # used"])
qed

lemma read_val_returns_witness:
  "\<exists>v s' used. read_val ''n'' \<lparr>cin = replicate 100 (CHR ''7''), cout = []\<rparr> = Some (v, s') \<and>
     replicate 100 (CHR ''7'') = used @ cin s' \<and> length used \<le> 81"
  using read_val_returns [of "\<lparr>cin = replicate 100 (CHR ''7''), cout = []\<rparr>" "''n''"] by simp

end
