(* ===== verification/Menu.thy ===== *)
theory Menu
  imports Console
begin

text \<open>
  The menus of \<open>common/src/menu.h\<close> and \<open>menu.cc\<close>. The functions of the items work on any state
  that extends the console. An array of items ends at the sentinel, an item whose character is
  zero; a walk over an array that has none runs past its end, which is \<open>None\<close>.
\<close>

section \<open>Data\<close>

record 'w MenuItem =
  selection :: char
  description :: string
  fn :: "('w \<Rightarrow> 'w option) option"
  exit :: bool

record 'w Menu =
  title :: string
  prompt :: string
  items :: "'w MenuItem list"

definition MENU_ITEM :: "char \<Rightarrow> string \<Rightarrow> ('w \<Rightarrow> 'w option) \<Rightarrow> 'w MenuItem" where
  "MENU_ITEM c text f = \<lparr>selection = c, description = text, fn = Some f, exit = False\<rparr>"

definition MENU_SENTINEL :: "'w MenuItem" where
  "MENU_SENTINEL = \<lparr>selection = CHR 0x00, description = [], fn = None, exit = False\<rparr>"

definition MENU_END :: "'w MenuItem list" where
  "MENU_END =
     [\<lparr>selection = CHR ''x'', description = ''eXit to previous menu'', fn = None, exit = True\<rparr>,
      MENU_SENTINEL]"

section \<open>Operations\<close>

fun print_items :: "'w MenuItem list \<Rightarrow> 'a console_scheme \<Rightarrow> 'a console_scheme option" where
  "print_items [] st = None"
| "print_items (p # ps) st =
     (if selection p = CHR 0x00 then Some st
      else print_items ps (print ('' '' @ [selection p] @ '': '' @ description p @ [LF]) st))"

text \<open>\<open>underline\<close> has 80 characters, the last one for the terminating zero.\<close>

definition menu_print :: "'w Menu \<Rightarrow> 'a console_scheme \<Rightarrow> 'a console_scheme option" where
  "menu_print menu s =
     (let title_len = length (title menu) in
      if title_len < 80 then do {
        let s = print ([LF] @ title menu @ [LF] @ replicate title_len (CHR ''='') @ [LF]) s;
        s \<leftarrow> print_items (items menu) s;
        Some (print (prompt menu @ ''> '') s) }
      else None)"

text \<open>The \<open>do\<close> loop: the first character that does not end a line.\<close>

fun skip_eol :: "string \<Rightarrow> (char \<times> string) option" where
  "skip_eol [] = None"
| "skip_eol (c # cs) = (if c = LF \<or> c = CR then skip_eol cs else Some (c, cs))"

fun find_item :: "char \<Rightarrow> 'w MenuItem list \<Rightarrow> 'w MenuItem option option" where
  "find_item c [] = None"
| "find_item c (p # ps) =
     (if selection p = CHR 0x00 then Some None
      else if c = selection p then Some (Some p) else find_item c ps)"

definition menu_get_selection ::
  "'w Menu \<Rightarrow> 'a console_scheme \<Rightarrow> ('w MenuItem option \<times> 'a console_scheme) option" where
  "menu_get_selection menu s = do {
     (c, cs) \<leftarrow> skip_eol (cin s);
     let s = print [c] (s\<lparr>cin := cs\<rparr>);
     item \<leftarrow> find_item c (items menu);
     (case item of
        Some p \<Rightarrow> Some (Some p, print [LF] s)
      | None \<Rightarrow> Some (None, print ('' *unknown*'' @ [LF]) s)) }"

text \<open>\<open>menu_run\<close>: a menu that never exits, or waits for ever, is \<open>None\<close>.\<close>

partial_function (option) menu_run ::
  "'a console_scheme Menu \<Rightarrow> 'a console_scheme \<Rightarrow> 'a console_scheme option" where
  "menu_run menu s = do {
     s \<leftarrow> menu_print menu s;
     (item, s) \<leftarrow> menu_get_selection menu s;
     (case item of
        None \<Rightarrow> menu_run menu s
      | Some p \<Rightarrow>
          if exit p then Some s
          else do {
            let s = print ([LF] @ ''Running '' @ description p @ [LF]) s;
            f \<leftarrow> fn p;
            s \<leftarrow> f s;
            menu_run menu (puts ''---'' s) }) }"

section \<open>Progress\<close>

text \<open>A menu that can be shown: its title fits and its items end with the sentinel.\<close>

definition wf_menu :: "'w Menu \<Rightarrow> bool" where
  "wf_menu m \<longleftrightarrow> length (title m) < 80 \<and> (\<exists>p\<in>set (items m). selection p = CHR 0x00)"

lemma print_items_total:
  "\<exists>p\<in>set ps. selection p = CHR 0x00 \<Longrightarrow> \<exists>out. \<forall>s :: 'a console_scheme. print_items ps s = Some (s\<lparr>cout := cout s @ out\<rparr>)"
proof (induction ps)
  case (Cons p ps)
  show ?case
  proof (cases "selection p = CHR 0x00")
    case False
    with Cons.prems have "\<exists>p\<in>set ps. selection p = CHR 0x00" by auto
    then obtain out where "\<forall>s :: 'a console_scheme. print_items ps s = Some (s\<lparr>cout := cout s @ out\<rparr>)" using Cons.IH by blast
    with False show ?thesis
      by (auto simp: print_def intro!: exI [of _ "('' '' @ [selection p] @ '': '' @ description p @ [LF]) @ out"])
  qed (auto intro: exI [of _ "[]"])
qed simp

lemma menu_print_total:
  assumes "wf_menu m"
  shows "\<exists>out. \<forall>s :: 'a console_scheme. menu_print m s = Some (s\<lparr>cout := cout s @ out\<rparr>)"
proof -
  obtain out where "\<forall>s :: 'a console_scheme. print_items (items m) s = Some (s\<lparr>cout := cout s @ out\<rparr>)"
    using print_items_total assms unfolding wf_menu_def by blast
  with assms show ?thesis
    by (auto simp: wf_menu_def menu_print_def print_def intro!: exI [of _ "([LF] @ title m @ [LF] @
      replicate (length (title m)) (CHR ''='') @ [LF]) @ out @ prompt m @ ''> ''"])
qed

lemma find_item_total: "\<exists>p\<in>set ps. selection p = CHR 0x00 \<Longrightarrow> \<exists>r. find_item c ps = Some r"
  by (induction ps) auto

lemma find_item_in: "find_item c ps = Some (Some p) \<Longrightarrow> p \<in> set ps \<and> selection p = c \<and> c \<noteq> CHR 0x00"
  by (induction ps) (auto split: if_splits)

definition exits :: "'w Menu \<Rightarrow> char \<Rightarrow> bool" where
  "exits m c \<longleftrightarrow> c \<noteq> LF \<and> c \<noteq> CR \<and> (\<exists>p. find_item c (items m) = Some (Some p) \<and> exit p)"

text \<open>The functions of the items return and read nothing themselves.\<close>

definition items_return :: "'a console_scheme Menu \<Rightarrow> bool" where
  "items_return m \<longleftrightarrow> (\<forall>p\<in>set (items m). \<not> exit p \<and> selection p \<noteq> CHR 0x00 \<longrightarrow>
     (\<exists>f. fn p = Some f \<and> (\<forall>w. \<exists>w'. f w = Some w' \<and> cin w' = cin w)))"


lemma skip_eol_Some: "skip_eol cs = Some (c, rest) \<Longrightarrow> c \<noteq> LF \<and> c \<noteq> CR"
  by (induction cs) (auto split: if_splits)

text \<open>One round of the loop, on a character that does not end a line.\<close>

lemma menu_run_round:
  fixes s :: "'a console_scheme"
  assumes "wf_menu m" and "cin s = c # cs" and "c \<noteq> LF" "c \<noteq> CR"
  shows "\<exists>out. menu_run m s =
    (case find_item c (items m) of
       None \<Rightarrow> None
     | Some None \<Rightarrow> menu_run m (s\<lparr>cin := cs, cout := cout s @ out @ c # '' *unknown*'' @ [LF]\<rparr>)
     | Some (Some p) \<Rightarrow>
         if exit p then Some (s\<lparr>cin := cs, cout := cout s @ out @ [c, LF]\<rparr>)
         else Option.bind (fn p) (\<lambda>f. Option.bind
           (f (s\<lparr>cin := cs, cout := cout s @ out @ [c, LF, LF] @ ''Running '' @ description p @ [LF]\<rparr>))
           (\<lambda>s. menu_run m (puts ''---'' s))))"
proof -
  obtain out where "menu_print m s = Some (s\<lparr>cout := cout s @ out\<rparr>)"
    using menu_print_total [OF assms(1)] by blast
  with assms(2-4) show ?thesis
    by (intro exI [of _ out], subst menu_run.simps)
      (auto simp: menu_get_selection_def print_def split: option.splits)
qed

lemma menu_run_eol:
  fixes s :: "'a console_scheme"
  assumes "wf_menu m" and "cin s = e # cs" and "e = LF \<or> e = CR"
  shows "menu_run m s = menu_run m (s\<lparr>cin := cs\<rparr>)"
proof -
  obtain out where "\<forall>s :: 'a console_scheme. menu_print m s = Some (s\<lparr>cout := cout s @ out\<rparr>)"
    using menu_print_total [OF assms(1)] by blast
  with assms(2,3) have "Option.bind (menu_print m s) (menu_get_selection m) =
      Option.bind (menu_print m (s\<lparr>cin := cs\<rparr>)) (menu_get_selection m)"
    by (auto simp: menu_get_selection_def)
  from arg_cong [OF this, of "\<lambda>r. Option.bind r (\<lambda>(item, s). case item of
        None \<Rightarrow> menu_run m s
      | Some p \<Rightarrow>
          if exit p then Some s
          else do {
            let s = print ([LF] @ ''Running '' @ description p @ [LF]) s;
            f \<leftarrow> fn p;
            s \<leftarrow> f s;
            menu_run m (puts ''---'' s) })"]
  show ?thesis unfolding menu_run.simps [of m s] menu_run.simps [of m "s\<lparr>cin := cs\<rparr>"] by (simp only: bind_assoc)
qed

text \<open>The exit is reached, for use in other theories.\<close>

lemma menu_run_returns:
  assumes "wf_menu m" and "items_return m" and "cin s = pre @ c # rest"
    and "exits m c" and "\<forall>d\<in>set pre. \<not> exits m d"
  shows "\<exists>s'. menu_run m s = Some s' \<and> cin s' = rest"
  using assms(3,5)
proof (induction pre arbitrary: s)
  case Nil
  then show ?case using menu_run_round [OF assms(1), of s c rest] assms(4) by (auto simp: exits_def)
next
  case (Cons d pre)
  show ?case
  proof (cases "d = LF \<or> d = CR")
    case True
    with Cons show ?thesis using menu_run_eol [OF assms(1), of s d "pre @ c # rest"] by simp
  next
    case False
    obtain r where r: "find_item d (items m) = Some r"
      using find_item_total assms(1) by (auto simp: wf_menu_def)
    note round = menu_run_round [OF assms(1), of s d "pre @ c # rest"]
    show ?thesis
    proof (cases r)
      case None
      with round r False Cons.prems Cons.IH show ?thesis by fastforce
    next
      case (Some p)
      with False r Cons.prems have "\<not> exit p" by (auto simp: exits_def)
      moreover have "p \<in> set (items m)" "selection p \<noteq> CHR 0x00"
        using find_item_in [of d "items m" p] r Some by auto
      ultimately obtain f where f: "fn p = Some f" "\<And>w. \<exists>w'. f w = Some w' \<and> cin w' = cin w"
        using assms(2) by (auto simp: items_return_def)
      obtain out where out: "menu_run m s = Option.bind
           (f (s\<lparr>cin := pre @ c # rest, cout := cout s @ out @ [d, LF, LF] @ ''Running '' @ description p @ [LF]\<rparr>))
           (\<lambda>s. menu_run m (puts ''---'' s))"
        using round r False Cons.prems Some f \<open>\<not> exit p\<close> by auto
      obtain w where w: "f (s\<lparr>cin := pre @ c # rest, cout := cout s @ out @ [d, LF, LF] @ ''Running '' @ description p @ [LF]\<rparr>) = Some w"
        "cin w = pre @ c # rest"
        using f(2) [of "s\<lparr>cin := pre @ c # rest, cout := cout s @ out @ [d, LF, LF] @ ''Running '' @ description p @ [LF]\<rparr>"] by auto
      then have "\<exists>s'. menu_run m (puts ''---'' w) = Some s' \<and> cin s' = rest"
        using Cons.prems by (intro Cons.IH) (auto simp: puts_def print_def)
      with out w show ?thesis by simp
    qed
  qed
qed



end
