(* ===== verification/Perf.thy ===== *)
theory Perf
  imports Menu
begin

text \<open>
  The performance counters of \<open>common/src/perf.h\<close> and \<open>perf.cc\<close>. The control and status registers
  are a map from addresses to words. What the CPU does to them between two accesses (the counters
  run) is not part of the code: it is the argument \<open>env\<close>, a function of the number of accesses so
  far and the registers. \<open>cfg\<close> is \<open>CONFIG_CPU_PERF_CSRS\<close>.
\<close>

section \<open>State\<close>

record perf = console +
  csr :: "nat \<Rightarrow> i32"
  accesses :: nat
  CFU_start_counts :: "i32 list"
  counter_num :: int

type_synonym csr_env = "nat \<Rightarrow> (nat \<Rightarrow> i32) \<Rightarrow> nat \<Rightarrow> i32"

definition run_cpu :: "csr_env \<Rightarrow> 'a perf_scheme \<Rightarrow> 'a perf_scheme" where
  "run_cpu env s = s\<lparr>csr := env (accesses s) (csr s), accesses := accesses s + 1\<rparr>"

definition csrr :: "csr_env \<Rightarrow> nat \<Rightarrow> 'a perf_scheme \<Rightarrow> i32 \<times> 'a perf_scheme" where
  "csrr env a s = (let s = run_cpu env s in (csr s a, s))"

definition csrw :: "csr_env \<Rightarrow> nat \<Rightarrow> i32 \<Rightarrow> 'a perf_scheme \<Rightarrow> 'a perf_scheme" where
  "csrw env a v s = (let s = run_cpu env s in s\<lparr>csr := (csr s)(a := v)\<rparr>)"

definition NUM_PERF_COUNTERS :: "bool \<Rightarrow> int" where
  "NUM_PERF_COUNTERS cfg = (if cfg then 8 else 0)"

abbreviation mcycle :: nat where "mcycle \<equiv> 0xB00"
abbreviation mcycleh :: nat where "mcycleh \<equiv> 0xB80"

section \<open>Start counts and the cycle counter\<close>

definition perf_zero_start_counts :: "bool \<Rightarrow> 'a perf_scheme \<Rightarrow> 'a perf_scheme option" where
  "perf_zero_start_counts cfg s =
     cfor 0 (NUM_PERF_COUNTERS cfg) 1 (\<lambda>i s. do {
       counts \<leftarrow> wr (CFU_start_counts s) i 0;
       Some (s\<lparr>CFU_start_counts := counts\<rparr>) }) s"

definition perf_get_start_count :: "int \<Rightarrow> 'a perf_scheme \<Rightarrow> i32 option" where
  "perf_get_start_count i s = rd (CFU_start_counts s) i"

definition perf_get_mcycle :: "csr_env \<Rightarrow> 'a perf_scheme \<Rightarrow> i32 \<times> 'a perf_scheme" where
  "perf_get_mcycle env s = csrr env mcycle s"

text \<open>The loop of the assembly: read \<open>mcycleh\<close>, \<open>mcycle\<close>, \<open>mcycleh\<close> until the halves fit.\<close>

partial_function (option) perf_get_mcycle64 :: "csr_env \<Rightarrow> 'a perf_scheme \<Rightarrow> (i64 \<times> 'a perf_scheme) option" where
  "perf_get_mcycle64 env s =
     (let (cycle_high, s) = csrr env mcycleh s;
          (cycle_low, s) = csrr env mcycle s;
          (cycle_high_2, s) = csrr env mcycleh s
      in if cycle_high \<noteq> cycle_high_2 then perf_get_mcycle64 env s
         else Some (push_bit 32 (ucast cycle_high) OR ucast cycle_low, s))"

definition perf_set_mcycle :: "csr_env \<Rightarrow> i32 \<Rightarrow> 'a perf_scheme \<Rightarrow> 'a perf_scheme" where
  "perf_set_mcycle env cyc s = csrw env mcycle cyc s"

section \<open>Counters\<close>

text \<open>The register of each case of the \<open>switch\<close> statements; the default case accesses none.\<close>

definition counter_csr :: "int \<Rightarrow> nat option" where
  "counter_csr i =
     (if i = 0 then Some 0xB04 else if i = 1 then Some 0xB06 else if i = 2 then Some 0xB08
      else if i = 3 then Some 0xB0A else if i = 4 then Some 0xB0C else if i = 5 then Some 0xB0E
      else if i = 6 then Some 0xB10 else if i = 7 then Some 0xB12 else None)"

definition enable_csr :: "int \<Rightarrow> nat option" where
  "enable_csr i =
     (if i = 0 then Some 0xB05 else if i = 1 then Some 0xB07 else if i = 2 then Some 0xB09
      else if i = 3 then Some 0xB0B else if i = 4 then Some 0xB0D else if i = 5 then Some 0xB0F
      else if i = 6 then Some 0xB11 else if i = 7 then Some 0xB13 else None)"

definition perf_get_counter :: "bool \<Rightarrow> csr_env \<Rightarrow> int \<Rightarrow> 'a perf_scheme \<Rightarrow> i32 \<times> 'a perf_scheme" where
  "perf_get_counter cfg env i s =
     (if cfg then (case counter_csr i of Some a \<Rightarrow> csrr env a s | None \<Rightarrow> (0, s)) else (0, s))"

definition perf_get_counter_enable :: "bool \<Rightarrow> csr_env \<Rightarrow> int \<Rightarrow> 'a perf_scheme \<Rightarrow> i32 \<times> 'a perf_scheme" where
  "perf_get_counter_enable cfg env i s =
     (if cfg then (case enable_csr i of Some a \<Rightarrow> csrr env a s | None \<Rightarrow> (0, s)) else (0, s))"

definition perf_set_counter :: "bool \<Rightarrow> csr_env \<Rightarrow> int \<Rightarrow> i32 \<Rightarrow> 'a perf_scheme \<Rightarrow> 'a perf_scheme" where
  "perf_set_counter cfg env i count s =
     (if cfg then (case counter_csr i of Some a \<Rightarrow> csrw env a count s | None \<Rightarrow> s) else s)"

definition perf_set_counter_enable ::
  "bool \<Rightarrow> csr_env \<Rightarrow> int \<Rightarrow> i32 \<Rightarrow> 'a perf_scheme \<Rightarrow> 'a perf_scheme option" where
  "perf_set_counter_enable cfg env i en s =
     (if cfg then do {
        s \<leftarrow> (if en \<noteq> 0 then do {
            n \<leftarrow> rd (CFU_start_counts s) i;
            counts \<leftarrow> wr (CFU_start_counts s) i (n + 1);
            Some (s\<lparr>CFU_start_counts := counts\<rparr>) }
          else Some s);
        Some (case enable_csr i of Some a \<Rightarrow> csrw env a en s | None \<Rightarrow> s) }
      else Some s)"

definition perf_enable_counter :: "bool \<Rightarrow> csr_env \<Rightarrow> int \<Rightarrow> 'a perf_scheme \<Rightarrow> 'a perf_scheme option" where
  "perf_enable_counter cfg env i = perf_set_counter_enable cfg env i 1"

definition perf_disable_counter :: "bool \<Rightarrow> csr_env \<Rightarrow> int \<Rightarrow> 'a perf_scheme \<Rightarrow> 'a perf_scheme option" where
  "perf_disable_counter cfg env i = perf_set_counter_enable cfg env i 0"

definition perf_reset_all_counters :: "bool \<Rightarrow> csr_env \<Rightarrow> 'a perf_scheme \<Rightarrow> 'a perf_scheme option" where
  "perf_reset_all_counters cfg env s = do {
     s \<leftarrow> cfor 0 (NUM_PERF_COUNTERS cfg) 1 (\<lambda>i s. do {
       s \<leftarrow> perf_disable_counter cfg env i s;
       Some (perf_set_counter cfg env i 0 s) }) s;
     perf_zero_start_counts cfg s }"

section \<open>Printing\<close>

definition perf_print_human :: "i64 \<Rightarrow> 'a console_scheme \<Rightarrow> 'a console_scheme" where
  "perf_print_human n =
     (if n > 9999999 then print (blanks 6 (dec (uint ((n + 500000) div 1000000))) @ ''M'')
      else if n > 9999 then print (blanks 6 (dec (uint ((n + 500) div 1000))) @ ''k'')
      else print (blanks 6 (dec (uint n)) @ '' ''))"

definition perf_print_value :: "i64 \<Rightarrow> 'a console_scheme \<Rightarrow> 'a console_scheme" where
  "perf_print_value n s = print ('' ('' @ blanks 12 (dec (uint n)) @ '')'') (perf_print_human n s)"

definition print_counter_row :: "int \<Rightarrow> i32 \<Rightarrow> i32 \<Rightarrow> 'a console_scheme \<Rightarrow> 'a console_scheme" where
  "print_counter_row i cycles starts s = (
     let s = print (''  '' @ blanks 3 (dec i) @ ''    |'') s;
         s = perf_print_human (ucast cycles) s;
         s = print ('' | '' @ blanks 5 (dec (uint starts)) @ ''  |'') s;
         s = (if starts \<noteq> 0 then perf_print_human (ucast (cycles div starts)) s else print ''   n/a '' s)
     in print (''  | '' @ blanks 12 (dec (uint cycles)) @ [LF]) s)"

definition perf_print_all_counters :: "bool \<Rightarrow> csr_env \<Rightarrow> 'a perf_scheme \<Rightarrow> 'a perf_scheme option" where
  "perf_print_all_counters cfg env s =
     (if NUM_PERF_COUNTERS cfg = 0 then Some (print (''Perf counters not enabled.'' @ [LF]) s)
      else do {
        s \<leftarrow> cfor 0 (NUM_PERF_COUNTERS cfg) 1 (perf_disable_counter cfg env) s;
        let s = print ('' Counter |  Total | Starts | Average |     Raw'' @ [LF]) s;
        let s = print (''---------+--------+--------+---------+--------------'' @ [LF]) s;
        cfor 0 (NUM_PERF_COUNTERS cfg) 1 (\<lambda>i s. do {
          let (cycles, s) = perf_get_counter cfg env i s;
          starts \<leftarrow> perf_get_start_count i s;
          let cycles = cycles - starts * 3;
          Some (print_counter_row i cycles starts s) }) s })"

section \<open>The menu of the counters\<close>

definition show_counter :: "bool \<Rightarrow> csr_env \<Rightarrow> int \<Rightarrow> 'a perf_scheme \<Rightarrow> 'a perf_scheme option" where
  "show_counter cfg env k s = (
     let s = s\<lparr>counter_num := k\<rparr>;
         (n, s) = perf_get_counter cfg env (counter_num s) s
     in Some (print (''-curr perf counter '' @ dec (counter_num s) @ '': '' @ dec (uint n) @ [LF]) s))"

definition do_perf_set_0 :: "bool \<Rightarrow> csr_env \<Rightarrow> 'a perf_scheme \<Rightarrow> 'a perf_scheme option" where
  "do_perf_set_0 cfg env = show_counter cfg env 0"

definition do_perf_set_1 :: "bool \<Rightarrow> csr_env \<Rightarrow> 'a perf_scheme \<Rightarrow> 'a perf_scheme option" where
  "do_perf_set_1 cfg env = show_counter cfg env 1"

definition do_perf_enable :: "bool \<Rightarrow> csr_env \<Rightarrow> 'a perf_scheme \<Rightarrow> 'a perf_scheme option" where
  "do_perf_enable cfg env s =
     perf_set_counter_enable cfg env (counter_num s) 1
       (print (''enable perf counter '' @ dec (counter_num s) @ [LF]) s)"

definition do_perf_pause :: "bool \<Rightarrow> csr_env \<Rightarrow> 'a perf_scheme \<Rightarrow> 'a perf_scheme option" where
  "do_perf_pause cfg env s =
     perf_set_counter_enable cfg env (counter_num s) 0
       (print (''pause perf counter '' @ dec (counter_num s) @ [LF]) s)"

definition do_perf_zero :: "bool \<Rightarrow> csr_env \<Rightarrow> 'a perf_scheme \<Rightarrow> 'a perf_scheme option" where
  "do_perf_zero cfg env s = do {
     let s = print (''zero perf counter '' @ dec (counter_num s) @ '' and mcycle'' @ [LF]) s;
     let s = perf_set_mcycle env 0 s;
     s \<leftarrow> perf_set_counter_enable cfg env (counter_num s) 0 s;
     Some (perf_set_counter cfg env (counter_num s) 0 s) }"

definition do_perf_show :: "bool \<Rightarrow> csr_env \<Rightarrow> 'a perf_scheme \<Rightarrow> 'a perf_scheme option" where
  "do_perf_show cfg env s = (
     let s = print (''Counters:'' @ [LF]) s;
         (n0, s) = perf_get_counter cfg env 0 s;
         s = print (''  0:      '' @ blanks 8 (dec (sint n0)) @ [LF]) s;
         (n1, s) = perf_get_counter cfg env 1 s;
         s = print (''  1:      '' @ blanks 8 (dec (sint n1)) @ [LF]) s;
         (n, s) = perf_get_mcycle env s
     in Some (print (''  mcycle: '' @ blanks 8 (dec (sint n)) @ [LF]) s))"

text \<open>The loops of \<open>nop\<close>s change nothing that the code reads; they are left out.\<close>

definition print_cycles :: "string \<Rightarrow> nat \<Rightarrow> i32 \<Rightarrow> 'a console_scheme \<Rightarrow> 'a console_scheme" where
  "print_cycles text w n = print (text @ blanks w (dec (uint n)))"

definition do_perf_measure :: "bool \<Rightarrow> csr_env \<Rightarrow> 'a perf_scheme \<Rightarrow> 'a perf_scheme option" where
  "do_perf_measure cfg env s = do {
     let en = perf_enable_counter cfg env;
     let dis = perf_disable_counter cfg env;
     let get = perf_get_counter cfg env;
     s \<leftarrow> perf_reset_all_counters cfg env s;
     s \<leftarrow> en 0 s;
     s \<leftarrow> dis 0 s;
     s \<leftarrow> en 1 s;
     s \<leftarrow> cfor 0 1000000 1 (\<lambda>i s. do { s \<leftarrow> en 2 s; dis 2 s }) s;
     s \<leftarrow> dis 1 s;
     s \<leftarrow> en 3 s;
     s \<leftarrow> cfor 0 1000000 1 (\<lambda>i s. do { s \<leftarrow> en 4 s; s \<leftarrow> en 5 s; s \<leftarrow> dis 5 s; dis 4 s }) s;
     s \<leftarrow> dis 3 s;
     let (n, s) = get 0 s;
     let s = print [LF] (print_cycles ''1 x 1M iterations:    '' 7 n s);
     let (n, s) = get 2 s;
     let s = print [LF] (print_cycles ''1M x measure nothing: '' 7 n s);
     let (n, s) = get 5 s;
     let s = print [LF] (print_cycles ''1M x measure nop:     '' 7 n s);
     let (n, s) = get 4 s;
     let s = print [LF] (print_cycles ''1M x measure 1 x nop: '' 7 n s);
     let (n4, s) = get 4 s;
     let (n5, s) = get 5 s;
     let s = print [LF, LF, LF] (print_cycles ''1M measurements:      '' 7 (n4 - n5) s);
     let (n, s) = get 2 s;
     let s = print ('' cycles per start'' @ [LF]) (print_cycles ''All measurements add        '' 2 (n div 1000000) s);
     let (n4, s) = get 4 s;
     let (n5, s) = get 5 s;
     Some (print ('' cycles per start'' @ [LF]) (print_cycles ''Counter enable+disable adds '' 2 ((n4 - n5) div 1000000) s)) }"

definition PERF_MENU :: "bool \<Rightarrow> csr_env \<Rightarrow> 'a perf_scheme Menu" where
  "PERF_MENU cfg env =
     \<lparr>title = ''Performance Counter Tests'', prompt = ''perf counter'',
      items =
        [MENU_ITEM (CHR ''0'') ''switch to perf counter 0 and show value'' (do_perf_set_0 cfg env),
         MENU_ITEM (CHR ''1'') ''switch to perf counter 1 and show value'' (do_perf_set_1 cfg env),
         MENU_ITEM (CHR ''e'') ''Enable current perf counter'' (do_perf_enable cfg env),
         MENU_ITEM (CHR ''p'') ''Pause current perf counter'' (do_perf_pause cfg env),
         MENU_ITEM (CHR ''z'') ''Zero current perf counter and mcycle'' (do_perf_zero cfg env),
         MENU_ITEM (CHR ''s'') ''Show perf counters and mcycle values'' (do_perf_show cfg env),
         MENU_ITEM (CHR ''m'') ''Measure counter overhead'' (do_perf_measure cfg env)]
        @ MENU_END\<rparr>"

definition perf_test_menu :: "bool \<Rightarrow> csr_env \<Rightarrow> 'a perf_scheme \<Rightarrow> 'a perf_scheme option" where
  "perf_test_menu cfg env = menu_run (PERF_MENU cfg env)"

section \<open>Reading the cycle counter\<close>

definition cycles_of :: "(nat \<Rightarrow> i32) \<Rightarrow> int" where
  "cycles_of r = uint (r mcycleh) * 2 ^ 32 + uint (r mcycle)"

text \<open>Fewer than \<open>2 ^ 29\<close> cycles between two accesses (five seconds at 100 MHz).\<close>

definition clock_ok :: "csr_env \<Rightarrow> bool" where
  "clock_ok env \<longleftrightarrow> (\<forall>n r. cycles_of r < 2 ^ 63 \<longrightarrow>
     cycles_of r \<le> cycles_of (env n r) \<and> cycles_of (env n r) < cycles_of r + 2 ^ 29)"

lemma cycles_halves: "uint (r mcycleh) = cycles_of r div 2 ^ 32" "uint (r mcycle) = cycles_of r mod 2 ^ 32"
proof -
  have "0 \<le> uint (r mcycle)" "uint (r mcycle) < 2 ^ 32" using uint_lt2p [of "r mcycle"] by simp_all
  then show "uint (r mcycleh) = cycles_of r div 2 ^ 32" "uint (r mcycle) = cycles_of r mod 2 ^ 32"
    by (simp_all add: cycles_of_def)
qed

lemma uint_join: "uint (push_bit 32 (ucast h) OR ucast l :: i64) = uint (h :: i32) * 2 ^ 32 + uint (l :: i32)"
proof -
  have b: "uint h * 2 ^ 32 < 2 ^ 64" "uint l < 2 ^ 32" using uint_lt2p [of h] uint_lt2p [of l] by simp_all
  have "push_bit 32 (ucast h) OR ucast l = (push_bit 32 (ucast h) + ucast l :: i64)"
    by (rule disjunctive_add [symmetric]) (auto simp: bit_push_bit_iff bit_ucast_iff dest: bit_imp_le_length)
  moreover have "uint (push_bit 32 (ucast h) + ucast l :: i64) = (uint h * 2 ^ 32 + uint l) mod 2 ^ 64"
    by (simp add: uint_word_ariths push_bit_eq_mult unsigned_ucast_eq take_bit_eq_mod mod_simps)
  moreover have "uint h * 2 ^ 32 + uint l < 2 ^ 64" using uint_lt2p [of h] b by simp
  ultimately show ?thesis by simp
qed

lemma carry_once:
  fixes a b d e :: int
  assumes "a \<le> b" and "a div 2 ^ 32 \<noteq> b div 2 ^ 32" and "b < a + 2 ^ 30" and "b \<le> d" and "d \<le> e" and "e < b + 3 * 2 ^ 29"
  shows "d div 2 ^ 32 = e div 2 ^ 32"
proof -
  define q where "q = b div 2 ^ 32"
  have "a div 2 ^ 32 < q" using zdiv_mono1 [OF assms(1), of "2 ^ 32"] assms(2) by (simp add: q_def)
  then have "a < q * 2 ^ 32" using div_mult_mod_eq [of a "2 ^ 32"] pos_mod_bound [of "2 ^ 32" a] by simp
  moreover have "q * 2 ^ 32 \<le> b" using div_mult_mod_eq [of b "2 ^ 32"] pos_mod_sign [of "2 ^ 32" b] by (simp add: q_def)
  ultimately have "0 \<le> d - q * 2 ^ 32" "d - q * 2 ^ 32 < 2 ^ 32" "0 \<le> e - q * 2 ^ 32" "e - q * 2 ^ 32 < 2 ^ 32"
    using assms by simp_all
  then have "(q * 2 ^ 32 + (d - q * 2 ^ 32)) div 2 ^ 32 = q" "(q * 2 ^ 32 + (e - q * 2 ^ 32)) div 2 ^ 32 = q"
    by simp_all
  then show ?thesis by simp
qed

text \<open>When the upper half is the same before and after, the two halves belong to the value read in between.\<close>

lemma join_within_round:
  assumes "cycles_of r1 div 2 ^ 32 = cycles_of r3 div 2 ^ 32" and "cycles_of r1 \<le> cycles_of r2" and "cycles_of r2 \<le> cycles_of r3"
  shows "uint (push_bit 32 (ucast (r1 mcycleh)) OR ucast (r2 mcycle) :: i64) = cycles_of r2"
proof -
  have "cycles_of r1 div 2 ^ 32 = cycles_of r2 div 2 ^ 32"
    using assms zdiv_mono1 [of "cycles_of r1" "cycles_of r2" "2 ^ 32"] zdiv_mono1 [of "cycles_of r2" "cycles_of r3" "2 ^ 32"] by simp
  then show ?thesis by (simp add: uint_join cycles_halves)
qed

text \<open>
  C18. \<open>perf_get_mcycle64\<close> returns, after at most two rounds, and the value it returns is one the
  64-bit counter had during the call, even when \<open>mcycle\<close> overflows between the reads.
\<close>
theorem mcycle64_valid:
  assumes "clock_ok env" and "cycles_of (csr s) < 2 ^ 62"
  shows "\<exists>v s'. perf_get_mcycle64 env s = Some (v, s') \<and>
    cycles_of (csr s) \<le> uint v \<and> uint v \<le> cycles_of (csr s') \<and> accesses s' \<le> accesses s + 6"
proof -
  define r where "r = (\<lambda>k. rec_nat (csr s) (\<lambda>k r. env (accesses s + k) r) k)"
  define c where "c k = cycles_of (r k)" for k
  define st where "st k = s\<lparr>csr := r k, accesses := accesses s + k\<rparr>" for k
  have c0: "c 0 = cycles_of (csr s)" "st 0 = s" by (simp_all add: c_def r_def st_def)
  have read: "csrr env a (st k) = (r (Suc k) a, st (Suc k))" for a k
    by (simp add: csrr_def run_cpu_def st_def r_def)
  have step: "c k \<le> c (Suc k) \<and> c (Suc k) < c k + 2 ^ 29" if "c k < 2 ^ 63" for k
    using assms(1) that by (simp add: clock_ok_def c_def r_def)
  have once: "perf_get_mcycle64 env (st k) =
      (if c (Suc k) div 2 ^ 32 \<noteq> c (Suc (Suc (Suc k))) div 2 ^ 32 then perf_get_mcycle64 env (st (Suc (Suc (Suc k))))
       else Some (push_bit 32 (ucast (r (Suc k) mcycleh)) OR ucast (r (Suc (Suc k)) mcycle), st (Suc (Suc (Suc k)))))" for k
    by (subst perf_get_mcycle64.simps) (simp add: read c_def word_uint_eq_iff cycles_halves(1))
  have val: "uint (push_bit 32 (ucast (r (Suc k) mcycleh)) OR ucast (r (Suc (Suc k)) mcycle) :: i64) = c (Suc (Suc k))"
    if "c (Suc k) div 2 ^ 32 = c (Suc (Suc (Suc k))) div 2 ^ 32" "c (Suc k) \<le> c (Suc (Suc k))" "c (Suc (Suc k)) \<le> c (Suc (Suc (Suc k)))" for k
    using that join_within_round unfolding c_def by blast
  define c1 c2 c3 c4 c5 c6 where "c1 = c (Suc 0)" and "c2 = c (Suc (Suc 0))" and "c3 = c (Suc (Suc (Suc 0)))"
    and "c4 = c (Suc (Suc (Suc (Suc 0))))" and "c5 = c (Suc (Suc (Suc (Suc (Suc 0)))))"
    and "c6 = c (Suc (Suc (Suc (Suc (Suc (Suc 0))))))"
  note cdefs = this [symmetric]
  have s1: "c 0 \<le> c1 \<and> c1 < c 0 + 2 ^ 29" using step [of 0] assms(2) by (simp add: c0 cdefs)
  then have s2: "c1 \<le> c2 \<and> c2 < c1 + 2 ^ 29" using step [of "Suc 0"] assms(2) by (simp add: c0 cdefs)
  then have s3: "c2 \<le> c3 \<and> c3 < c2 + 2 ^ 29" using step [of "Suc (Suc 0)"] assms(2) s1 by (simp add: c0 cdefs)
  then have s4: "c3 \<le> c4 \<and> c4 < c3 + 2 ^ 29" using step [of "Suc (Suc (Suc 0))"] assms(2) s1 s2 by (simp add: c0 cdefs)
  then have s5: "c4 \<le> c5 \<and> c5 < c4 + 2 ^ 29" using step [of "Suc (Suc (Suc (Suc 0)))"] assms(2) s1 s2 s3 by (simp add: c0 cdefs)
  then have s6: "c5 \<le> c6 \<and> c6 < c5 + 2 ^ 29" using step [of "Suc (Suc (Suc (Suc (Suc 0))))"] assms(2) s1 s2 s3 s4 by (simp add: c0 cdefs)
  have result: ?thesis if "perf_get_mcycle64 env (st 0) = Some (v, st j)" "c 0 \<le> uint v" "uint v \<le> c j" "j \<le> 6" for v j
    using that by (intro exI [of _ v] exI [of _ "st j"]) (simp add: c0, simp add: st_def c_def)
  show ?thesis
  proof (cases "c1 div 2 ^ 32 = c3 div 2 ^ 32")
    case True
    with once [of 0] val [of 0] s1 s2 s3 show ?thesis by (intro result) (auto simp: cdefs)
  next
    case False
    have "c4 div 2 ^ 32 = c6 div 2 ^ 32"
      by (rule carry_once [OF _ False]) (use s2 s3 s4 s5 s6 in simp_all)
    with once [of 0] once [of "Suc (Suc (Suc 0))"] val [of "Suc (Suc (Suc 0))"] s1 s2 s3 s4 s5 s6 False
    show ?thesis by (intro result) (auto simp: cdefs)
  qed
qed


text \<open>A CPU that spends \<open>k\<close> cycles between two accesses.\<close>

definition advance :: "int \<Rightarrow> csr_env" where
  "advance k n r = (let c = cycles_of r + k in r(mcycleh := word_of_int (c div 2 ^ 32), mcycle := word_of_int c))"

lemma cycles_advance:
  assumes "0 \<le> k" and "cycles_of r + k < 2 ^ 64"
  shows "cycles_of (advance k n r) = cycles_of r + k"
proof -
  define c where "c = cycles_of r + k"
  have "0 \<le> c" "c < 2 ^ 64" using assms by (simp_all add: c_def cycles_of_def)
  then have "0 \<le> c div 2 ^ 32" "c div 2 ^ 32 < 2 ^ 32" by (simp_all add: pos_imp_zdiv_nonneg_iff)
  then have "uint (word_of_int (c div 2 ^ 32) :: i32) = c div 2 ^ 32" by (simp add: uint_word_of_int)
  moreover have "uint (word_of_int c :: i32) = c mod 2 ^ 32" by (simp add: uint_word_of_int)
  ultimately show ?thesis
    by (simp add: advance_def cycles_of_def [of "_(_ := _)"] flip: c_def)
qed

lemma clock_advance: "0 \<le> k \<Longrightarrow> k < 2 ^ 29 \<Longrightarrow> clock_ok (advance k)"
  by (simp add: clock_ok_def cycles_advance)

lemma mcycle64_valid_witness:
  "\<exists>v s'. perf_get_mcycle64 (advance 1000)
     \<lparr>cin = [], cout = [], csr = (\<lambda>a. if a = mcycle then 0xFFFFFF00 else 0), accesses = 0, CFU_start_counts = [], counter_num = 0\<rparr>
     = Some (v, s') \<and> 0xFFFFFF00 \<le> uint v \<and> uint v \<le> cycles_of (csr s') \<and> accesses s' \<le> 6"
proof -
  let ?s = "\<lparr>cin = [], cout = [], csr = (\<lambda>a. if a = mcycle then 0xFFFFFF00 else 0), accesses = 0, CFU_start_counts = [], counter_num = 0\<rparr>"
  have "cycles_of (csr ?s) = 0xFFFFFF00" by (simp add: cycles_of_def)
  with mcycle64_valid [OF clock_advance, of 1000 ?s] show ?thesis by simp
qed

section \<open>Counters that do not run\<close>

lemma counter_csr_eq: "0 \<le> i \<Longrightarrow> i < 8 \<Longrightarrow> counter_csr i = Some (0xB04 + 2 * nat i)"
  by (auto simp: counter_csr_def)

lemma enable_csr_eq: "0 \<le> i \<Longrightarrow> i < 8 \<Longrightarrow> enable_csr i = Some (0xB05 + 2 * nat i)"
  by (auto simp: enable_csr_def)

lemma csr_None: "i < 0 \<or> 8 \<le> i \<Longrightarrow> counter_csr i = None" "i < 0 \<or> 8 \<le> i \<Longrightarrow> enable_csr i = None"
  by (auto simp: counter_csr_def enable_csr_def)

text \<open>The CPU does not write the enable registers and a disabled counter keeps its value.\<close>

definition counts_when_enabled :: "csr_env \<Rightarrow> bool" where
  "counts_when_enabled env \<longleftrightarrow> (\<forall>n r. \<forall>i < 8.
     env n r (0xB05 + 2 * i) = r (0xB05 + 2 * i) \<and>
     (r (0xB05 + 2 * i) = 0 \<longrightarrow> env n r (0xB04 + 2 * i) = r (0xB04 + 2 * i)))"

text \<open>Counter \<open>i\<close> is disabled and at zero.\<close>

definition cleared :: "'a perf_scheme \<Rightarrow> int \<Rightarrow> bool" where
  "cleared s i \<longleftrightarrow> csr s (0xB04 + 2 * nat i) = 0 \<and> csr s (0xB05 + 2 * nat i) = 0"

lemma cleared_csrw:
  assumes "counts_when_enabled env" and "cleared s i" "0 \<le> i" "i < 8"
    and "a = 0xB04 + 2 * nat i \<or> a = 0xB05 + 2 * nat i \<longrightarrow> v = 0"
  shows "cleared (csrw env a v s) i"
proof -
  have "nat i < 8" using assms(3,4) by simp
  with assms show ?thesis
    by (auto simp: cleared_def csrw_def run_cpu_def counts_when_enabled_def)
qed

lemma csrw_frame [simp]:
  "CFU_start_counts (csrw env a v s) = CFU_start_counts s" "cin (csrw env a v s) = cin s" "cout (csrw env a v s) = cout s"
  "csr (csrw env a v s) a = v"
  by (simp_all add: csrw_def run_cpu_def Let_def)

lemma clear_counter:
  assumes "counts_when_enabled env" and "0 \<le> i" "i < 8"
  shows "cleared (csrw env (0xB04 + 2 * nat i) 0 (csrw env (0xB05 + 2 * nat i) 0 s)) i"
proof -
  have "nat i < 8" using assms by simp
  with assms(1) show ?thesis
    by (simp add: cleared_def csrw_def run_cpu_def counts_when_enabled_def)
qed

text \<open>
  \<open>perf_reset_all_counters\<close> leaves all eight counters disabled, at zero and with no starts, and
  prints and reads nothing.
\<close>
theorem perf_reset_clears:
  assumes "counts_when_enabled env" and "length (CFU_start_counts s) = 8"
  shows "ok (perf_reset_all_counters True env s) (\<lambda>s'. (\<forall>i\<in>{0..<8}. cleared s' i) \<and>
    CFU_start_counts s' = replicate 8 0 \<and> cin s' = cin s \<and> cout s' = cout s)"
proof -
  have first: "ok (cfor 0 8 1 (\<lambda>i s. do {
       s \<leftarrow> perf_disable_counter True env i s;
       Some (perf_set_counter True env i 0 s) }) s)
     (\<lambda>s'. (\<forall>i\<in>{0..<8}. cleared s' i) \<and> length (CFU_start_counts s') = 8 \<and> cin s' = cin s \<and> cout s' = cout s)"
  proof (rule ok_cfor [where I = "\<lambda>k s'. k \<le> 8 \<and> (\<forall>i\<in>{0..<k}. cleared s' i) \<and>
      length (CFU_start_counts s') = 8 \<and> cin s' = cin s \<and> cout s' = cout s"], goal_cases)
    case (3 k t)
    let ?t = "csrw env (0xB04 + 2 * nat k) 0 (csrw env (0xB05 + 2 * nat k) 0 t)"
    have "cleared ?t i" if "0 \<le> i" "i < k + 1" for i
    proof (cases "i = k")
      case True
      then show ?thesis using clear_counter [OF assms(1), of k] 3 by simp
    next
      case False
      then have "cleared t i" using 3 that by auto
      then show ?thesis using 3 that by (auto intro!: cleared_csrw assms(1))
    qed
    with 3 show ?case
      by (auto simp: perf_disable_counter_def perf_set_counter_enable_def perf_set_counter_def ok_simps
          counter_csr_eq enable_csr_eq)
  qed (use assms(2) in auto)
  have second: "ok (perf_zero_start_counts True t) (\<lambda>s'. CFU_start_counts s' = replicate 8 0 \<and> csr s' = csr t \<and>
      cin s' = cin t \<and> cout s' = cout t)" if "length (CFU_start_counts t) = 8" for t :: "'a perf_scheme"
    unfolding perf_zero_start_counts_def NUM_PERF_COUNTERS_def if_True
  proof (rule ok_cfor [where I = "\<lambda>k s'. k \<le> 8 \<and> length (CFU_start_counts s') = 8 \<and>
      (\<forall>i < nat k. CFU_start_counts s' ! i = 0) \<and> csr s' = csr t \<and> cin s' = cin t \<and> cout s' = cout t"], goal_cases)
    case (3 k u)
    then show ?case by (auto simp: ok_simps nth_list_update less_Suc_eq nat_add_distrib)
  next
    case (4 k u)
    then show ?case by (auto intro: nth_equalityI)
  qed (use that in auto)
  show ?thesis
    unfolding perf_reset_all_counters_def NUM_PERF_COUNTERS_def if_True
    by (rule ok_bindI [OF first]) (auto elim!: ok_mono [OF second] simp: cleared_def)
qed


text \<open>A CPU that adds 5 to every counter that is enabled.\<close>

definition count_enabled :: csr_env where
  "count_enabled n r a = (if even a \<and> 0xB04 \<le> a \<and> a \<le> 0xB12 \<and> r (a + 1) \<noteq> 0 then r a + 5 else r a)"

lemma perf_reset_clears_witness:
  "ok (perf_reset_all_counters True count_enabled
      \<lparr>cin = [], cout = [], csr = (\<lambda>a. 7), accesses = 0, CFU_start_counts = replicate 8 3, counter_num = 0\<rparr>)
    (\<lambda>s'. cleared s' 0 \<and> cleared s' 7 \<and> CFU_start_counts s' = replicate 8 0)"
proof -
  have "counts_when_enabled count_enabled" by (auto simp: counts_when_enabled_def count_enabled_def)
  from perf_reset_clears [OF this, of "\<lparr>cin = [], cout = [], csr = (\<lambda>a. 7), accesses = 0, CFU_start_counts = replicate 8 3, counter_num = 0\<rparr>"]
  show ?thesis by (auto elim!: ok_mono)
qed

section \<open>Starts\<close>

datatype perf_op = Enable int | Disable int

fun perf_run :: "csr_env \<Rightarrow> perf_op list \<Rightarrow> 'a perf_scheme \<Rightarrow> 'a perf_scheme option" where
  "perf_run env [] s = Some s"
| "perf_run env (Enable i # ops) s = do { s \<leftarrow> perf_enable_counter True env i s; perf_run env ops s }"
| "perf_run env (Disable i # ops) s = do { s \<leftarrow> perf_disable_counter True env i s; perf_run env ops s }"

text \<open>
  C19. Whatever sequence of enabling and disabling the eight counters go through, the start count
  of each grows by one for every time it was enabled, and the other counters' by nothing.
\<close>
theorem starts_count_enables:
  assumes "\<forall>op\<in>set ops. \<exists>i. 0 \<le> i \<and> i < 8 \<and> (op = Enable i \<or> op = Disable i)"
    and "length (CFU_start_counts s) = 8" and "0 \<le> j" and "j < 8"
  shows "ok (perf_run env ops s) (\<lambda>s'. length (CFU_start_counts s') = 8 \<and>
    perf_get_start_count j s' = Some (CFU_start_counts s ! nat j + of_nat (count_list ops (Enable j))))"
  using assms(1,2)
proof (induction ops arbitrary: s)
  case Nil
  with assms(3,4) show ?case by (simp add: ok_simps perf_get_start_count_def rd_def)
next
  case (Cons op ops)
  then obtain i where i: "0 \<le> i" "i < 8" "op = Enable i \<or> op = Disable i" by auto
  from i(3) show ?case
  proof
    assume op: "op = Enable i"
    let ?s = "csrw env (0xB05 + 2 * nat i) 1 (s\<lparr>CFU_start_counts := (CFU_start_counts s)[nat i := CFU_start_counts s ! nat i + 1]\<rparr>)"
    have "perf_enable_counter True env i s = Some ?s"
      using i Cons.prems by (simp add: perf_enable_counter_def perf_set_counter_enable_def rd_def wr_def enable_csr_eq)
    moreover have "ok (perf_run env ops ?s) (\<lambda>s'. length (CFU_start_counts s') = 8 \<and>
      perf_get_start_count j s' = Some (CFU_start_counts ?s ! nat j + of_nat (count_list ops (Enable j))))"
      using Cons.prems by (intro Cons.IH) auto
    moreover have "CFU_start_counts ?s ! nat j = CFU_start_counts s ! nat j + (if i = j then 1 else 0)"
      using i assms(3,4) Cons.prems by (auto simp: nth_list_update)
    ultimately show ?thesis using op by (auto elim!: ok_mono simp: algebra_simps)
  next
    assume op: "op = Disable i"
    have "perf_disable_counter True env i s = Some (csrw env (0xB05 + 2 * nat i) 0 s)"
      using i by (simp add: perf_disable_counter_def perf_set_counter_enable_def enable_csr_eq)
    moreover have "ok (perf_run env ops (csrw env (0xB05 + 2 * nat i) 0 s)) (\<lambda>s'. length (CFU_start_counts s') = 8 \<and>
      perf_get_start_count j s' = Some (CFU_start_counts (csrw env (0xB05 + 2 * nat i) 0 s) ! nat j + of_nat (count_list ops (Enable j))))"
      using Cons.prems by (intro Cons.IH) auto
    ultimately show ?thesis using op by simp
  qed
qed

lemma starts_count_enables_witness:
  "ok (perf_run count_enabled [Enable 2, Disable 2, Enable 3, Enable 2]
      \<lparr>cin = [], cout = [], csr = (\<lambda>a. 0), accesses = 0, CFU_start_counts = replicate 8 0, counter_num = 0\<rparr>)
    (\<lambda>s'. perf_get_start_count 2 s' = Some 2)"
  using starts_count_enables [of "[Enable 2, Disable 2, Enable 3, Enable 2]"
    "\<lparr>cin = [], cout = [], csr = (\<lambda>a. 0), accesses = 0, CFU_start_counts = replicate 8 0, counter_num = 0\<rparr>" 2 count_enabled]
  by (auto elim!: ok_mono)

text \<open>
  A counter that does not exist: reading it gives zero and setting or disabling it does
  nothing, but enabling it writes outside \<open>CFU_start_counts\<close>.
\<close>
theorem perf_counter_out_of_range:
  assumes "i < 0 \<or> 8 \<le> i" and "length (CFU_start_counts s) = 8"
  shows "perf_get_counter cfg env i s = (0, s) \<and> perf_get_counter_enable cfg env i s = (0, s) \<and>
    perf_set_counter cfg env i n s = s \<and> perf_disable_counter cfg env i s = Some s \<and>
    perf_enable_counter True env i s = None"
  using assms by (auto simp: perf_get_counter_def perf_get_counter_enable_def perf_set_counter_def
      perf_disable_counter_def perf_enable_counter_def perf_set_counter_enable_def csr_None rd_def)

lemma perf_counter_out_of_range_witness:
  "perf_enable_counter True count_enabled 8
     \<lparr>cin = [], cout = [], csr = (\<lambda>a. 0), accesses = 0, CFU_start_counts = replicate 8 0, counter_num = 0\<rparr> = None"
  using perf_counter_out_of_range [of 8 "\<lparr>cin = [], cout = [], csr = (\<lambda>a. 0), accesses = 0, CFU_start_counts = replicate 8 0, counter_num = 0\<rparr>"]
  by simp

section \<open>Readable numbers\<close>

text \<open>
  \<open>perf_print_human\<close> prints a number of units, of one, a thousand or a million, that is
  within half a unit of the value, and up to 999999 million it fills exactly seven columns.
\<close>
theorem perf_print_human_rounds:
  assumes "uint n < 2 ^ 64 - 500000"
  shows "\<exists>q u k. perf_print_human n s = print (blanks 6 (dec q) @ [u]) s \<and>
    (u, k) \<in> {(CHR '' '', 1), (CHR ''k'', 1000), (CHR ''M'', 1000000)} \<and>
    2 * \<bar>q * k - uint n\<bar> \<le> k \<and> (uint n < 999999500000 \<longrightarrow> length (blanks 6 (dec q) @ [u]) = 7)"
proof -
  have len: "length (blanks 6 (dec q) @ [u]) = 7" if "0 \<le> q" "q < 1000000" for q u
    using digits_length [of 10 q 6] that by (simp add: pad_def dec_def)
  have round: "2 * \<bar>(x + k div 2) div k * k - x\<bar> \<le> k" if "k \<in> {1000, 1000000}" for x k :: int
  proof -
    have "0 \<le> (x + k div 2) mod k" "(x + k div 2) mod k < k" using that by auto
    then show ?thesis using div_mult_mod_eq [of "x + k div 2" k] that by (auto simp: abs_if)
  qed
  consider "uint n > 9999999" | "uint n \<le> 9999999" "uint n > 9999" | "uint n \<le> 9999" by linarith
  then show ?thesis
  proof cases
    case 1
    have "uint (n + 500000) = uint n + 500000" using assms by (subst uint_add_lem [THEN iffD1]) simp_all
    then have "uint ((n + 500000) div 1000000) = (uint n + 500000) div 1000000" by (simp add: uint_div_distrib)
    with 1 round [of 1000000 "uint n"] len show ?thesis
      by (intro exI [of _ "(uint n + 500000) div 1000000"] exI [of _ "CHR ''M''"] exI [of _ 1000000])
        (auto simp: perf_print_human_def word_less_def)
  next
    case 2
    have "uint (n + 500) = uint n + 500" using assms by (subst uint_add_lem [THEN iffD1]) simp_all
    then have "uint ((n + 500) div 1000) = (uint n + 500) div 1000" by (simp add: uint_div_distrib)
    with 2 round [of 1000 "uint n"] len show ?thesis
      by (intro exI [of _ "(uint n + 500) div 1000"] exI [of _ "CHR ''k''"] exI [of _ 1000])
        (auto simp: perf_print_human_def word_less_def)
  next
    case 3
    with len show ?thesis
      by (intro exI [of _ "uint n"] exI [of _ "CHR '' ''"] exI [of _ 1]) (auto simp: perf_print_human_def word_less_def)
  qed
qed

lemma perf_print_human_rounds_witness:
  "\<exists>q u k. perf_print_human 1234567 \<lparr>cin = [], cout = []\<rparr> = print (blanks 6 (dec q) @ [u]) \<lparr>cin = [], cout = []\<rparr> \<and>
    2 * \<bar>q * k - 1234567\<bar> \<le> k"
  using perf_print_human_rounds [of 1234567 "\<lparr>cin = [], cout = []\<rparr>"] by auto

end
