(* ===== verification/Framebuffer.thy ===== *)
theory Framebuffer
  imports Perf Bytes
begin

text \<open>
  The framebuffer routines of \<open>common/src/fb_util.c\<close>. The framebuffer is an array of pixels, one
  32-bit word each, row by row; its size is a constant of the generated SoC, here the parameters
  \<open>W\<close> and \<open>H\<close>. \<open>uint32_t\<close> variables are words (the clipping expressions wrap), pointers into the
  framebuffer are \<open>int\<close> indices of pixels, and an access outside an array is \<open>None\<close>.
\<close>

section \<open>State\<close>

text \<open>
  \<open>f_basis\<close> maps every byte to eight characters, 'X' for a set bit and '.' for a clear one, the
  most significant bit first.
\<close>

record dotfont_info =
  font_width :: i8
  font_height :: i8
  font_length :: i8
  font_counts :: i8
  f_basis :: "char list list"
  font_data :: "i8 list"

record fb_state = perf +
  fb_mem :: "i32 list"
  vtg_enable :: bool
  dma_enable :: bool
  dotfont_initilized :: bool
  df_info :: dotfont_info
  msg_x :: i32
  msg_color :: i32

section \<open>Set-up\<close>

definition font_basis_of :: "i8 \<Rightarrow> char list" where
  "font_basis_of tmp_val =
     [if tmp_val AND 0x80 \<noteq> 0 then CHR ''X'' else CHR ''.'',
      if tmp_val AND 0x40 \<noteq> 0 then CHR ''X'' else CHR ''.'',
      if tmp_val AND 0x20 \<noteq> 0 then CHR ''X'' else CHR ''.'',
      if tmp_val AND 0x10 \<noteq> 0 then CHR ''X'' else CHR ''.'',
      if tmp_val AND 0x08 \<noteq> 0 then CHR ''X'' else CHR ''.'',
      if tmp_val AND 0x04 \<noteq> 0 then CHR ''X'' else CHR ''.'',
      if tmp_val AND 0x02 \<noteq> 0 then CHR ''X'' else CHR ''.'',
      if tmp_val AND 0x01 \<noteq> 0 then CHR ''X'' else CHR ''.'']"

definition dotfont_init :: "i8 list \<Rightarrow> 'a fb_state_scheme \<Rightarrow> 'a fb_state_scheme option" where
  "dotfont_init BigFont s = do {
     fw \<leftarrow> rd BigFont 0;
     fh \<leftarrow> rd BigFont 1;
     fl \<leftarrow> rd BigFont 2;
     fc \<leftarrow> rd BigFont 3;
     basis \<leftarrow> cfor 0 256 1 (\<lambda>x basis. wr basis x (font_basis_of (word_of_int x))) (f_basis (df_info s));
     Some (s\<lparr>df_info := \<lparr>font_width = fw, font_height = fh, font_length = fl, font_counts = fc,
         f_basis = basis, font_data = drop 4 BigFont\<rparr>,
       dotfont_initilized := True\<rparr>) }"

text \<open>\<open>memset(fb_ptr, 0x00, FB_WIDTH * FB_HEIGHT * sizeof(uint32_t))\<close>\<close>

definition fb_zero :: "i32 \<Rightarrow> i32 \<Rightarrow> i32 list \<Rightarrow> i32 list option" where
  "fb_zero W H fb = (
     let fb_len = W * H * 4
     in memcpy fb 0 (replicate (unat fb_len div 4) 0) (int (unat fb_len div 4)))"

definition to_upper :: "char \<Rightarrow> char" where
  "to_upper c = (if digit_value c < 10 then c else char_of (55 + digit_value c))"

definition fb_init :: "i32 \<Rightarrow> i32 \<Rightarrow> i32 \<Rightarrow> i8 list \<Rightarrow> 'a fb_state_scheme \<Rightarrow> 'a fb_state_scheme option" where
  "fb_init W H FB_BASE_ADDR BigFont s = do {
     let s = s\<lparr>vtg_enable := False, dma_enable := False\<rparr>;
     let s = s\<lparr>vtg_enable := True, dma_enable := True\<rparr>;
     fb \<leftarrow> fb_zero W H (fb_mem s);
     let s = s\<lparr>fb_mem := fb\<rparr>;
     let s = print ([CR, LF] @ ''FB Width x Height : '' @ dec (sint W) @ ''x'' @ dec (sint H) @ ''@0x'' @
       zeros 8 (map to_upper (hex (uint FB_BASE_ADDR))) @ [CR, LF]) s;
     if \<not> dotfont_initilized s then dotfont_init BigFont s else Some s }"

definition fb_clear :: "i32 \<Rightarrow> i32 \<Rightarrow> 'a fb_state_scheme \<Rightarrow> 'a fb_state_scheme option" where
  "fb_clear W H s = do { fb \<leftarrow> fb_zero W H (fb_mem s); Some (s\<lparr>fb_mem := fb\<rparr>) }"

definition fb_close :: "i32 \<Rightarrow> i32 \<Rightarrow> 'a fb_state_scheme \<Rightarrow> 'a fb_state_scheme option" where
  "fb_close W H s = do {
     let s = s\<lparr>vtg_enable := False, dma_enable := False\<rparr>;
     fb \<leftarrow> fb_zero W H (fb_mem s);
     Some (s\<lparr>fb_mem := fb\<rparr>) }"

section \<open>Drawing\<close>

text \<open>\<open>(start + extent) > limit ? (limit - start) : extent\<close>, in unsigned arithmetic.\<close>

definition clip :: "i32 \<Rightarrow> i32 \<Rightarrow> i32 \<Rightarrow> i32" where
  "clip limit start extent = (if limit < start + extent then limit - start else extent)"

definition fb_fill_rect :: "i32 \<Rightarrow> i32 \<Rightarrow> i32 \<Rightarrow> i32 \<Rightarrow> i32 \<Rightarrow> i32 \<Rightarrow> i32 \<Rightarrow> i32 list \<Rightarrow> i32 list option" where
  "fb_fill_rect W H left top' width height color fb = do {
     let width = clip W left width;
     let height = clip H top' height;
     bar_line \<leftarrow> cfor 0 (uint width) 1 (\<lambda>i bar_line. wr bar_line i color) (replicate (unat W) 0);
     let fb_offset = top' * W + left;
     (fb32_ptr, fb) \<leftarrow> cfor 0 (uint height) 1 (\<lambda>i (fb32_ptr, fb). do {
       fb \<leftarrow> memcpy fb fb32_ptr bar_line (uint width);
       Some (fb32_ptr + uint W, fb) }) (uint fb_offset, fb);
     Some fb }"

definition fb_draw_rect :: "i32 \<Rightarrow> i32 \<Rightarrow> i32 \<Rightarrow> i32 \<Rightarrow> i32 \<Rightarrow> i32 \<Rightarrow> i32 \<Rightarrow> i32 list \<Rightarrow> i32 list option" where
  "fb_draw_rect W H left top' width height color fb = do {
     let width = clip W left width;
     let height = clip H top' height;
     let fb_offset = top' * W + left;
     ((fb32_ptr0, fb32_ptr1), fb) \<leftarrow> cfor 0 (uint height) 1 (\<lambda>i ((fb32_ptr0, fb32_ptr1), fb). do {
       fb \<leftarrow> wr fb fb32_ptr0 color;
       fb \<leftarrow> wr fb fb32_ptr1 color;
       Some ((fb32_ptr0 + uint W, fb32_ptr1 + uint W), fb) })
       ((uint fb_offset, uint fb_offset + uint width), fb);
     let fb32_ptr0 = uint (top' * W + left);
     let fb32_ptr1 = uint ((top' + height - 1) * W + left);
     cfor 0 (uint width) 1 (\<lambda>i fb. do {
       fb \<leftarrow> wr fb (fb32_ptr0 + i) color;
       wr fb (fb32_ptr1 + i) color }) fb }"

text \<open>
  The general case of \<open>fb_draw_line\<close>, after its exchanges: from \<open>(x, y)\<close> to the column \<open>x_end\<close>,
  upwards when \<open>flip\<close> (\<open>y01\<close> is \<open>y0 + y1\<close>). The state is \<open>(y, d)\<close> and the framebuffer. Its
  \<open>int32_t\<close> variables are \<open>int\<close>s, and a signed overflow is \<open>None\<close>; with \<open>flip\<close> the row is
  computed in \<open>uint32_t\<close>.
\<close>

definition line_loop ::
  "int \<Rightarrow> i32 \<Rightarrow> bool \<Rightarrow> int \<Rightarrow> int \<Rightarrow> int \<Rightarrow> int \<Rightarrow> int \<Rightarrow> int \<Rightarrow> i32 list \<Rightarrow> ((int \<times> int) \<times> i32 list) option" where
  "line_loop W color flip x y x_end y01 dx dy fb = do {
     x_Increment \<leftarrow> int32 (2 * dy);
     d \<leftarrow> int32 (x_Increment - dx);
     diff \<leftarrow> int32 (dy - dx);
     y_Increment \<leftarrow> int32 (2 * diff);
     cfor x (x_end + 1) 1 (\<lambda>x ((y, d), fb). do {
       fb_offset \<leftarrow> (if \<not> flip then do { row \<leftarrow> int32 (y * W); int32 (row + x) }
         else Some ((y01 - y) * W + x));
       fb \<leftarrow> wr fb (fb_offset mod 2 ^ 32) color;
       (y, d) \<leftarrow> (if d \<le> 0 then do { d \<leftarrow> int32 (d + x_Increment); Some (y, d) }
         else do { y \<leftarrow> int32 (y + 1); d \<leftarrow> int32 (d + y_Increment); Some (y, d) });
       x \<leftarrow> int32 (x + 1);
       Some ((y, d), fb) }) ((y, d), fb) }"

definition fb_draw_line :: "i32 \<Rightarrow> i32 \<Rightarrow> i32 \<Rightarrow> i32 \<Rightarrow> i32 \<Rightarrow> i32 \<Rightarrow> int \<Rightarrow> i32 list \<Rightarrow> i32 list option" where
  "fb_draw_line W x0 y0 x1 y1 color width fb = (
     let dx = x1 - x0; dy = y1 - y0
     in if dx = 0 \<and> dy = 0 then wr fb (uint (y0 * W + x0)) color
        else if dx = 0 then do {
          let start = (if y0 < y1 then y0 else y1);
          let stop = (if y0 < y1 then y1 else y0);
          (fb_offset, fb) \<leftarrow> cfor (uint start) (uint stop + 1) 1 (\<lambda>i (fb_offset, fb). do {
            fb \<leftarrow> wr fb (uint (fb_offset :: i32)) color;
            Some (fb_offset + W, fb) }) (start * W + x0, fb);
          Some fb }
        else if dy = 0 then do {
          let start = (if x0 < x1 then x0 else x1);
          let stop = (if x0 < x1 then x1 else x0);
          let fb32_ptr = uint (y0 * W);
          cfor (uint start) (uint stop + 1) 1 (\<lambda>i fb. wr fb (fb32_ptr + i) color) fb }
        else do {
          let (x0, y0, x1, y1) = (if x1 < x0 then (x1, y1, x0, y0) else (x0, y0, x1, y1));
          let flip = y1 < y0;
          let (y0, y1) = (if flip then (y1, y0) else (y0, y1));
          (c, fb) \<leftarrow> line_loop (uint W) color flip (sint x0) (sint y0) (sint x1) (uint (y0 + y1))
            (sint (x1 - x0)) (sint (y1 - y0)) fb;
          Some fb })"

text \<open>\<open>dst_ptr[b] = v\<close> through a byte pointer into the framebuffer: byte \<open>b mod 4\<close> of a pixel.\<close>

definition set_byte :: "nat \<Rightarrow> i8 \<Rightarrow> i32 \<Rightarrow> i32" where
  "set_byte k v w = (w AND NOT (push_bit (8 * k) 0xFF)) OR push_bit (8 * k) (ucast v)"

definition wr_byte :: "i32 list \<Rightarrow> int \<Rightarrow> i8 \<Rightarrow> i32 list option" where
  "wr_byte fb b v = do {
     w \<leftarrow> rd fb (b div 4);
     wr fb (b div 4) (set_byte (nat (b mod 4)) v w) }"

text \<open>
  The three formats of \<open>fb_draw_buffer\<close> differ in where a pixel's three bytes come from.
\<close>

definition buffer_rows ::
  "(int \<Rightarrow> int \<times> int \<times> int) \<Rightarrow> i32 \<Rightarrow> i32 \<Rightarrow> i32 \<Rightarrow> i8 list \<Rightarrow> i32 \<Rightarrow> int \<Rightarrow> i32 list \<Rightarrow> i32 list option" where
  "buffer_rows source W width height src_buff color_channels dst fb = do {
     ((src_ptr, dst_ptr), fb) \<leftarrow> cfor 0 (uint height) 1 (\<lambda>j ((src_ptr, dst_ptr), fb). do {
       fb \<leftarrow> cfor 0 (uint width) 1 (\<lambda>i fb. do {
         let (s0, s1, s2) = source i;
         v0 \<leftarrow> rd src_buff (src_ptr + s0);
         fb \<leftarrow> wr_byte fb (dst_ptr + 4 * i) v0;
         v1 \<leftarrow> rd src_buff (src_ptr + s1);
         fb \<leftarrow> wr_byte fb (dst_ptr + 4 * i + 1) v1;
         v2 \<leftarrow> rd src_buff (src_ptr + s2);
         wr_byte fb (dst_ptr + 4 * i + 2) v2 }) fb;
       Some ((src_ptr + uint (color_channels * width), dst_ptr + 4 * uint W), fb) }) ((0, dst), fb);
     Some fb }"

definition fb_draw_buffer ::
  "i32 \<Rightarrow> i32 \<Rightarrow> i32 \<Rightarrow> i32 \<Rightarrow> i32 \<Rightarrow> i8 list option \<Rightarrow> i32 \<Rightarrow> i32 list \<Rightarrow> (int \<times> i32 list) option" where
  "fb_draw_buffer W left top' width height src_buff color_channels fb =
     (case src_buff of
        None \<Rightarrow> Some (- 1, fb)
      | Some src \<Rightarrow> do {
          let dst = 4 * uint (top' * W + left);
          fb \<leftarrow> (if color_channels = 1 then
              buffer_rows (\<lambda>i. (i, i, i)) W width height src color_channels dst fb
            else if color_channels = 3 then
              buffer_rows (\<lambda>i. (3 * i, 3 * i + 1, 3 * i + 2)) W width height src color_channels dst fb
            else if color_channels = 4 then
              buffer_rows (\<lambda>i. (4 * i, 4 * i + 1, 4 * i + 2)) W width height src color_channels dst fb
            else Some fb);
          Some (0, fb) })"

section \<open>Text\<close>

text \<open>
  One glyph: the rows \<open>j\<close> from \<open>font_y_min\<close>, two bytes of font data for each (\<open>i\<close> counts them),
  eight pixels for each byte. The characters are bytes; \<open>char\<close> arithmetic is on \<open>int\<close>.
\<close>

definition glyph_byte :: "int \<Rightarrow> dotfont_info \<Rightarrow> i32 \<Rightarrow> int \<Rightarrow> int \<Rightarrow> int \<Rightarrow> i8 \<Rightarrow> i32 list \<Rightarrow> i32 list option" where
  "glyph_byte width df color j font_x_min k0 b fb = do {
     basis \<leftarrow> rd (f_basis df) (uint b);
     cfor 0 8 1 (\<lambda>l fb. do {
       c \<leftarrow> rd basis l;
       if c = CHR ''X'' then wr fb (j * width + font_x_min + (k0 + l)) color else Some fb }) fb }"

definition draw_glyph :: "int \<Rightarrow> dotfont_info \<Rightarrow> i32 \<Rightarrow> int \<Rightarrow> int \<Rightarrow> int \<Rightarrow> int \<Rightarrow> i32 list \<Rightarrow> i32 list option" where
  "draw_glyph width df color font_data_ptr font_x_min font_y_min font_y_max fb = do {
     (i, fb) \<leftarrow> cfor font_y_min font_y_max 1 (\<lambda>j (i, fb). do {
       b \<leftarrow> rd (font_data df) (font_data_ptr + i);
       fb \<leftarrow> glyph_byte width df color j font_x_min 0 b fb;
       b \<leftarrow> rd (font_data df) (font_data_ptr + i + 1);
       fb \<leftarrow> glyph_byte width df color j font_x_min 8 b fb;
       Some (i + 2, fb) }) (0, fb);
     Some fb }"

text \<open>The clipped \<open>font_x_max\<close> is computed and not used.\<close>

definition draw_chars :: "i32 \<Rightarrow> i32 \<Rightarrow> dotfont_info \<Rightarrow> i32 \<Rightarrow> i32 \<Rightarrow> i32 \<Rightarrow> i8 list \<Rightarrow> i32 list \<Rightarrow> i32 list option" where
  "draw_chars W H df x y color msg_str fb = (
     let width = sint W; height = sint H;
         fw = uint (font_width df); fh = uint (font_height df);
         font_offset = fw div 8;
         font_y_min = sint y;
         font_y_max = (if sint y + fh > height then height - sint y else sint y + fh)
     in cfor 0 (int (length msg_str)) 1 (\<lambda>c_pos fb. do {
       current_char \<leftarrow> rd msg_str c_pos;
       let font_data_ptr = (sint current_char - 32) * (fh * font_offset);
       let font_x_min = sint (x + word_of_int (c_pos * fw));
       draw_glyph width df color font_data_ptr font_x_min font_y_min font_y_max fb }) fb)"

text \<open>\<open>msg_str\<close> is the string without its terminating zero.\<close>

definition fb_draw_string :: "i32 \<Rightarrow> i32 \<Rightarrow> i8 list \<Rightarrow> i32 \<Rightarrow> i32 \<Rightarrow> i32 \<Rightarrow> i8 list \<Rightarrow> 'a fb_state_scheme \<Rightarrow> 'a fb_state_scheme option" where
  "fb_draw_string W H BigFont x y color msg_str s = do {
     s \<leftarrow> (if \<not> dotfont_initilized s then dotfont_init BigFont s else Some s);
     fb \<leftarrow> draw_chars W H (df_info s) x y color (takeWhile (\<lambda>c. c \<noteq> 0) msg_str) (fb_mem s);
     Some (s\<lparr>fb_mem := fb\<rparr>) }"

section \<open>The menu\<close>

definition on_mem :: "(i32 list \<Rightarrow> i32 list option) \<Rightarrow> 'a fb_state_scheme \<Rightarrow> 'a fb_state_scheme option" where
  "on_mem f s = do { fb \<leftarrow> f (fb_mem s); Some (s\<lparr>fb_mem := fb\<rparr>) }"

definition fb_fill :: "i32 \<Rightarrow> i32 \<Rightarrow> 'a fb_state_scheme \<Rightarrow> 'a fb_state_scheme option" where
  "fb_fill W H s = do {
     s \<leftarrow> on_mem (fb_fill_rect W H 0 0 320 240 0x00FF0000) s;
     on_mem (fb_fill_rect W H 320 240 320 240 0x00FF0000) s }"

definition fb_draw :: "i32 \<Rightarrow> i32 \<Rightarrow> 'a fb_state_scheme \<Rightarrow> 'a fb_state_scheme option" where
  "fb_draw W H s = do {
     s \<leftarrow> on_mem (fb_draw_rect W H 0 0 320 240 0x00FFFF00) s;
     on_mem (fb_draw_rect W H 320 240 320 240 0x00FF0000) s }"

definition fb_line :: "i32 \<Rightarrow> 'a fb_state_scheme \<Rightarrow> 'a fb_state_scheme option" where
  "fb_line W s = do {
     s \<leftarrow> on_mem (fb_draw_line W 50 50 50 50 0x000000FF 1) s;
     s \<leftarrow> on_mem (fb_draw_line W 100 0 100 100 0x00000FFF 1) s;
     s \<leftarrow> on_mem (fb_draw_line W 0 100 100 100 0x0000FFFF 1) s;
     s \<leftarrow> on_mem (fb_draw_line W 0 0 320 240 0x000FFFFF 1) s;
     on_mem (fb_draw_line W 0 240 320 0 0x00FFFFFF 1) s }"

definition fb_msg :: "i32 \<Rightarrow> i32 \<Rightarrow> i8 list \<Rightarrow> 'a fb_state_scheme \<Rightarrow> 'a fb_state_scheme option" where
  "fb_msg W H BigFont s = do {
     s \<leftarrow> fb_draw_string W H BigFont 0 (msg_x s) (msg_color s)
       (map (\<lambda>c. of_nat (of_char c)) ''Hello CFU Playground!!'') s;
     let s = s\<lparr>msg_x := (if msg_x s > H then 0 else msg_x s + 16)\<rparr>;
     s \<leftarrow> (if msg_x s = 0 then fb_clear W H s else Some s);
     Some (s\<lparr>msg_color := msg_color s + 0x1234\<rparr>) }"

definition FB_MENU :: "i32 \<Rightarrow> i32 \<Rightarrow> i32 \<Rightarrow> i8 list \<Rightarrow> 'a fb_state_scheme Menu" where
  "FB_MENU W H FB_BASE_ADDR BigFont =
     \<lparr>title = ''Framebuffer Debugging Menu'', prompt = ''framebuffer'',
      items =
        [MENU_ITEM (CHR ''i'') ''framebuffer initial'' (fb_init W H FB_BASE_ADDR BigFont),
         MENU_ITEM (CHR ''c'') ''framebuffer clear'' (fb_clear W H),
         MENU_ITEM (CHR ''f'') ''fill rectangle'' (fb_fill W H),
         MENU_ITEM (CHR ''d'') ''draw rectangle'' (fb_draw W H),
         MENU_ITEM (CHR ''l'') ''draw line'' (fb_line W),
         MENU_ITEM (CHR ''m'') ''draw message'' (fb_msg W H BigFont)]
        @ MENU_END\<rparr>"

definition framebuffer_menu :: "i32 \<Rightarrow> i32 \<Rightarrow> i32 \<Rightarrow> i8 list \<Rightarrow> 'a fb_state_scheme \<Rightarrow> 'a fb_state_scheme option" where
  "framebuffer_menu W H FB_BASE_ADDR BigFont = menu_run (FB_MENU W H FB_BASE_ADDR BigFont)"

end
