(* ===== verification/Framebuffer_Draw.thy ===== *)
theory Framebuffer_Draw
  imports Framebuffer
begin

text \<open>
  What the drawing routines of \<open>common/src/fb_util.c\<close> store. \<open>rect\<close> is the set of the pixel
  indices of a rectangle of the framebuffer, \<open>frame\<close> the border that \<open>fb_draw_rect\<close> draws and
  \<open>line_pixels\<close> the line of \<open>fb_draw_line\<close>; \<open>wrote\<close> says that exactly those pixels changed.
\<close>

section \<open>Geometry\<close>

text \<open>A framebuffer of the generated size, small enough for \<open>int32_t\<close> offsets.\<close>

definition fb_ok :: "i32 \<Rightarrow> i32 \<Rightarrow> i32 list \<Rightarrow> bool" where
  "fb_ok W H fb \<longleftrightarrow> int (length fb) = uint H * uint W \<and> (uint H + 1) * uint W < 2 ^ 31"

definition rect :: "int \<Rightarrow> int \<Rightarrow> int \<Rightarrow> int \<Rightarrow> int \<Rightarrow> int set" where
  "rect W x0 x1 y0 y1 = (\<Union>y\<in>{y0..<y1}. {y * W + x0..<y * W + x1})"

lemma uint32_add: "uint (a :: i32) + uint b < 2 ^ 32 \<Longrightarrow> uint (a + b) = uint a + uint b"
  by (subst uint_add_lem [THEN iffD1]) simp_all

lemma uint_clip:
  assumes "start \<le> limit" and "uint start + uint extent < 2 ^ 32"
  shows "uint (clip limit start extent) = min (uint start + uint extent) (uint limit) - uint start"
proof -
  have "uint (limit - start) = uint limit - uint start"
    using assms(1) by (simp add: uint_sub_lem [THEN iffD1] word_le_def)
  with assms uint32_add [of start extent] show ?thesis
    by (auto simp: clip_def word_less_def)
qed

lemma pixel_bound:
  fixes x y w h :: int
  assumes "0 \<le> y" "y < h" "0 \<le> x" "x \<le> w"
  shows "0 \<le> y * w + x" "y * w + x \<le> h * w"
proof -
  have "(y + 1) * w \<le> h * w" using assms by (intro mult_right_mono) auto
  then show "y * w + x \<le> h * w" using assms(4) by (simp add: algebra_simps)
  show "0 \<le> y * w + x" using assms by simp
qed

lemma uint_offset:
  assumes "fb_ok W H fb" and "uint top' \<le> uint H" and "uint left \<le> uint W"
  shows "uint (top' * W + left) = uint top' * uint W + uint left"
proof -
  have "uint top' * uint W \<le> uint H * uint W" using assms(2) by (intro mult_right_mono) auto
  moreover have "uint H * uint W + uint W < 2 ^ 31"
    using assms(1) by (simp add: fb_ok_def algebra_simps)
  ultimately have b: "uint top' * uint W + uint left < 2 ^ 31" using assms(3) by linarith
  have m: "uint top' * uint W < 2 ^ 32"
    using order_le_less_trans [of "uint top' * uint W" "uint top' * uint W + uint left" "2 ^ 31"] b by simp
  then have "uint (top' * W) = uint top' * uint W"
    by (subst uint_mult_lem [THEN iffD1]) simp_all
  with b show ?thesis by (subst uint32_add) simp_all
qed

lemma memcpy_wrote:
  assumes "0 \<le> n" and "0 \<le> off" and "off + n \<le> int (length dst)" and "n \<le> int (length src)"
    and "\<And>j. 0 \<le> j \<Longrightarrow> j < n \<Longrightarrow> src ! nat j = V (off + j)"
  shows "ok (memcpy dst off src n) (wrote {off..<off + n} V dst)"
proof -
  have "wrote {off..<off + n} V dst (take (nat off) dst @ take (nat n) src @ drop (nat (off + n)) dst)"
  proof (unfold wrote_def, intro conjI allI impI)
    show "length (take (nat off) dst @ take (nat n) src @ drop (nat (off + n)) dst) = length dst"
      using assms(1-4) by simp
    fix k assume k: "k < length dst"
    consider "int k < off" | "off \<le> int k" "int k < off + n" | "off + n \<le> int k" by linarith
    then show "(take (nat off) dst @ take (nat n) src @ drop (nat (off + n)) dst) ! k =
        (if int k \<in> {off..<off + n} then V (int k) else dst ! k)"
    proof cases
      case 1
      then show ?thesis using k by (simp add: nth_append)
    next
      case 2
      then have "nat (int k - off) = k - nat off" "\<not> k < nat off" "k - nat off < nat n" using assms(2) by auto
      with 2 assms(5) [of "int k - off"] assms(1-4) k show ?thesis by (simp add: nth_append)
    next
      case 3
      then have "\<not> k < nat off" "\<not> k - nat off < nat n" "k - (nat off + nat n) = k - nat (off + n)" "nat (off + n) \<le> k"
        "min (length src) (nat n) = nat n"
        using assms(1,2,4) by (auto simp: nat_add_distrib)
      with 3 assms(1-4) k show ?thesis by (simp add: nth_append)
    qed
  qed
  with assms show ?thesis by (simp add: memcpy_def ok_simps)
qed

lemma bar_line_filled:
  assumes "0 \<le> n" and "n \<le> int (length xs)"
  shows "ok (cfor 0 n 1 (\<lambda>i bar_line. wr bar_line i color) xs) (wrote {0..<n} (\<lambda>_. color) xs)"
proof -
  have "ok (cfor 0 n 1 (\<lambda>i bar_line. wr bar_line i color) xs)
      (wrote (\<Union>i\<in>{i. 0 \<le> i \<and> i < n \<and> 1 dvd (i - 0)}. {i}) (\<lambda>_. color) xs)"
    using assms by (intro cfor_wrote_array) (auto simp: ok_simps wrote_update)
  moreover have "(\<Union>i\<in>{i. 0 \<le> i \<and> i < n \<and> 1 dvd (i - 0)}. {i}) = {0..<n}" by auto
  ultimately show ?thesis by simp
qed

lemma fb_fill_rect_wrote:
  assumes "fb_ok W H fb" and "left \<le> W" and "top' \<le> H"
    and "uint left + uint width < 2 ^ 32" and "uint top' + uint height < 2 ^ 32"
  shows "ok (fb_fill_rect W H left top' width height color fb)
    (wrote (rect (uint W) (uint left) (min (uint left + uint width) (uint W))
       (uint top') (min (uint top' + uint height) (uint H))) (\<lambda>_. color) fb)"
proof -
  define w where "w = uint (clip W left width)"
  define h where "h = uint (clip H top' height)"
  have le: "uint left \<le> uint W" "uint top' \<le> uint H"
    using assms(2,3) by (simp_all add: word_le_def)
  have w: "w = min (uint left + uint width) (uint W) - uint left" "0 \<le> w"
    using uint_clip [OF assms(2,4)] le by (simp_all add: w_def)
  have h: "h = min (uint top' + uint height) (uint H) - uint top'" "0 \<le> h"
    using uint_clip [OF assms(3,5)] le by (simp_all add: h_def)
  have len: "int (length fb) = uint H * uint W" using assms(1) by (simp add: fb_ok_def)
  have wW: "w \<le> uint W"
    unfolding w(1) using uint_ge_0 [of left] by linarith
  obtain bar where bar: "cfor 0 w 1 (\<lambda>i bar_line. wr bar_line i color) (replicate (unat W) 0) = Some bar"
    "wrote {0..<w} (\<lambda>_. color) (replicate (unat W) 0) bar"
    using bar_line_filled [of w "replicate (unat W) 0" color, OF w(2)] wW
    by (auto elim: okE)
  have bar_nth: "bar ! nat j = color" if "0 \<le> j" "j < w" for j
  proof -
    have "nat j < unat W" using that wW by (simp add: nat_less_iff)
    with bar(2) that show ?thesis by (simp add: wrote_def)
  qed
  have bar_len: "int (length bar) = uint W"
    using wrote_length [OF bar(2)] by simp
  let ?o = "uint top' * uint W + uint left"
  let ?S = "\<lambda>i. {?o + i * uint W..<?o + i * uint W + w}"
  have "ok (cfor 0 h 1 (\<lambda>i (fb32_ptr, fb). do { fb \<leftarrow> memcpy fb fb32_ptr bar w; Some (fb32_ptr + uint W, fb) }) (?o, fb))
      (\<lambda>(p, ys). True \<and> wrote (\<Union>i\<in>{i. 0 \<le> i \<and> i < h \<and> 1 dvd (i - 0)}. ?S i) (\<lambda>_. color) fb ys)"
  proof (rule ok_mono [OF cfor_wrote_indexed [where P = "\<lambda>i p. p = ?o + i * uint W"]])
    fix i p :: int and zs :: "i32 list"
    assume i: "0 \<le> i" "i < h" and p: "p = ?o + i * uint W" and l: "length zs = length fb"
    have "p = (uint top' + i) * uint W + uint left" by (simp add: p algebra_simps)
    moreover have "uint top' + i < uint H" using i h by auto
    ultimately have "0 \<le> p" "p + w \<le> int (length zs)"
      using pixel_bound [of "uint top' + i" "uint H" "uint left + w" "uint W"] i w le
      by (auto simp: l len)
    then have "ok (memcpy zs p bar w) (wrote {p..<p + w} (\<lambda>_. color) zs)"
      using w(2) wW bar_len bar_nth by (intro memcpy_wrote) auto
    then show "ok ((\<lambda>(fb32_ptr, fb). do { fb \<leftarrow> memcpy fb fb32_ptr bar w; Some (fb32_ptr + uint W, fb) }) (p, zs))
        (\<lambda>(c', ys). c' = ?o + (i + 1) * uint W \<and> wrote (?S i) (\<lambda>_. color) zs ys)"
      by (auto simp: ok_simps p algebra_simps elim!: ok_mono)
  qed (use h in auto)
  moreover have "(\<Union>i\<in>{i. 0 \<le> i \<and> i < h \<and> 1 dvd (i - 0)}. ?S i) = rect (uint W) (uint left) (uint left + w) (uint top') (uint top' + h)"
  proof -
    have shift: "{uint top'..<uint top' + h} = (\<lambda>i. uint top' + i) ` {0..<h}"
      by (auto simp: image_iff intro!: bexI [of _ "_ - uint top'"])
    show ?thesis unfolding rect_def range_steps shift image_image
      by (rule SUP_cong [OF refl]) (simp add: algebra_simps)
  qed
  ultimately show ?thesis
    unfolding fb_fill_rect_def Let_def
    using bar(1) w(1) h(1)
    by (simp add: ok_bind ok_Some uint_offset [OF assms(1) le(2,1)] flip: w_def h_def) (auto simp: ok_Some elim!: ok_mono)
qed

definition frame :: "int \<Rightarrow> int \<Rightarrow> int \<Rightarrow> int \<Rightarrow> int \<Rightarrow> int set" where
  "frame W x0 x1 y0 y1 =
     rect W x0 (x0 + 1) y0 y1 \<union> rect W x1 (x1 + 1) y0 y1 \<union> rect W x0 x1 y0 (y0 + 1) \<union> rect W x0 x1 (y1 - 1) y1"

lemma rect_rows:
  "rect W x0 x1 y0 y1 = (\<Union>i\<in>{0..<y1 - y0}. {y0 * W + x0 + i * W..<y0 * W + x1 + i * W})"
proof -
  have shift: "{y0..<y1} = (\<lambda>i. y0 + i) ` {0..<y1 - y0}"
    by (auto simp: image_iff intro!: bexI [of _ "_ - y0"])
  show ?thesis unfolding rect_def shift image_image
    by (rule SUP_cong [OF refl]) (simp add: algebra_simps)
qed

lemma rect_row: "rect W x0 x1 y (y + 1) = {y * W + x0..<y * W + x1}"
proof -
  have "{y..<y + 1} = {y}" by auto
  then show ?thesis by (simp add: rect_def)
qed

lemma rect_column: "rect W x (x + 1) y0 y1 = (\<Union>i\<in>{0..<y1 - y0}. {y0 * W + x + i * W})"
proof -
  have "{a + i * W..<a + 1 + i * W} = {a + i * W}" for a i :: int by auto
  then show ?thesis unfolding rect_rows add.assoc [symmetric] by simp
qed

lemma wrote_pair: "0 \<le> a \<Longrightarrow> 0 \<le> b \<Longrightarrow> wrote {a, b} (\<lambda>_. v) xs (xs[nat a := v, nat b := v])"
  by (auto simp: wrote_def nth_list_update)

lemma columns_wrote:
  fixes fb :: "i32 list"
  assumes "0 \<le> h" and "\<And>i. 0 \<le> i \<Longrightarrow> i < h \<Longrightarrow> 0 \<le> p0 + i * W \<and> p0 + i * W < int (length fb)"
    and "\<And>i. 0 \<le> i \<Longrightarrow> i < h \<Longrightarrow> 0 \<le> p1 + i * W \<and> p1 + i * W < int (length fb)"
  shows "ok (cfor 0 h 1 (\<lambda>i ((fb32_ptr0, fb32_ptr1), fb). do {
       fb \<leftarrow> wr fb fb32_ptr0 color;
       fb \<leftarrow> wr fb fb32_ptr1 color;
       Some ((fb32_ptr0 + W, fb32_ptr1 + W), fb) }) ((p0, p1), fb))
    (\<lambda>(p, ys). p = (p0 + h * W, p1 + h * W) \<and> wrote (\<Union>i\<in>{0..<h}. {p0 + i * W, p1 + i * W}) (\<lambda>_. color) fb ys)"
  unfolding range_steps [of 0 h, symmetric]
proof (rule cfor_wrote_indexed [where P = "\<lambda>i p. p = (p0 + i * W, p1 + i * W)"])
  fix i :: int and p :: "int \<times> int" and zs :: "i32 list"
  assume i: "0 \<le> i" "i < h" and p: "p = (p0 + i * W, p1 + i * W)" and l: "length zs = length fb"
  note b = assms(2) [OF i] assms(3) [OF i]
  have "wrote {p0 + i * W, p1 + i * W} (\<lambda>_. color) zs
      (zs[nat (p0 + i * W) := color, nat (p1 + i * W) := color])"
    using b by (intro wrote_pair) simp_all
  then show "ok ((\<lambda>((fb32_ptr0, fb32_ptr1), fb). do {
       fb \<leftarrow> wr fb fb32_ptr0 color;
       fb \<leftarrow> wr fb fb32_ptr1 color;
       Some ((fb32_ptr0 + W, fb32_ptr1 + W), fb) }) (p, zs))
    (\<lambda>(c', ys). c' = (p0 + (i + 1) * W, p1 + (i + 1) * W) \<and> wrote {p0 + i * W, p1 + i * W} (\<lambda>_. color) zs ys)"
    using b l by (simp add: p ok_simps algebra_simps)
qed (use assms(1) in auto)

lemma rows_wrote:
  assumes "0 \<le> p0" "0 \<le> p1" "p0 + w \<le> int (length fb)" "p1 + w \<le> int (length fb)"
  shows "ok (cfor 0 w 1 (\<lambda>i fb. do { fb \<leftarrow> wr fb (p0 + i) color; wr fb (p1 + i) color }) fb)
    (wrote ({p0..<p0 + w} \<union> {p1..<p1 + w}) (\<lambda>_. color) fb)"
proof -
  have "ok (cfor 0 w 1 (\<lambda>i fb. do { fb \<leftarrow> wr fb (p0 + i) color; wr fb (p1 + i) color }) fb)
    (wrote (\<Union>i\<in>{i. 0 \<le> i \<and> i < w \<and> 1 dvd (i - 0)}. {p0 + i, p1 + i}) (\<lambda>_. color) fb)"
    using assms by (intro cfor_wrote_array) (auto simp: ok_simps intro!: wrote_pair)
  moreover have "(\<Union>i\<in>{i. 0 \<le> i \<and> i < w \<and> 1 dvd (i - 0)}. {p0 + i, p1 + i}) = {p0..<p0 + w} \<union> {p1..<p1 + w}"
  proof -
    have shift: "{p..<p + w} = (\<lambda>i. p + i) ` {0..<w}" for p
      by (auto simp: image_iff intro!: bexI [of _ "_ - p"])
    show ?thesis unfolding range_steps shift by blast
  qed
  ultimately show ?thesis by simp
qed

lemma row_start:
  assumes "fb_ok W H fb" and "top' < H" and "uint top' < y1" and "y1 \<le> uint H" and "uint left \<le> uint W"
    and "uint h = y1 - uint top'"
  shows "uint ((top' + h - 1) * W + left) = (y1 - 1) * uint W + uint left"
proof -
  have "uint (top' + h) = y1"
    using assms(3,4,6) uint_lt2p [of H] by (subst uint32_add) simp_all
  moreover have "1 \<le> y1" using assms(3) order_le_less_trans [OF uint_ge_0 assms(3)] by simp
  ultimately have "uint (top' + h - 1) = y1 - 1"
    by (subst uint_sub_lem [THEN iffD1]) simp_all
  then show ?thesis
    using uint_offset [OF assms(1), of "top' + h - 1" left] assms(4,5) by simp
qed

lemma fb_draw_rect_wrote:
  assumes "fb_ok W H fb" and "uint left + uint width < uint W" and "top' < H" and "0 < height"
    and "uint top' + uint height < 2 ^ 32"
  shows "ok (fb_draw_rect W H left top' width height color fb)
    (wrote (frame (uint W) (uint left) (uint left + uint width)
       (uint top') (min (uint top' + uint height) (uint H))) (\<lambda>_. color) fb)"
proof -
  define l where "l = uint left"
  define w where "w = uint width"
  define t where "t = uint top'"
  define y1 where "y1 = min (t + uint height) (uint H)"
  define h where "h = clip H top' height"
  have le: "left \<le> W" "top' \<le> H" "uint left + uint width < 2 ^ 32" "l \<le> uint W" "t \<le> uint H"
  proof -
    have "uint left \<le> uint left + uint width" by simp
    moreover have "uint W < 2 ^ 32" using uint_lt2p [of W] by simp
    ultimately show "left \<le> W" "top' \<le> H" "uint left + uint width < 2 ^ 32" "l \<le> uint W" "t \<le> uint H"
      using assms(2,3) by (simp_all only: word_le_def word_less_def l_def t_def)
  qed
  have "uint (clip W left width) = uint width"
    using uint_clip [OF le(1,3)] assms(2) by simp
  then have clipw: "clip W left width = width" by (rule word_uint_eqI)
  have h: "uint h = y1 - t"
    using uint_clip [OF le(2) assms(5)] by (simp add: h_def y1_def t_def)
  have lin: "0 \<le> l" "0 \<le> w" "l + w < uint W" "0 \<le> t" "t < y1" "y1 \<le> uint H" 
    using assms(2,3,4) by (auto simp: l_def w_def t_def y1_def word_less_def)
  have len: "int (length fb) = uint H * uint W" using assms(1) by (simp add: fb_ok_def)
  have pix: "0 \<le> y * uint W + x" "y * uint W + x < int (length fb)" if "t \<le> y" "y < y1" "0 \<le> x" "x < uint W" for x y
    using pixel_bound [of y "uint H" "x + 1" "uint W"] that lin by (auto simp: len)
  have o0: "uint (top' * W + left) = t * uint W + l"
    using uint_offset [OF assms(1), of top' left] le by (simp add: l_def t_def)
  have o1: "uint ((top' + h - 1) * W + left) = (y1 - 1) * uint W + l"
    unfolding l_def by (rule row_start [OF assms(1,3)]) (use lin h le in \<open>auto simp: t_def l_def\<close>)
  let ?C = "\<Union>i\<in>{0..<y1 - t}. {t * uint W + l + i * uint W, t * uint W + l + w + i * uint W}"
  let ?R = "{t * uint W + l..<t * uint W + l + w} \<union> {(y1 - 1) * uint W + l..<(y1 - 1) * uint W + l + w}"
  have cols: "ok (cfor 0 (y1 - t) 1 (\<lambda>i ((fb32_ptr0, fb32_ptr1), fb). do {
       fb \<leftarrow> wr fb fb32_ptr0 color;
       fb \<leftarrow> wr fb fb32_ptr1 color;
       Some ((fb32_ptr0 + uint W, fb32_ptr1 + uint W), fb) }) ((t * uint W + l, t * uint W + l + w), fb))
    (\<lambda>(p, ys). p = (t * uint W + l + (y1 - t) * uint W, t * uint W + l + w + (y1 - t) * uint W) \<and> wrote ?C (\<lambda>_. color) fb ys)"
  proof (rule columns_wrote)
    fix i assume i: "0 \<le> i" "i < y1 - t"
    show "0 \<le> t * uint W + l + i * uint W \<and> t * uint W + l + i * uint W < int (length fb)"
      using pix [of "t + i" l] i lin by (simp add: algebra_simps)
    show "0 \<le> t * uint W + l + w + i * uint W \<and> t * uint W + l + w + i * uint W < int (length fb)"
      using pix [of "t + i" "l + w"] i lin by (simp add: algebra_simps)
  qed (use lin in simp)
  have rows: "ok (cfor 0 w 1 (\<lambda>i fb. do { fb \<leftarrow> wr fb (t * uint W + l + i) color; wr fb ((y1 - 1) * uint W + l + i) color }) ys)
      (wrote ?R (\<lambda>_. color) ys)" if "length ys = length fb" for ys :: "i32 list"
    using pix [of t l] pix [of t "l + w"] pix [of "y1 - 1" l] pix [of "y1 - 1" "l + w"] lin that by (intro rows_wrote) auto
  have frame: "?C \<union> ?R = frame (uint W) l (l + w) t y1"
  proof -
    have "rect (uint W) l (l + w) (y1 - 1) y1 = {(y1 - 1) * uint W + l..<(y1 - 1) * uint W + (l + w)}"
      using rect_row [of "uint W" l "l + w" "y1 - 1"] by simp
    moreover have "?C = (\<Union>i\<in>{0..<y1 - t}. {t * uint W + l + i * uint W}) \<union>
        (\<Union>i\<in>{0..<y1 - t}. {t * uint W + (l + w) + i * uint W})"
      unfolding add.assoc by blast
    ultimately show ?thesis unfolding frame_def rect_row rect_column by (simp only: add.assoc Un_assoc)
  qed
  have "ok (fb_draw_rect W H left top' width height color fb) (wrote (?C \<union> ?R) (\<lambda>_. color) fb)"
    unfolding fb_draw_rect_def Let_def clipw h_def [symmetric] o0 o1 h w_def [symmetric]
  proof (rule ok_bindI [OF cols])
    fix x assume x: "case x of (p, ys) \<Rightarrow> p = (t * uint W + l + (y1 - t) * uint W, t * uint W + l + w + (y1 - t) * uint W) \<and>
      wrote ?C (\<lambda>_. color) fb ys"
    then obtain p ys where p: "x = (p, ys)" "wrote ?C (\<lambda>_. color) fb ys" by auto
    show "ok (case x of (x, fb) \<Rightarrow> (case x of (fb32_ptr0, fb32_ptr1) \<Rightarrow> \<lambda>fb.
        cfor 0 w 1 (\<lambda>i fb. do { fb \<leftarrow> wr fb (t * uint W + l + i) color; wr fb ((y1 - 1) * uint W + l + i) color }) fb) fb)
      (wrote (?C \<union> ?R) (\<lambda>_. color) fb)"
      using rows [OF wrote_length [OF p(2)]] p by (cases "fst x") (auto elim!: ok_mono intro: wrote_trans)
  qed
  then show ?thesis unfolding frame by (simp only: l_def w_def t_def y1_def)
qed

section \<open>Pixels\<close>

lemma rect_pixel:
  assumes "0 \<le> x" "x < W" "0 \<le> x0" "x1 \<le> W"
  shows "y * W + x \<in> rect W x0 x1 y0 y1 \<longleftrightarrow> x0 \<le> x \<and> x < x1 \<and> y0 \<le> y \<and> y < y1"
proof
  assume "y * W + x \<in> rect W x0 x1 y0 y1"
  then obtain z where z: "y0 \<le> z" "z < y1" "z * W + x0 \<le> y * W + x" "y * W + x < z * W + x1"
    by (auto simp: rect_def)
  then have "y * W + x = z * W + (y * W + x - z * W)" "0 \<le> y * W + x - z * W" "y * W + x - z * W < W"
    using assms by auto
  then have "(y * W + x) div W = z" using assms
    by (metis div_mult_self3 div_pos_pos_trivial add_0_right less_le_not_le order_le_less_trans)
  moreover have "(y * W + x) div W = y" using assms by simp
  ultimately show "x0 \<le> x \<and> x < x1 \<and> y0 \<le> y \<and> y < y1" using z by simp
qed (auto simp: rect_def intro!: bexI [of _ y])

lemma frame_pixel:
  assumes "0 \<le> x" "x < W" "0 \<le> x0" "x0 \<le> x1" "x1 < W" "y0 < y1"
  shows "y * W + x \<in> frame W x0 x1 y0 y1 \<longleftrightarrow>
    x0 \<le> x \<and> x \<le> x1 \<and> y0 \<le> y \<and> y < y1 \<and> (x = x0 \<or> x = x1 \<or> y = y0 \<or> y = y1 - 1)"
  using assms by (auto simp: frame_def rect_pixel)

lemma ball_range: "a < b \<Longrightarrow> (\<forall>x\<in>{a..<b :: int}. P x) \<longleftrightarrow> P a \<and> (\<forall>x\<in>{a + 1..<b}. P x)"
proof -
  assume "a < b"
  then have "{a..<b} = insert a {a + 1..<b}" by auto
  then show ?thesis by simp
qed

lemma wrote_pixel:
  assumes "wrote S (\<lambda>_. color) fb ys" and "fb_ok W H fb" and "0 \<le> x" "x < uint W" "0 \<le> y" "y < uint H"
  shows "ys ! nat (y * uint W + x) = (if y * uint W + x \<in> S then color else fb ! nat (y * uint W + x))"
  using assms pixel_bound [of y "uint H" "x + 1" "uint W"] by (auto simp: wrote_def fb_ok_def nat_less_iff)

text \<open>
  C22. \<open>fb_fill_rect\<close> with its corner on the screen fills exactly the part of the rectangle that
  is on the screen: a pixel inside gets the colour and every other pixel keeps its value.
\<close>
theorem fill_rect_exact:
  assumes "fb_ok W H fb" and "left \<le> W" and "top' \<le> H"
    and "uint left + uint width < 2 ^ 32" and "uint top' + uint height < 2 ^ 32"
  shows "ok (fb_fill_rect W H left top' width height color fb) (\<lambda>ys. length ys = length fb \<and>
     (\<forall>x\<in>{0..<uint W}. \<forall>y\<in>{0..<uint H}. ys ! nat (y * uint W + x) =
       (if uint left \<le> x \<and> x < uint left + uint width \<and> uint top' \<le> y \<and> y < uint top' + uint height
        then color else fb ! nat (y * uint W + x))))"
  using fb_fill_rect_wrote [OF assms, of color]
proof (rule ok_mono, intro conjI ballI)
  fix ys x y
  assume w: "wrote (rect (uint W) (uint left) (min (uint left + uint width) (uint W))
       (uint top') (min (uint top' + uint height) (uint H))) (\<lambda>_. color) fb ys"
  show "length ys = length fb" using w by (rule wrote_length)
  assume xy: "x \<in> {0..<uint W}" "y \<in> {0..<uint H}"
  then have "0 \<le> x" "x < uint W" "0 \<le> y" "y < uint H" by auto
  from wrote_pixel [OF w assms(1) this] this
  show "ys ! nat (y * uint W + x) =
      (if uint left \<le> x \<and> x < uint left + uint width \<and> uint top' \<le> y \<and> y < uint top' + uint height
       then color else fb ! nat (y * uint W + x))"
    by (simp add: rect_pixel)
qed

lemma fill_rect_exact_witness:
  "ok (fb_fill_rect 3 2 1 0 7 1 5 [0, 0, 0, 0, 0, 0]) (\<lambda>ys. length ys = 6 \<and> ys ! 2 = 5 \<and> ys ! 0 = 0 \<and> ys ! 4 = 0)"
  by (rule ok_mono [OF fill_rect_exact]) (simp_all add: fb_ok_def word_le_def ball_range del: One_nat_def)

text \<open>
  A rectangle that lies strictly inside the screen: \<open>fb_draw_rect\<close> changes exactly its border.
  Its right side is the column \<open>left + width\<close>, one past the last column of the rectangle that
  \<open>fb_fill_rect\<close> fills for the same arguments.
\<close>
theorem draw_rect_border:
  assumes "fb_ok W H fb" and "uint left + uint width < uint W" and "top' < H" and "0 < height"
    and "uint top' + uint height < 2 ^ 32"
  shows "ok (fb_draw_rect W H left top' width height color fb) (\<lambda>ys. length ys = length fb \<and>
     (\<forall>x\<in>{0..<uint W}. \<forall>y\<in>{0..<uint H}. ys ! nat (y * uint W + x) =
       (if uint left \<le> x \<and> x \<le> uint left + uint width \<and> uint top' \<le> y \<and> y < uint top' + uint height \<and>
           (x = uint left \<or> x = uint left + uint width \<or> y = uint top' \<or> y = min (uint top' + uint height) (uint H) - 1)
        then color else fb ! nat (y * uint W + x))))"
  using fb_draw_rect_wrote [OF assms, of color]
proof (rule ok_mono, intro conjI ballI)
  fix ys x y
  assume w: "wrote (frame (uint W) (uint left) (uint left + uint width)
       (uint top') (min (uint top' + uint height) (uint H))) (\<lambda>_. color) fb ys"
  show "length ys = length fb" using w by (rule wrote_length)
  assume xy: "x \<in> {0..<uint W}" "y \<in> {0..<uint H}"
  then have b: "0 \<le> x" "x < uint W" "0 \<le> y" "y < uint H" by auto
  have "uint top' < uint H" "0 < uint height" using assms(3,4) by (simp_all add: word_less_def)
  then have y: "uint top' < min (uint top' + uint height) (uint H)" by simp
  have "uint left \<le> uint left + uint width" by simp
  from wrote_pixel [OF w assms(1) b] frame_pixel [OF b(1,2) _ this assms(2) y, of y] b
  show "ys ! nat (y * uint W + x) =
      (if uint left \<le> x \<and> x \<le> uint left + uint width \<and> uint top' \<le> y \<and> y < uint top' + uint height \<and>
           (x = uint left \<or> x = uint left + uint width \<or> y = uint top' \<or> y = min (uint top' + uint height) (uint H) - 1)
       then color else fb ! nat (y * uint W + x))"
    by (simp only: min_less_iff_conj uint_ge_0 refl if_True simp_thms)
qed

lemma draw_rect_border_witness:
  "ok (fb_draw_rect 4 2 1 0 2 9 5 [0, 0, 0, 0, 0, 0, 0, 0]) (\<lambda>ys. length ys = 8 \<and> ys ! 3 = 5 \<and> ys ! 0 = 0 \<and> ys ! 7 = 5)"
  by (rule ok_mono [OF draw_rect_border]) (simp_all add: fb_ok_def word_less_def ball_range del: One_nat_def)

section \<open>The right side at the edge of the screen\<close>

lemma draw_rect_overflows:
  assumes "fb_ok W H fb" and "left < W" and "uint W \<le> uint left + uint width" and "uint left + uint width < 2 ^ 32"
    and "top' < H" and "uint H \<le> uint top' + uint height" and "uint top' + uint height < 2 ^ 32"
  shows "fb_draw_rect W H left top' width height color fb = None"
proof -
  have le: "uint left < uint W" "uint top' < uint H" "top' \<le> H" "left \<le> W"
    using assms(2,5) by (simp_all add: word_less_def word_le_def)
  have w: "uint (clip W left width) = uint W - uint left"
    using uint_clip [OF le(4) assms(4)] assms(3) by simp
  have h: "uint (clip H top' height) = uint H - uint top'"
    using uint_clip [OF le(3) assms(7)] assms(6) by simp
  have len: "int (length fb) = uint H * uint W" using assms(1) by (simp add: fb_ok_def)
  have o0: "uint (top' * W + left) = uint top' * uint W + uint left"
    using uint_offset [OF assms(1)] le by simp
  have room: "0 \<le> (uint top' + i) * uint W + x" "(uint top' + i) * uint W + x < uint H * uint W"
    if "0 \<le> i" "i < uint H - uint top'" "0 \<le> x" "x < uint W" for i x
    using pixel_bound [of "uint top' + i" "uint H" "x + 1" "uint W"] that by auto
  have "cfor 0 (uint H - uint top') 1 (\<lambda>i ((fb32_ptr0, fb32_ptr1), fb). do {
       fb \<leftarrow> wr fb fb32_ptr0 color;
       fb \<leftarrow> wr fb fb32_ptr1 color;
       Some ((fb32_ptr0 + uint W, fb32_ptr1 + uint W), fb) })
      ((uint top' * uint W + uint left, uint top' * uint W + uint left + (uint W - uint left)), fb) = None"
  proof (rule cfor_fails [where m = "uint H - uint top' - 1" and I = "\<lambda>i ((p, q), ys). length ys = length fb \<and>
      p = (uint top' + i) * uint W + uint left \<and> q = (uint top' + (i + 1)) * uint W + 0"], goal_cases)
    case (4 i s)
    obtain p q ys where s: "s = ((p, q), ys)" by (metis prod.collapse)
    show ?case
      using 4 room [of i "uint left"] room [of "i + 1" 0] le order_le_less_trans [OF uint_ge_0 le(1)]
      by (simp add: s ok_simps len algebra_simps)
  next
    case (5 s)
    obtain p q ys where s: "s = ((p, q), ys)" by (metis prod.collapse)
    show ?case using 5 by (simp add: s wr_def len)
  qed (use le in \<open>simp_all add: algebra_simps\<close>)
  then show ?thesis by (simp add: fb_draw_rect_def w h o0)
qed

text \<open>
  The menu item \<open>fb_draw\<close> of a 640 x 480 screen never completes its second rectangle inside the
  framebuffer: the right side of a rectangle that ends at the right edge is drawn one column too
  far, in the first column of the next row, and in the last row behind the framebuffer.
\<close>
theorem fb_draw_leaves_framebuffer:
  assumes "length (fb_mem s) = 640 * 480"
  shows "fb_draw 640 480 s = None"
proof -
  have "fb_ok 640 480 fb" if "length fb = 640 * 480" for fb using that by (simp add: fb_ok_def)
  then have "fb_draw_rect 640 480 320 240 320 240 c fb = None" if "length fb = 640 * 480" for c fb
    using that by (intro draw_rect_overflows) (simp_all add: word_less_def)
  moreover have "ok (fb_draw_rect 640 480 0 0 320 240 0x00FFFF00 (fb_mem s)) (\<lambda>ys. length ys = 640 * 480)"
    using fb_draw_rect_wrote [of 640 480 "fb_mem s" 0 320 0 240 "0x00FFFF00"] assms
    by (auto simp: fb_ok_def word_less_def elim!: ok_mono dest!: wrote_length)
  ultimately show ?thesis by (auto simp: fb_draw_def on_mem_def elim!: okE)
qed

lemma fb_draw_leaves_framebuffer_witness:
  "fb_draw 640 480 \<lparr>cin = [], cout = [], csr = (\<lambda>a. 0), accesses = 0, CFU_start_counts = [], counter_num = 0, fb_mem = replicate 307200 0, vtg_enable = True, dma_enable = True, dotfont_initilized = False,
     df_info = \<lparr>font_width = 0, font_height = 0, font_length = 0, font_counts = 0, f_basis = [], font_data = []\<rparr>,
     msg_x = 0, msg_color = 0\<rparr> = None"
  by (rule fb_draw_leaves_framebuffer) simp

end
