(* ===== verification/Framebuffer_Line.thy ===== *)
theory Framebuffer_Line
  imports Framebuffer_Draw
begin

text \<open>
  The lines of \<open>fb_draw_line\<close> (\<open>common/src/fb_util.c\<close>) on screens of less than 16384 columns and
  rows, where none of its \<open>int32_t\<close> variables overflows. \<open>line_row\<close> is the closed form of the row
  the incremental loop reaches in a column and \<open>line_d\<close> that of its decision variable.
\<close>

section \<open>The rows of a line\<close>

lemma div_bounds:
  fixes a b :: int
  assumes "0 < b"
  shows "b * (a div b) \<le> a" "a < b * (a div b + 1)"
  using pos_mod_bound [OF assms, of a] pos_mod_sign [OF assms, of a] mult_div_mod_eq [of b a]
  unfolding distrib_left by linarith+

lemma int_divI: "0 < b \<Longrightarrow> b * q \<le> a \<Longrightarrow> a < b * (q + 1) \<Longrightarrow> a div b = q" for a b q :: int
proof (rule antisym)
  assume b: "0 < b" and q: "b * q \<le> a" "a < b * (q + 1)"
  have "b * (a div b) < b * (q + 1)" using div_bounds(1) [OF b, of a] q(2) by linarith
  then show "a div b \<le> q" using b by simp
  have "b * q < b * (a div b + 1)" using div_bounds(2) [OF b, of a] q(1) by linarith
  then show "q \<le> a div b" using b by simp
qed

text \<open>
  The row, counted from the start, in which \<open>fb_draw_line\<close> draws column \<open>k\<close> of a line \<open>dx\<close> columns
  wide and \<open>dy\<close> rows high: the nearest to the ideal line, but at most one more for each column.
\<close>

definition line_row :: "int \<Rightarrow> int \<Rightarrow> int \<Rightarrow> int" where
  "line_row dx dy k = (if dy \<le> dx then (2 * k * dy + dx - 1) div (2 * dx) else k)"

lemma line_row_shallow:
  assumes "0 < dx" "dy \<le> dx"
  shows "2 * dx * line_row dx dy k \<le> 2 * k * dy + dx - 1" "2 * k * dy + dx - 1 < 2 * dx * (line_row dx dy k + 1)"
  using div_bounds [of "2 * dx" "2 * k * dy + dx - 1"] assms by (simp_all add: line_row_def)

lemma line_row_start: "0 < dx \<Longrightarrow> line_row dx dy 0 = 0"
  by (simp add: line_row_def)

lemma line_row_nonneg: "0 < dx \<Longrightarrow> 0 \<le> dy \<Longrightarrow> 0 \<le> k \<Longrightarrow> 0 \<le> line_row dx dy k"
  by (simp add: line_row_def pos_imp_zdiv_nonneg_iff add_nonneg_pos)

lemma line_row_le: 
  assumes "0 < dx" "0 \<le> dy" "0 \<le> k"
  shows "line_row dx dy k \<le> k" and "k \<le> dx \<Longrightarrow> line_row dx dy k \<le> dy"
proof -
  show "line_row dx dy k \<le> k"
  proof (cases "dy \<le> dx")
    case True
    have "k * dy \<le> k * dx" using assms(3) True by (rule mult_left_mono [rotated])
    with line_row_shallow(1) [OF assms(1) True, of k] assms(1)
    have "2 * dx * line_row dx dy k < 2 * dx * (k + 1)" by (simp add: algebra_simps)
    with assms(1) show ?thesis by simp
  qed (simp add: line_row_def)
  assume k: "k \<le> dx"
  show "line_row dx dy k \<le> dy"
  proof (cases "dy \<le> dx")
    case True
    have "k * dy \<le> dx * dy" using k assms(2) by (rule mult_right_mono)
    with line_row_shallow(1) [OF assms(1) True, of k] assms(1)
    have "2 * dx * line_row dx dy k < 2 * dx * (dy + 1)" by (simp add: algebra_simps)
    with assms(1) show ?thesis by simp
  qed (use k in \<open>simp add: line_row_def\<close>)
qed

text \<open>One step of the loop and its decision variable.\<close>

definition line_d :: "int \<Rightarrow> int \<Rightarrow> int \<Rightarrow> int" where
  "line_d dx dy k = 2 * (k + 1) * dy - dx * (2 * line_row dx dy k + 1)"

lemma line_row_step:
  assumes "0 < dx" "0 \<le> dy" "0 \<le> k"
  shows "line_row dx dy (k + 1) = (if line_d dx dy k \<le> 0 then line_row dx dy k else line_row dx dy k + 1)"
proof (cases "dy \<le> dx")
  case True
  let ?r = "line_row dx dy k" and ?q = "if line_d dx dy k \<le> 0 then line_row dx dy k else line_row dx dy k + 1"
  have "2 * dx * ?q \<le> 2 * (k + 1) * dy + dx - 1" "2 * (k + 1) * dy + dx - 1 < 2 * dx * (?q + 1)"
    using line_row_shallow [OF assms(1) True, of k] assms(2) True by (auto simp: line_d_def algebra_simps)
  with assms(1) have "(2 * (k + 1) * dy + dx - 1) div (2 * dx) = ?q" by (intro int_divI) auto
  with True show ?thesis by (simp add: line_row_def)
next
  case False
  then have "(k + 1) * dx \<le> (k + 1) * dy" using assms(3) by (intro mult_left_mono) auto
  with assms(1) have "0 < 2 * (k + 1) * dy - dx * (2 * k + 1)" by (simp add: algebra_simps)
  then show ?thesis using False by (simp add: line_d_def line_row_def)
qed

lemma line_d_step:
  assumes "0 < dx" "0 \<le> dy" "0 \<le> k"
  shows "line_d dx dy (k + 1) = line_d dx dy k + (if line_d dx dy k \<le> 0 then 2 * dy else 2 * (dy - dx))"
  using line_row_step [OF assms] by (simp add: line_d_def [of dx dy "k + 1"]) (simp add: line_d_def algebra_simps)

lemma line_d_bounds:
  assumes "0 < dx" "0 \<le> dy" "0 \<le> k"
  shows "- (2 * dx) \<le> line_d dx dy k" "line_d dx dy k \<le> 2 * (k + 1) * dy"
proof -
  have "0 \<le> dx * line_row dx dy k" using line_row_nonneg [OF assms] assms(1) by simp
  with assms show "line_d dx dy k \<le> 2 * (k + 1) * dy" by (simp add: line_d_def algebra_simps)
  show "- (2 * dx) \<le> line_d dx dy k"
  proof (cases "dy \<le> dx")
    case True
    with line_row_shallow [OF assms(1) True, of k] assms show ?thesis by (simp add: line_d_def algebra_simps)
  next
    case False
    then have "(k + 1) * dx \<le> (k + 1) * dy" using assms(3) by (intro mult_left_mono) auto
    with False assms show ?thesis by (simp add: line_d_def line_row_def algebra_simps)
  qed
qed


text \<open>The loop stores one pixel in every column.\<close>

lemma line_loop_wrote:
  fixes W x y dx dy y01 :: int and flip :: bool
  defines "S \<equiv> \<lambda>k. (if flip then y01 - (y + line_row dx dy k) else y + line_row dx dy k) * W + x + k"
  assumes "0 < dx" "dx < 2 ^ 14" "0 \<le> dy" "dy < 2 ^ 14" "0 \<le> x" "x < 2 ^ 14" "0 \<le> y" "y < 2 ^ 14" "0 \<le> W" "W < 2 ^ 14"
    and "\<And>k. 0 \<le> k \<Longrightarrow> k \<le> dx \<Longrightarrow> 0 \<le> S k \<and> S k < int (length fb)" and "int (length fb) < 2 ^ 28"
  shows "ok (line_loop W color flip x y (x + dx) y01 dx dy fb) (\<lambda>(c, ys). wrote (\<Union>k\<in>{0..dx}. {S k}) (\<lambda>_. color) fb ys)"
proof -
  have bnd: "line_row dx dy k \<le> 2 ^ 14" "0 \<le> line_row dx dy k" "- (2 ^ 15) \<le> line_d dx dy k" "line_d dx dy k \<le> 2 ^ 30"
      "line_row dx dy k \<le> dy \<or> dx < k"
    if "0 \<le> k" "k \<le> dx + 1" for k
  proof -
    show "0 \<le> line_row dx dy k" using line_row_nonneg assms that by simp
    show "line_row dx dy k \<le> 2 ^ 14" using line_row_le(1) [of dx dy k] assms that by simp
    show "- (2 ^ 15) \<le> line_d dx dy k" using line_d_bounds(1) [of dx dy k] assms that by simp
    have "(k + 1) * dy \<le> (2 ^ 14 + 1) * 2 ^ 14" using assms that by (intro mult_mono) auto
    then show "line_d dx dy k \<le> 2 ^ 30" using line_d_bounds(2) [of dx dy k] assms(2,4) that by (simp add: algebra_simps)
    show "line_row dx dy k \<le> dy \<or> dx < k" using line_row_le(2) [of dx dy k] assms that by linarith
  qed
  let ?f = "\<lambda>x ((y, d), fb). do {
       fb_offset \<leftarrow> (if \<not> flip then do { row \<leftarrow> int32 (y * W); int32 (row + x) } else Some ((y01 - y) * W + x));
       fb \<leftarrow> wr fb (fb_offset mod 2 ^ 32) color;
       (y, d) \<leftarrow> (if d \<le> 0 then do { d \<leftarrow> int32 (d + 2 * dy); Some (y, d) }
         else do { y \<leftarrow> int32 (y + 1); d \<leftarrow> int32 (d + 2 * (dy - dx)); Some (y, d) });
       x \<leftarrow> int32 (x + 1);
       Some ((y, d), fb) }"
  have "ok (cfor x (x + dx + 1) 1 ?f ((y, 2 * dy - dx), fb))
      (\<lambda>(c, ys). c = (y + line_row dx dy (dx + 1), line_d dx dy (dx + 1)) \<and>
        wrote (\<Union>i\<in>{i. x \<le> i \<and> i < x + dx + 1 \<and> 1 dvd (i - x)}. {S (i - x)}) (\<lambda>_. color) fb ys)"
  proof (rule ok_mono [OF cfor_wrote_indexed [where P = "\<lambda>i c. c = (y + line_row dx dy (i - x), line_d dx dy (i - x))"]])
    fix i :: int and c :: "int \<times> int" and zs :: "i32 list"
    assume i: "x \<le> i" "i < x + dx + 1" and c: "c = (y + line_row dx dy (i - x), line_d dx dy (i - x))"
      and zs: "length zs = length fb"
    define k where "k = i - x"
    have k: "0 \<le> k" "k \<le> dx" and ik: "i = x + k" using i by (auto simp: k_def)
    have k': "k \<le> dx + 1" "0 \<le> k + 1" "k + 1 \<le> dx + 1" using k by auto
    note b = bnd(1-4) [OF k(1) k'(1)] bnd(1-4) [OF k'(2,3)]
    have off: "0 \<le> S k" "S k < int (length zs)" "S k mod 2 ^ 32 = S k"
      using assms(12) [OF k] assms(13) zs by auto
    have row: "0 \<le> (y + line_row dx dy k) * W" "(y + line_row dx dy k) * W \<le> 2 ^ 15 * 2 ^ 14"
    proof -
      have "0 \<le> y + line_row dx dy k" "y + line_row dx dy k \<le> 2 ^ 15"
        using assms(8,9) b(1,2) by simp_all
      then show "0 \<le> (y + line_row dx dy k) * W" "(y + line_row dx dy k) * W \<le> 2 ^ 15 * 2 ^ 14"
        using assms(10,11) by (intro mult_nonneg_nonneg mult_mono; simp)+
    qed
    have offset: "(if \<not> flip then do { row \<leftarrow> int32 ((y + line_row dx dy (i - x)) * W); int32 (row + i) }
        else Some ((y01 - (y + line_row dx dy (i - x))) * W + i)) = Some (S k)"
      using row off(1,2) assms(13) zs by (simp add: ik int32_def S_def add.assoc split: if_splits)
    have store: "ok (do { fb \<leftarrow> wr zs (S k mod 2 ^ 32) color;
       (y, d) \<leftarrow> (if line_d dx dy (i - x) \<le> 0 then do { d \<leftarrow> int32 (line_d dx dy (i - x) + 2 * dy); Some (y + line_row dx dy (i - x), d) }
         else do { y \<leftarrow> int32 (y + line_row dx dy (i - x) + 1); d \<leftarrow> int32 (line_d dx dy (i - x) + 2 * (dy - dx)); Some (y, d) });
       x \<leftarrow> int32 (i + 1);
       Some ((y, d), fb) })
      (\<lambda>(c', ys). c' = (y + line_row dx dy (i + 1 - x), line_d dx dy (i + 1 - x)) \<and> wrote {S (i - x)} (\<lambda>_. color) zs ys)"
    proof -
      have "i + 1 - x = k + 1" "i - x = k" by (simp_all add: ik)
      then show ?thesis
        using b k off(1,2) assms(2-9) line_row_step [OF assms(2,4) k(1)] line_d_step [OF assms(2,4) k(1)]
        by (simp add: ik ok_simps wrote_update off(3) [simplified])
    qed
    show "ok (?f i (c, zs)) (\<lambda>(c', ys). c' = (y + line_row dx dy (i + 1 - x), line_d dx dy (i + 1 - x)) \<and>
        wrote {S (i - x)} (\<lambda>_. color) zs ys)"
      using store by (simp only: c prod.case offset bind.bind_lunit)
  qed (use assms(2) in \<open>simp_all add: line_row_start line_d_def\<close>)
  moreover have "(\<Union>i\<in>{i. x \<le> i \<and> i < x + dx + 1 \<and> 1 dvd (i - x)}. {S (i - x)}) = (\<Union>k\<in>{0..dx}. {S k})"
  proof -
    have "{i. x \<le> i \<and> i < x + dx + 1 \<and> 1 dvd (i - x)} = (\<lambda>k. x + k) ` {0..dx}"
      by (auto simp: image_iff intro!: bexI [of _ "_ - x"])
    then show ?thesis by (simp only: image_image add_diff_cancel_left')
  qed
  ultimately show ?thesis
    using assms(2-5) by (simp add: line_loop_def ok_simps) (auto elim!: ok_mono)
qed


definition line_pixels :: "int \<Rightarrow> int \<Rightarrow> int \<Rightarrow> int \<Rightarrow> int \<Rightarrow> int set" where
  "line_pixels W x0 y0 x1 y1 = (\<Union>k\<in>{0..x1 - x0}.
     {(y0 + sgn (y1 - y0) * line_row (x1 - x0) \<bar>y1 - y0\<bar> k) * W + x0 + k})"

definition screen :: "i32 \<Rightarrow> i32 \<Rightarrow> i32 list \<Rightarrow> bool" where
  "screen W H fb \<longleftrightarrow> int (length fb) = uint H * uint W \<and> uint W < 2 ^ 14 \<and> uint H < 2 ^ 14"

lemma screen_ok: "screen W H fb \<Longrightarrow> fb_ok W H fb"
proof -
  assume s: "screen W H fb"
  then have "(uint H + 1) * uint W \<le> 2 ^ 14 * 2 ^ 14"
    by (intro mult_mono) (auto simp: screen_def)
  with s show ?thesis by (simp add: fb_ok_def screen_def)
qed

lemma sint_uint32: "uint (x :: i32) < 2 ^ 31 \<Longrightarrow> sint x = uint x"
  using order_trans [of "- (2 ^ 31)" 0 "uint x"] by (simp add: sint_uint signed_take_bit_int_eq_self)

lemma uint32_diff: "b \<le> a \<Longrightarrow> uint (a - b) = uint a - uint (b :: i32)"
  by (simp add: uint_sub_lem [THEN iffD1] word_le_def)

lemma sint_diff: "b \<le> a \<Longrightarrow> uint a < 2 ^ 31 \<Longrightarrow> sint (a - b) = uint a - uint (b :: i32)"
proof -
  assume a: "b \<le> a" "uint a < 2 ^ 31"
  have "uint (a - b) < 2 ^ 31" using uint32_diff [OF a(1)] a(2) uint_ge_0 [of b] by linarith
  with uint32_diff [OF a(1)] show ?thesis by (simp add: sint_uint32)
qed

lemma line_pixels_bound:
  assumes "screen W H fb" and "0 \<le> x0" "x0 < x1" "x1 < uint W" "0 \<le> y0" "y0 < uint H" "0 \<le> y1" "y1 < uint H"
    and "0 \<le> k" "k \<le> x1 - x0"
  shows "0 \<le> (y0 + sgn (y1 - y0) * line_row (x1 - x0) \<bar>y1 - y0\<bar> k) * uint W + x0 + k \<and>
    (y0 + sgn (y1 - y0) * line_row (x1 - x0) \<bar>y1 - y0\<bar> k) * uint W + x0 + k < int (length fb)"
proof -
  have r: "0 \<le> line_row (x1 - x0) \<bar>y1 - y0\<bar> k" "line_row (x1 - x0) \<bar>y1 - y0\<bar> k \<le> \<bar>y1 - y0\<bar>"
    using line_row_nonneg line_row_le(2) assms by simp_all
  then have "0 \<le> y0 + sgn (y1 - y0) * line_row (x1 - x0) \<bar>y1 - y0\<bar> k"
      "y0 + sgn (y1 - y0) * line_row (x1 - x0) \<bar>y1 - y0\<bar> k < uint H"
    using assms by (auto simp: sgn_if split: if_splits)
  from pixel_bound [OF this, of "x0 + k" "uint W"] pixel_bound [OF this, of "x0 + k + 1" "uint W"] assms
  show ?thesis by (simp add: screen_def add.assoc)
qed

lemma draw_line_general:
  assumes "screen W H fb" and "x0 < x1" "x1 < W" "y0 < H" "y1 < H" "y0 \<noteq> y1"
  shows "ok (fb_draw_line W x0 y0 x1 y1 color width fb)
    (wrote (line_pixels (uint W) (uint x0) (uint y0) (uint x1) (uint y1)) (\<lambda>_. color) fb)"
proof -
  have u: "uint x0 < uint x1" "uint x1 < uint W" "uint y0 < uint H" "uint y1 < uint H" "uint W < 2 ^ 14" "uint H < 2 ^ 14"
    using assms by (simp_all add: word_less_def screen_def)
  have s: "sint x0 = uint x0" "sint x1 = uint x1" "sint y0 = uint y0" "sint y1 = uint y1" "sint (x1 - x0) = uint x1 - uint x0"
    using u assms(2) by (simp_all add: sint_uint32 sint_diff order_less_imp_le)
  have y01: "uint (y0 + y1) = uint y0 + uint y1" using u by (intro uint32_add) simp
  have len: "int (length fb) < 2 ^ 28"
  proof -
    have "uint H * uint W \<le> (2 ^ 14 - 1) * (2 ^ 14 - 1)" using u by (intro mult_mono) auto
    then show ?thesis using assms(1) by (simp add: screen_def)
  qed
  have small: "uint x1 - uint x0 < 2 ^ 14" "uint y0 - uint y1 < 2 ^ 14" "uint y1 - uint y0 < 2 ^ 14"
    using u uint_ge_0 [of x0] uint_ge_0 [of y0] uint_ge_0 [of y1] by linarith+
  note bound = line_pixels_bound [OF assms(1) uint_ge_0 u(1,2) uint_ge_0 u(3) uint_ge_0 u(4)]
  have ne: "x1 - x0 \<noteq> 0" "y1 - y0 \<noteq> 0" "\<not> x1 < x0" using assms by auto
  show ?thesis
  proof (cases "y1 < y0")
    case True
    then have y: "uint y1 < uint y0" "sint (y0 - y1) = uint y0 - uint y1"
      using u by (simp_all add: word_less_def sint_diff word_le_def)
    have "ok (line_loop (uint W) color True (uint x0) (uint y1) (uint x0 + (uint x1 - uint x0)) (uint y0 + uint y1)
        (uint x1 - uint x0) (uint y0 - uint y1) fb)
      (\<lambda>(c, ys). wrote (\<Union>k\<in>{0..uint x1 - uint x0}. {(if True then uint y0 + uint y1 - (uint y1 + line_row (uint x1 - uint x0) (uint y0 - uint y1) k)
         else uint y1 + line_row (uint x1 - uint x0) (uint y0 - uint y1) k) * uint W + uint x0 + k}) (\<lambda>_. color) fb ys)"
      using u y small len bound by (intro line_loop_wrote) (simp_all add: sgn_if)
    then show ?thesis using ne True y
      by (simp add: fb_draw_line_def s y01 ok_simps add.commute [of y1] line_pixels_def sgn_if) (auto simp: ok_simps elim!: ok_mono)
  next
    case False
    then have y: "uint y0 < uint y1" "sint (y1 - y0) = uint y1 - uint y0" 
      using u assms(6) by (auto simp: word_less_def sint_diff word_le_def order_less_le word_uint_eq_iff)
    have "ok (line_loop (uint W) color False (uint x0) (uint y0) (uint x0 + (uint x1 - uint x0)) (uint y0 + uint y1)
        (uint x1 - uint x0) (uint y1 - uint y0) fb)
      (\<lambda>(c, ys). wrote (\<Union>k\<in>{0..uint x1 - uint x0}. {(if False then uint y0 + uint y1 - (uint y0 + line_row (uint x1 - uint x0) (uint y1 - uint y0) k)
         else uint y0 + line_row (uint x1 - uint x0) (uint y1 - uint y0) k) * uint W + uint x0 + k}) (\<lambda>_. color) fb ys)"
      using u y small len bound by (intro line_loop_wrote) (simp_all add: sgn_if)
    then show ?thesis using ne False y
      by (simp add: fb_draw_line_def s y01 ok_simps line_pixels_def sgn_if) (auto simp: ok_simps elim!: ok_mono)
  qed
qed

lemma pixel_unique: "0 \<le> x \<Longrightarrow> x < W \<Longrightarrow> 0 \<le> x' \<Longrightarrow> x' < W \<Longrightarrow> y * W + x = y' * W + x' \<longleftrightarrow> y = y' \<and> x = x'" for x :: int
proof -
  assume a: "0 \<le> x" "x < W" "0 \<le> x'" "x' < W"
  then have "(y * W + x) div W = y" "(y' * W + x') div W = y'" by simp_all
  then show ?thesis by auto
qed

lemma line_pixel:
  assumes "0 \<le> x" "x < W" "0 \<le> x0" "x1 < W"
  shows "y * W + x \<in> line_pixels W x0 y0 x1 y1 \<longleftrightarrow>
    x0 \<le> x \<and> x \<le> x1 \<and> y = y0 + sgn (y1 - y0) * line_row (x1 - x0) \<bar>y1 - y0\<bar> (x - x0)" (is "_ \<longleftrightarrow> ?R")
proof
  assume "y * W + x \<in> line_pixels W x0 y0 x1 y1"
  then obtain k where k: "0 \<le> k" "k \<le> x1 - x0"
    "y * W + x = (y0 + sgn (y1 - y0) * line_row (x1 - x0) \<bar>y1 - y0\<bar> k) * W + (x0 + k)"
    by (auto simp: line_pixels_def add.assoc)
  then show ?R using assms pixel_unique [of x W "x0 + k" y] by auto
next
  assume ?R
  then show "y * W + x \<in> line_pixels W x0 y0 x1 y1"
    by (auto simp: line_pixels_def intro!: bexI [of _ "x - x0"])
qed

lemma line_row_iff:
  assumes "0 < dx" "dy \<le> dx"
  shows "r = line_row dx dy k \<longleftrightarrow> - dx \<le> 2 * (r * dx - k * dy) \<and> 2 * (r * dx - k * dy) < dx"
proof
  assume "r = line_row dx dy k"
  with line_row_shallow [OF assms, of k] show "- dx \<le> 2 * (r * dx - k * dy) \<and> 2 * (r * dx - k * dy) < dx"
    by (simp add: algebra_simps)
next
  assume "- dx \<le> 2 * (r * dx - k * dy) \<and> 2 * (r * dx - k * dy) < dx"
  then have "2 * dx * r \<le> 2 * k * dy + dx - 1" "2 * k * dy + dx - 1 < 2 * dx * (r + 1)"
    by (simp_all add: algebra_simps)
  with assms show "r = line_row dx dy k" using int_divI [of "2 * dx" r] by (simp add: line_row_def)
qed




text \<open>
  A line higher than it is wide: \<open>fb_draw_line\<close> goes one row for every column, so it ends
  in the row \<open>x1 - x0\<close> after the start and leaves its end point as it was.
\<close>
theorem draw_line_steep:
  assumes "screen W H fb" and "x0 < x1" "x1 < W" "y0 < H" "y1 < H"
    and "uint x1 - uint x0 < \<bar>uint y1 - uint y0\<bar>"
  shows "ok (fb_draw_line W x0 y0 x1 y1 color width fb) (\<lambda>ys.
    wrote (\<Union>k\<in>{0..uint x1 - uint x0}. {(uint y0 + sgn (uint y1 - uint y0) * k) * uint W + uint x0 + k}) (\<lambda>_. color) fb ys \<and>
    ys ! nat (uint y1 * uint W + uint x1) = fb ! nat (uint y1 * uint W + uint x1))"
proof -
  have u: "uint x0 < uint x1" "uint x1 < uint W" "uint y1 < uint H"
    using assms(2,3,5) by (simp_all add: word_less_def)
  have "y0 \<noteq> y1" using u assms(6) by auto
  note w = draw_line_general [OF assms(1-5) this, of color width]
  show ?thesis
  proof (rule ok_mono [OF w], intro conjI)
    fix ys assume w: "wrote (line_pixels (uint W) (uint x0) (uint y0) (uint x1) (uint y1)) (\<lambda>_. color) fb ys"
    have "line_row (uint x1 - uint x0) \<bar>uint y1 - uint y0\<bar> k = k" for k using assms(6) by (simp add: line_row_def)
    then have pixels: "line_pixels (uint W) (uint x0) (uint y0) (uint x1) (uint y1) =
        (\<Union>k\<in>{0..uint x1 - uint x0}. {(uint y0 + sgn (uint y1 - uint y0) * k) * uint W + uint x0 + k})"
      and row: "line_row (uint x1 - uint x0) \<bar>uint y1 - uint y0\<bar> (uint x1 - uint x0) = uint x1 - uint x0"
      by (simp_all add: line_pixels_def)
    show "wrote (\<Union>k\<in>{0..uint x1 - uint x0}. {(uint y0 + sgn (uint y1 - uint y0) * k) * uint W + uint x0 + k}) (\<lambda>_. color) fb ys"
      using w by (simp only: pixels)
    have "uint y1 \<noteq> uint y0 + sgn (uint y1 - uint y0) * (uint x1 - uint x0)"
      using assms(6) u(1) by (auto simp: sgn_if abs_if split: if_splits)
    then have "uint y1 * uint W + uint x1 \<notin> line_pixels (uint W) (uint x0) (uint y0) (uint x1) (uint y1)"
      using u row by (subst line_pixel) auto
    then show "ys ! nat (uint y1 * uint W + uint x1) = fb ! nat (uint y1 * uint W + uint x1)"
      using wrote_pixel [OF w screen_ok [OF assms(1)] _ u(2) _ u(3)] by simp
  qed
qed

lemma draw_line_steep_witness:
  "ok (fb_draw_line 2 0 0 1 3 7 1 [0, 0, 0, 0, 0, 0, 0, 0]) (\<lambda>ys. ys ! 7 = 0)"
  by (rule ok_mono [OF draw_line_steep [of 2 4]]) (simp_all add: screen_def word_less_def)

end
