(* ===== verification/Framebuffer_Text.thy ===== *)
theory Framebuffer_Text
  imports Framebuffer_Line
begin

text \<open>
  What \<open>fb_draw_string\<close> of \<open>common/src/fb_util.c\<close> stores. \<open>basis_table\<close> is the table
  \<open>dotfont_init\<close> builds, \<open>glyph_bit\<close> the bit of the font a pixel of a character shows and
  \<open>glyph_pixels\<close> the pixels a character sets. The font has sixteen columns, two bytes per row, as
  the loop over a row assumes.
\<close>

section \<open>The table of bytes\<close>

lemma basis_length: "length (font_basis_of b) = 8"
  by (simp add: font_basis_of_def)

lemma basis_of_bits: "font_basis_of b = map (\<lambda>l. if bit b (7 - l) then CHR ''X'' else CHR ''.'') [0..<8]"
proof -
  have "b AND 0x80 \<noteq> 0 \<longleftrightarrow> bit b 7" "b AND 0x40 \<noteq> 0 \<longleftrightarrow> bit b 6" "b AND 0x20 \<noteq> 0 \<longleftrightarrow> bit b 5"
    "b AND 0x10 \<noteq> 0 \<longleftrightarrow> bit b 4" "b AND 0x08 \<noteq> 0 \<longleftrightarrow> bit b 3" "b AND 0x04 \<noteq> 0 \<longleftrightarrow> bit b 2"
    "b AND 0x02 \<noteq> 0 \<longleftrightarrow> bit b 1" "b AND 0x01 \<noteq> 0 \<longleftrightarrow> bit b 0"
    by (simp_all add: bit_iff_and_push_bit_not_eq_0 push_bit_eq_mult)
  then show ?thesis unfolding font_basis_of_def by (simp only:) (simp add: upt_rec)
qed

lemma basis_bit: "0 \<le> l \<Longrightarrow> l < 8 \<Longrightarrow> font_basis_of b ! nat l = (if bit b (7 - nat l) then CHR ''X'' else CHR ''.'')"
  by (simp add: basis_of_bits nat_less_iff)

text \<open>The table that \<open>dotfont_init\<close> builds.\<close>

definition basis_table :: "char list list" where
  "basis_table = map (\<lambda>n. font_basis_of (of_nat n)) [0..<256]"

lemma basis_table_built:
  assumes "length basis = 256"
  shows "cfor 0 256 1 (\<lambda>x basis. wr basis x (font_basis_of (word_of_int x))) basis = Some basis_table"
proof -
  have "ok (cfor 0 256 1 (\<lambda>x basis. wr basis x (font_basis_of (word_of_int x))) basis)
    (wrote (\<Union>i\<in>{i. 0 \<le> i \<and> i < 256 \<and> 1 dvd (i - 0)}. {i}) (\<lambda>x. font_basis_of (word_of_int x)) basis)"
    using assms by (intro cfor_wrote_array) (auto simp: ok_simps wrote_update)
  then obtain t where t: "cfor 0 256 1 (\<lambda>x basis. wr basis x (font_basis_of (word_of_int x))) basis = Some t"
    "wrote (\<Union>i\<in>{i. 0 \<le> i \<and> i < 256 \<and> 1 dvd (i - 0)}. {i}) (\<lambda>x. font_basis_of (word_of_int x)) basis t"
    by (rule okE)
  have "{0..<int (length basis)} \<subseteq> (\<Union>i\<in>{i. 0 \<le> i \<and> i < 256 \<and> 1 dvd (i - 0)}. {i})"
    using assms by auto
  from wrote_all [OF t(2) this] t(1) assms show ?thesis by (simp add: basis_table_def)
qed

section \<open>Glyphs\<close>

text \<open>Bit \<open>k\<close> of row \<open>r\<close> of a glyph of two bytes per row.\<close>

definition glyph_bit :: "dotfont_info \<Rightarrow> int \<Rightarrow> int \<Rightarrow> int \<Rightarrow> bool" where
  "glyph_bit df p r k = bit (font_data df ! nat (p + 2 * r + k div 8)) (7 - nat (k mod 8))"

lemma glyph_byte_wrote:
  assumes "f_basis df = basis_table" and "\<And>l. 0 \<le> l \<Longrightarrow> l < 8 \<Longrightarrow> 0 \<le> j * width + x + (k0 + l) \<and> j * width + x + (k0 + l) < int (length fb)"
  shows "ok (glyph_byte width df color j x k0 b fb)
    (wrote {j * width + x + (k0 + l) |l. 0 \<le> l \<and> l < 8 \<and> bit b (7 - nat l)} (\<lambda>_. color) fb)"
proof -
  have "unat b < 2 ^ LENGTH(8)" by (rule unsigned_less)
  then have "rd (f_basis df) (uint b) = Some (font_basis_of b)"
    using uint_lt2p [of b] by (simp add: rd_def assms(1) basis_table_def flip: unat_eq_nat_uint)
  moreover have "ok (cfor 0 8 1 (\<lambda>l fb. do {
       c \<leftarrow> rd (font_basis_of b) l;
       if c = CHR ''X'' then wr fb (j * width + x + (k0 + l)) color else Some fb }) fb)
     (wrote (\<Union>l\<in>{i. 0 \<le> i \<and> i < 8 \<and> 1 dvd (i - 0)}. if bit b (7 - nat l) then {j * width + x + (k0 + l)} else {}) (\<lambda>_. color) fb)"
    using assms(2) by (intro cfor_wrote_array) (auto simp: ok_simps basis_length basis_bit wrote_update wrote_empty)
  moreover have "(\<Union>l\<in>{i. 0 \<le> i \<and> i < 8 \<and> 1 dvd (i - 0)}. if bit b (7 - nat l) then {j * width + x + (k0 + l)} else {}) =
      {j * width + x + (k0 + l) |l. 0 \<le> l \<and> l < 8 \<and> bit b (7 - nat l)}"
    by (auto split: if_splits)
  ultimately show ?thesis by (simp add: glyph_byte_def)
qed

definition glyph_pixels :: "int \<Rightarrow> dotfont_info \<Rightarrow> int \<Rightarrow> int \<Rightarrow> int \<Rightarrow> int \<Rightarrow> int set" where
  "glyph_pixels width df p x y0 y1 = (\<Union>j\<in>{y0..<y1}. {j * width + x + k |k. 0 \<le> k \<and> k < 16 \<and> glyph_bit df p (j - y0) k})"

lemma draw_glyph_wrote:
  assumes "f_basis df = basis_table" and "y0 \<le> y1"
    and "\<And>j k. y0 \<le> j \<Longrightarrow> j < y1 \<Longrightarrow> 0 \<le> k \<Longrightarrow> k < 16 \<Longrightarrow> 0 \<le> j * width + x + k \<and> j * width + x + k < int (length fb)"
    and "0 \<le> p" "p + 2 * (y1 - y0) \<le> int (length (font_data df))"
  shows "ok (draw_glyph width df color p x y0 y1 fb) (wrote (glyph_pixels width df p x y0 y1) (\<lambda>_. color) fb)"
proof -
  let ?S = "\<lambda>j. {j * width + x + k |k. 0 \<le> k \<and> k < 16 \<and> glyph_bit df p (j - y0) k}"
  have "ok (cfor y0 y1 1 (\<lambda>j (i, fb). do {
       b \<leftarrow> rd (font_data df) (p + i);
       fb \<leftarrow> glyph_byte width df color j x 0 b fb;
       b \<leftarrow> rd (font_data df) (p + i + 1);
       fb \<leftarrow> glyph_byte width df color j x 8 b fb;
       Some (i + 2, fb) }) (0, fb))
     (\<lambda>(i, ys). i = 2 * (y1 - y0) \<and> wrote (\<Union>j\<in>{j. y0 \<le> j \<and> j < y1 \<and> 1 dvd (j - y0)}. ?S j) (\<lambda>_. color) fb ys)"
  proof (rule cfor_wrote_indexed [where P = "\<lambda>j i. i = 2 * (j - y0)"])
    fix j i :: int and zs :: "i32 list"
    assume j: "y0 \<le> j" "j < y1" and i: "i = 2 * (j - y0)" and zs: "length zs = length fb"
    let ?b0 = "font_data df ! nat (p + i)" and ?b1 = "font_data df ! nat (p + i + 1)"
    let ?A = "{j * width + x + (0 + l) |l. 0 \<le> l \<and> l < 8 \<and> bit ?b0 (7 - nat l)}"
    let ?B = "{j * width + x + (8 + l) |l. 0 \<le> l \<and> l < 8 \<and> bit ?b1 (7 - nat l)}"
    have reads: "rd (font_data df) (p + i) = Some ?b0" "rd (font_data df) (p + i + 1) = Some ?b1"
      using j assms(4,5) by (simp_all add: rd_def i)
    have first: "ok (glyph_byte width df color j x 0 ?b0 zs) (wrote ?A (\<lambda>_. color) zs)"
      using assms(3) [OF j] zs by (intro glyph_byte_wrote assms(1)) auto
    have second: "ok (glyph_byte width df color j x 8 ?b1 us) (wrote ?B (\<lambda>_. color) us)" if "length us = length fb" for us
      using assms(3) [OF j] that by (intro glyph_byte_wrote assms(1)) auto
    have S: "?A \<union> ?B = ?S j"
    proof -
      have "j * width + x + k \<in> ?A \<union> ?B \<longleftrightarrow> 0 \<le> k \<and> k < 16 \<and> glyph_bit df p (j - y0) k" for k
      proof (cases "k < 8")
        case True
        then have "k div 8 = 0 \<and> k mod 8 = k" if "0 \<le> k" using that by simp
        with True show ?thesis by (auto simp: glyph_bit_def i)
      next
        case False
        then have "k div 8 = 1 \<and> k mod 8 = k - 8" if "k < 16" using False that by presburger
        with False show ?thesis by (auto simp: glyph_bit_def i intro!: exI [of _ "k - 8"])
      qed
      then show ?thesis by (auto; metis)
    qed
    show "ok ((\<lambda>(i, fb). do {
       b \<leftarrow> rd (font_data df) (p + i);
       fb \<leftarrow> glyph_byte width df color j x 0 b fb;
       b \<leftarrow> rd (font_data df) (p + i + 1);
       fb \<leftarrow> glyph_byte width df color j x 8 b fb;
       Some (i + 2, fb) }) (i, zs))
      (\<lambda>(i', ys). i' = 2 * (j + 1 - y0) \<and> wrote (?S j) (\<lambda>_. color) zs ys)"
      unfolding S [symmetric] prod.case reads bind.bind_lunit
    proof (rule ok_bindI [OF first])
      fix us assume w: "wrote ?A (\<lambda>_. color) zs us"
      then have "length us = length fb" using zs by (simp add: wrote_length)
      from second [OF this] obtain vs where
        vs: "glyph_byte width df color j x 8 ?b1 us = Some vs" "wrote ?B (\<lambda>_. color) us vs" by (rule okE)
      have n: "i + 2 = 2 * (j + 1 - y0)" using i by simp
      show "ok (do { fb \<leftarrow> glyph_byte width df color j x 8 ?b1 us; Some (i + 2, fb) })
        (\<lambda>(i', ys). i' = 2 * (j + 1 - y0) \<and> wrote (?A \<union> ?B) (\<lambda>_. color) zs ys)"
        unfolding vs(1) bind.bind_lunit ok_Some prod.case using n wrote_trans [OF w vs(2)] by (rule conjI)
    qed
  next
    show "(0::int) < 1" "y0 \<le> y1" "1 dvd y1 - y0" "0 = 2 * (y0 - y0)" using assms(2) by simp_all
  qed
  then have "ok (draw_glyph width df color p x y0 y1 fb)
      (wrote (\<Union>j\<in>{j. y0 \<le> j \<and> j < y1 \<and> 1 dvd (j - y0)}. ?S j) (\<lambda>_. color) fb)"
    unfolding draw_glyph_def ok_bind by (rule ok_mono) (simp add: ok_Some split: prod.splits)
  moreover have "{j. y0 \<le> j \<and> j < y1 \<and> 1 dvd (j - y0)} = {y0..<y1}" by auto
  ultimately show ?thesis by (simp only: glyph_pixels_def)
qed

lemma glyph_pixel:
  assumes "0 \<le> px" "px < W" "0 \<le> x" "x + 16 \<le> W"
  shows "py * W + px \<in> glyph_pixels W df p x y0 y1 \<longleftrightarrow>
    y0 \<le> py \<and> py < y1 \<and> x \<le> px \<and> px < x + 16 \<and> glyph_bit df p (py - y0) (px - x)"
proof
  assume "py * W + px \<in> glyph_pixels W df p x y0 y1"
  then obtain j k where j: "y0 \<le> j" "j < y1" and k: "0 \<le> k" "k < 16" "glyph_bit df p (j - y0) k"
    and e: "py * W + px = j * W + (x + k)" by (auto simp: glyph_pixels_def add.assoc)
  have "py * W + px \<in> rect W (x + k) (x + k + 1) j (j + 1)" by (simp add: e rect_row)
  with assms k(1,2) j have "px = x + k \<and> py = j" by (simp add: rect_pixel)
  with j k show "y0 \<le> py \<and> py < y1 \<and> x \<le> px \<and> px < x + 16 \<and> glyph_bit df p (py - y0) (px - x)" by simp
next
  assume a: "y0 \<le> py \<and> py < y1 \<and> x \<le> px \<and> px < x + 16 \<and> glyph_bit df p (py - y0) (px - x)"
  then have "py * W + px \<in> {py * W + x + k |k. 0 \<le> k \<and> k < 16 \<and> glyph_bit df p (py - y0) k}"
    by (auto intro!: exI [of _ "px - x"])
  with a show "py * W + px \<in> glyph_pixels W df p x y0 y1"
    unfolding glyph_pixels_def by (intro UN_I [of py]) auto
qed

section \<open>Strings\<close>

lemma sint_small: "uint (x :: i32) < 2 ^ 31 \<Longrightarrow> sint x = uint x"
  by (simp add: sint_uint signed_take_bit_int_eq_self_iff order_trans [of _ 0])

lemma sint_column:
  assumes "uint (x :: i32) + n < 2 ^ 31" "0 \<le> n"
  shows "sint (x + word_of_int n) = uint x + n"
proof -
  have "n < 2 ^ 31" using assms(1) uint_ge_0 [of x] by linarith
  then have n: "uint (word_of_int n :: i32) = n" using assms(2) by (simp add: uint_word_of_int_eq take_bit_int_eq_self_iff)
  have "uint (x + word_of_int n) = uint x + n" using assms by (subst uint32_add) (simp_all add: n)
  with assms show ?thesis by (subst sint_small) simp_all
qed

text \<open>A string of characters that the font has, in a place where it is fully visible.\<close>

definition char_start :: "dotfont_info \<Rightarrow> i8 \<Rightarrow> int" where
  "char_start df ch = (sint ch - 32) * (uint (font_height df) * 2)"

definition in_font :: "dotfont_info \<Rightarrow> i8 list \<Rightarrow> bool" where
  "in_font df msg \<longleftrightarrow> font_width df = 16 \<and> f_basis df = basis_table \<and>
     (\<forall>c\<in>set msg. 32 \<le> sint c \<and> char_start df c + 2 * uint (font_height df) \<le> int (length (font_data df)))"

definition text_pixels :: "i32 \<Rightarrow> dotfont_info \<Rightarrow> i32 \<Rightarrow> i32 \<Rightarrow> i8 list \<Rightarrow> int set" where
  "text_pixels W df x y msg = (\<Union>c\<in>{0..<int (length msg)}. glyph_pixels (uint W) df (char_start df (msg ! nat c))
     (uint x + c * 16) (uint y) (uint y + uint (font_height df)))"

lemma draw_chars_wrote:
  assumes fb: "screen W H fb" and font: "in_font df msg"
    and "uint x + 16 * int (length msg) \<le> uint W" and "uint y + uint (font_height df) \<le> uint H"
  shows "ok (draw_chars W H df x y color msg fb) (wrote (text_pixels W df x y msg) (\<lambda>_. color) fb)"
proof -
  let ?fh = "uint (font_height df)"
  have W: "uint W < 2 ^ 14" and H: "uint H < 2 ^ 14" and len: "int (length fb) = uint H * uint W"
    using fb by (simp_all add: screen_def)
  then have s: "sint W = uint W" "sint H = uint H" by (auto intro!: sint_small)
  have "uint y \<le> uint H" using assms(4) uint_ge_0 [of "font_height df"] by linarith
  then have y: "sint y = uint y" using H by (intro sint_small) simp
  have fw: "uint (font_width df) = 16" using font by (simp add: in_font_def)
  have "ok (cfor 0 (int (length msg)) 1 (\<lambda>c_pos fb. do {
       current_char \<leftarrow> rd msg c_pos;
       let font_data_ptr = (sint current_char - 32) * (?fh * (16 div 8));
       let font_x_min = sint (x + word_of_int (c_pos * 16));
       draw_glyph (uint W) df color font_data_ptr font_x_min (uint y) (uint y + ?fh) fb }) fb)
     (wrote (\<Union>c\<in>{c. 0 \<le> c \<and> c < int (length msg) \<and> 1 dvd (c - 0)}. glyph_pixels (uint W) df (char_start df (msg ! nat c))
       (uint x + c * 16) (uint y) (uint y + ?fh)) (\<lambda>_. color) fb)"
  proof (rule cfor_wrote_array)
    fix c :: int and zs :: "i32 list"
    assume c: "0 \<le> c" "c < int (length msg)" and zs: "length zs = length fb"
    let ?ch = "msg ! nat c"
    have "?ch \<in> set msg" using c by (intro nth_mem) simp
    then have ch: "32 \<le> sint ?ch" "char_start df ?ch + 2 * ?fh \<le> int (length (font_data df))"
      using font by (auto simp: in_font_def)
    then have p: "0 \<le> char_start df ?ch" by (simp add: char_start_def)
    have xc: "sint (x + word_of_int (c * 16)) = uint x + c * 16"
      using c assms(3) W by (intro sint_column) simp_all
    have "ok (draw_glyph (uint W) df color (char_start df ?ch) (uint x + c * 16) (uint y) (uint y + ?fh) zs)
      (wrote (glyph_pixels (uint W) df (char_start df ?ch) (uint x + c * 16) (uint y) (uint y + ?fh)) (\<lambda>_. color) zs)"
    proof (rule draw_glyph_wrote)
      fix j k :: int
      assume j: "uint y \<le> j" "j < uint y + ?fh" and k: "0 \<le> k" "k < 16"
      have jk: "0 \<le> j" "j < uint H" "0 \<le> uint x + c * 16 + k" "uint x + c * 16 + k + 1 \<le> uint W"
        using j k c assms(3,4) uint_ge_0 [of y] uint_ge_0 [of x] by linarith+
      have "0 \<le> j * uint W + (uint x + c * 16 + k)" using jk by simp
      moreover have "j * uint W + (uint x + c * 16 + k + 1) \<le> uint H * uint W"
        using jk by (intro pixel_bound) auto
      ultimately
      show "0 \<le> j * uint W + (uint x + c * 16) + k \<and> j * uint W + (uint x + c * 16) + k < int (length zs)"
        using zs len by simp
    qed (use font p ch(2) in \<open>simp_all add: in_font_def\<close>)
    then show "ok (do {
       current_char \<leftarrow> rd msg c;
       let font_data_ptr = (sint current_char - 32) * (?fh * (16 div 8));
       let font_x_min = sint (x + word_of_int (c * 16));
       draw_glyph (uint W) df color font_data_ptr font_x_min (uint y) (uint y + ?fh) zs })
      (wrote (glyph_pixels (uint W) df (char_start df ?ch) (uint x + c * 16) (uint y) (uint y + ?fh)) (\<lambda>_. color) zs)"
      using c unfolding Let_def xc by (simp add: ok_bind ok_rd char_start_def)
  qed simp
  moreover have "{c. 0 \<le> c \<and> c < int (length msg) \<and> 1 dvd (c - 0)} = {0..<int (length msg)}" by auto
  moreover have "\<not> uint H < uint y + ?fh" using assms(4) by simp
  ultimately show ?thesis
    unfolding draw_chars_def Let_def s y fw text_pixels_def by simp
qed

lemma text_pixel:
  assumes "0 \<le> px" "px < uint W" and "uint x + 16 * int (length msg) \<le> uint W"
  shows "py * uint W + px \<in> text_pixels W df x y msg \<longleftrightarrow>
    uint x \<le> px \<and> px < uint x + 16 * int (length msg) \<and> uint y \<le> py \<and> py < uint y + uint (font_height df) \<and>
    glyph_bit df (char_start df (msg ! nat ((px - uint x) div 16))) (py - uint y) ((px - uint x) mod 16)"
proof -
  let ?c = "(px - uint x) div 16"
  have split: "px - uint x = 16 * ?c + (px - uint x) mod 16" by simp
  have block: "c = d div 16 \<longleftrightarrow> 16 * c \<le> d \<and> d < 16 * c + 16" for c d :: int by presburger
  have char_range: "0 \<le> d div 16 \<and> d div 16 < n \<longleftrightarrow> 0 \<le> d \<and> d < 16 * n" for d n :: int
    using block [of "d div 16" d] by auto
  have one: "uint x + c * 16 \<le> px \<and> px < uint x + c * 16 + 16 \<longleftrightarrow> c = ?c" for c
    unfolding block by auto
  have rest: "px - (uint x + ?c * 16) = (px - uint x) mod 16" using split by linarith
  have "py * uint W + px \<in> text_pixels W df x y msg \<longleftrightarrow> (\<exists>c\<in>{0..<int (length msg)}.
    uint y \<le> py \<and> py < uint y + uint (font_height df) \<and> (uint x + c * 16 \<le> px \<and> px < uint x + c * 16 + 16) \<and>
    glyph_bit df (char_start df (msg ! nat c)) (py - uint y) (px - (uint x + c * 16)))"
    unfolding text_pixels_def UN_iff
  proof (intro bex_cong refl)
    fix c assume "c \<in> {0..<int (length msg)}"
    then have "0 \<le> uint x + c * 16" "uint x + c * 16 + 16 \<le> uint W" using assms(3) by auto
    from glyph_pixel [OF assms(1,2) this] show "py * uint W + px \<in> glyph_pixels (uint W) df
         (char_start df (msg ! nat c)) (uint x + c * 16) (uint y) (uint y + uint (font_height df)) \<longleftrightarrow>
       uint y \<le> py \<and> py < uint y + uint (font_height df) \<and> (uint x + c * 16 \<le> px \<and> px < uint x + c * 16 + 16) \<and>
       glyph_bit df (char_start df (msg ! nat c)) (py - uint y) (px - (uint x + c * 16))" by blast
  qed
  also have "\<dots> \<longleftrightarrow> ?c \<in> {0..<int (length msg)} \<and> uint y \<le> py \<and> py < uint y + uint (font_height df) \<and>
    glyph_bit df (char_start df (msg ! nat ?c)) (py - uint y) ((px - uint x) mod 16)"
    unfolding one using rest by auto
  also have "?c \<in> {0..<int (length msg)} \<longleftrightarrow> uint x \<le> px \<and> px < uint x + 16 * int (length msg)"
    unfolding atLeastLessThan_iff char_range by auto
  finally show ?thesis by blast
qed

text \<open>
  C24. \<open>fb_draw_string\<close> shows the text: with a font of sixteen columns and a string of characters of the
  font that is fully on the screen, it sets exactly the pixels whose bit is set in the glyph of the
  character at that place, the most significant bit of a byte leftmost, and every other pixel keeps
  its value. The string ends at its first zero.
\<close>
theorem draw_string_exact:
  assumes "dotfont_initilized s" and "screen W H (fb_mem s)" and "msg = takeWhile (\<lambda>c. c \<noteq> 0) msg_str"
    and "in_font (df_info s) msg" and "uint x + 16 * int (length msg) \<le> uint W"
    and "uint y + uint (font_height (df_info s)) \<le> uint H"
  shows "ok (fb_draw_string W H BigFont x y color msg_str s) (\<lambda>t.
    t = s\<lparr>fb_mem := fb_mem t\<rparr> \<and> length (fb_mem t) = length (fb_mem s) \<and>
    (\<forall>px\<in>{0..<uint W}. \<forall>py\<in>{0..<uint H}. fb_mem t ! nat (py * uint W + px) =
      (if uint x \<le> px \<and> px < uint x + 16 * int (length msg) \<and>
          uint y \<le> py \<and> py < uint y + uint (font_height (df_info s)) \<and>
          glyph_bit (df_info s) (char_start (df_info s) (msg ! nat ((px - uint x) div 16)))
            (py - uint y) ((px - uint x) mod 16)
       then color else fb_mem s ! nat (py * uint W + px))))"
proof -
  from draw_chars_wrote [OF assms(2,4-6)] obtain fb where
    fb: "draw_chars W H (df_info s) x y color msg (fb_mem s) = Some fb"
    "wrote (text_pixels W (df_info s) x y msg) (\<lambda>_. color) (fb_mem s) fb" by (rule okE)
  have "fb_draw_string W H BigFont x y color msg_str s = Some (s\<lparr>fb_mem := fb\<rparr>)"
    using assms(1) fb(1) by (simp add: fb_draw_string_def flip: assms(3))
  moreover have "fb ! nat (py * uint W + px) = (if py * uint W + px \<in> text_pixels W (df_info s) x y msg
      then color else fb_mem s ! nat (py * uint W + px))" if "px \<in> {0..<uint W}" "py \<in> {0..<uint H}" for px py
    using that by (intro wrote_pixel [OF fb(2) screen_ok [OF assms(2)]]) auto
  ultimately show ?thesis
    unfolding ok_def using wrote_length [OF fb(2)] text_pixel [OF _ _ assms(5)] by simp
qed

definition example_screen :: "fb_state" where
  "example_screen = \<lparr>cin = [], cout = [], csr = (\<lambda>a. 0), accesses = 0, CFU_start_counts = [], counter_num = 0,
     fb_mem = replicate 16 7, vtg_enable = True, dma_enable = True, dotfont_initilized = True,
     df_info = \<lparr>font_width = 16, font_height = 1, font_length = 2, font_counts = 2, f_basis = basis_table,
       font_data = [0, 0, 0x80, 1]\<rparr>, msg_x = 0, msg_color = 0\<rparr>"

lemma draw_string_exact_witness:
  "ok (fb_draw_string 16 1 [16, 1, 2, 2, 0, 0, 0x80, 1] 0 0 5 [33] example_screen) (\<lambda>t. fb_mem t ! 0 = 5 \<and> fb_mem t ! 1 = 7 \<and> fb_mem t ! 15 = 5)"
proof (rule ok_mono [OF draw_string_exact [where msg = "[33]"]])
  fix t
  assume t: "t = example_screen\<lparr>fb_mem := fb_mem t\<rparr> \<and> length (fb_mem t) = length (fb_mem example_screen) \<and>
    (\<forall>px\<in>{0..<uint (16 :: i32)}. \<forall>py\<in>{0..<uint (1 :: i32)}. fb_mem t ! nat (py * uint (16 :: i32) + px) =
      (if uint (0 :: i32) \<le> px \<and> px < uint (0 :: i32) + 16 * int (length [33 :: i8]) \<and>
          uint (0 :: i32) \<le> py \<and> py < uint (0 :: i32) + uint (font_height (df_info example_screen)) \<and>
          glyph_bit (df_info example_screen) (char_start (df_info example_screen) ([33] ! nat ((px - uint (0 :: i32)) div 16)))
            (py - uint (0 :: i32)) ((px - uint (0 :: i32)) mod 16)
       then 5 else fb_mem example_screen ! nat (py * uint (16 :: i32) + px)))"
  note pixel = t [THEN conjunct2, THEN conjunct2, THEN bspec, THEN bspec, of _ 0]
  show "fb_mem t ! 0 = 5 \<and> fb_mem t ! 1 = 7 \<and> fb_mem t ! 15 = 5"
    using pixel [of 0] pixel [of 1] pixel [of 15]
    by (simp add: glyph_bit_def char_start_def) (simp add: example_screen_def)
qed (simp_all add: example_screen_def screen_def in_font_def char_start_def)

text \<open>\<open>dotfont_init\<close> builds the table from which the glyphs are drawn, and reads the header of the font.\<close>
theorem dotfont_init_table:
  assumes "length (f_basis (df_info s)) = 256" and "4 \<le> length BigFont"
  shows "\<exists>t. dotfont_init BigFont s = Some t \<and> dotfont_initilized t \<and> fb_mem t = fb_mem s \<and>
    font_width (df_info t) = BigFont ! 0 \<and> font_height (df_info t) = BigFont ! 1 \<and>
    font_data (df_info t) = drop 4 BigFont \<and> length (f_basis (df_info t)) = 256 \<and>
    (\<forall>b :: i8. \<forall>k < 8. f_basis (df_info t) ! unat b ! k = (if bit b (7 - k) then CHR ''X'' else CHR ''.''))"
proof -
  have "unat b < 256" for b :: i8 using unsigned_less [of b] by simp
  then have "basis_table ! unat b = font_basis_of b" for b by (simp add: basis_table_def)
  then show ?thesis
    using assms basis_table_built [OF assms(1)]
    by (auto simp: dotfont_init_def rd_def basis_of_bits hd_conv_nth) (simp add: basis_table_def)
qed

lemma dotfont_init_table_witness:
  "\<exists>t :: fb_state. dotfont_init [16, 1, 2, 1, 0x80, 1] (example_screen\<lparr>dotfont_initilized := False\<rparr>) = Some t \<and>
     f_basis (df_info t) ! 0x80 ! 0 = CHR ''X'' \<and> f_basis (df_info t) ! 0x80 ! 1 = CHR ''.''"
proof -
  have "length (f_basis (df_info (example_screen\<lparr>dotfont_initilized := False\<rparr>))) = 256"
    by (simp add: example_screen_def basis_table_def)
  from dotfont_init_table [OF this, of "[16, 1, 2, 1, 0x80, 1]"] obtain t :: fb_state where
    t: "dotfont_init [16, 1, 2, 1, 0x80, 1] (example_screen\<lparr>dotfont_initilized := False\<rparr>) = Some t"
    and bits: "\<forall>b :: i8. \<forall>k < 8. f_basis (df_info t) ! unat b ! k = (if bit b (7 - k) then CHR ''X'' else CHR ''.'')"
    by auto
  have "f_basis (df_info t) ! 0x80 ! 0 = CHR ''X''" "f_basis (df_info t) ! 0x80 ! 1 = CHR ''.''"
    using bits [rule_format, of 0 "0x80"] bits [rule_format, of 1 "0x80"] by simp_all
  with t show ?thesis by blast
qed

text \<open>
  A string that does not fully fit above the lower edge of the screen is not drawn in part: the
  clipped last row is \<open>height - y\<close> and not \<open>height\<close>, so in the lower half of the screen the loop over
  the rows is empty and nothing at all is drawn.
\<close>
theorem low_string_vanishes:
  assumes "dotfont_initilized s" and "uint H < 2 ^ 14" and "uint y < uint H"
    and "uint H < uint y + uint (font_height (df_info s))" and "uint H \<le> 2 * uint y"
  shows "fb_draw_string W H BigFont x y color msg_str s = Some s"
proof -
  have s: "sint H = uint H" "sint y = uint y" using assms(2,3) by (auto intro!: sint_small)
  have none: "draw_glyph w df c p l (uint y) (uint H - uint y) fb = Some fb" for w df c p l fb
    using assms(5) by (simp add: draw_glyph_def cfor_done)
  have "ok (draw_chars W H (df_info s) x y color (takeWhile (\<lambda>c. c \<noteq> 0) msg_str) (fb_mem s)) (\<lambda>fb. fb = fb_mem s)"
    unfolding draw_chars_def Let_def s using assms(4)
    by (auto simp: none ok_simps intro!: ok_cfor [where I = "\<lambda>_ fb. fb = fb_mem s"])
  then show ?thesis using assms(1) by (auto simp: fb_draw_string_def ok_def split: option.splits)
qed

lemma low_string_vanishes_witness:
  "fb_draw_string 16 3 [16, 1, 2, 2, 0, 0, 0x80, 1] 0 2 5 [33] (example_screen\<lparr>df_info := df_info example_screen\<lparr>font_height := 2\<rparr>\<rparr>)
   = Some (example_screen\<lparr>df_info := df_info example_screen\<lparr>font_height := 2\<rparr>\<rparr>)"
  by (rule low_string_vanishes) (simp_all add: example_screen_def)

end
