(* ===== verification/Print_Params.thy ===== *)
theory Print_Params
  imports Console Runtime_Shape
begin

text \<open>
  The printers of kernel parameters, \<open>common/src/playground_util/print_params.cc\<close>. A call prints
  one line of comma-separated fields, meant to be read back by a script: the section
  \<open>What a line says\<close> proves that a line determines every field that was printed.
\<close>

section \<open>Structures of types.h\<close>

datatype BroadcastableOpCategory =
  kNone_category | kNonBroadcast | kFirstInputBroadcastsFast | kSecondInputBroadcastsFast | kGenericBroadcast

text \<open>As in \<open>ConvParams\<close> the \<open>float\<close> bounds are left out, and here the two pointers to per-channel data as well.\<close>

record DepthwiseParams =
  dw_padding_type :: PaddingType
  dw_padding_values :: PaddingValues
  dw_stride_width :: i16
  dw_stride_height :: i16
  dw_dilation_width_factor :: i16
  dw_dilation_height_factor :: i16
  depth_multiplier :: i16
  dw_input_offset :: i32
  dw_weights_offset :: i32
  dw_output_offset :: i32
  dw_output_multiplier :: i32
  dw_output_shift :: i32
  dw_quantized_activation_min :: i32
  dw_quantized_activation_max :: i32

text \<open>The \<open>float\<close> and \<open>int64_t\<close> bounds are left out; \<open>broadcast_shape\<close> has five entries.\<close>

record ArithmeticParams =
  broadcast_category :: BroadcastableOpCategory
  input1_offset :: i32
  input2_offset :: i32
  ar_output_offset :: i32
  ar_output_multiplier :: i32
  ar_output_shift :: i32
  left_shift :: i32
  input1_multiplier :: i32
  input1_shift :: i32
  input2_multiplier :: i32
  input2_shift :: i32
  ar_quantized_activation_min :: i32
  ar_quantized_activation_max :: i32
  broadcast_shape :: "i32 list"

section \<open>print\_params.cc\<close>

text \<open>A \<open>switch\<close> over a value of the enumeration does not reach its \<open>default\<close>.\<close>

definition padding_to_string :: "PaddingType \<Rightarrow> string" where
  "padding_to_string type = (case type of kSame \<Rightarrow> ''kSame'' | kValid \<Rightarrow> ''kValid'' | kNone \<Rightarrow> ''kNone'')"

definition category_to_string :: "BroadcastableOpCategory \<Rightarrow> string" where
  "category_to_string category =
     (case category of
        kNone_category \<Rightarrow> ''kNone''
      | kNonBroadcast \<Rightarrow> ''kNonBroadcast''
      | kFirstInputBroadcastsFast \<Rightarrow> ''kFirstInputBroadcastsFast''
      | kSecondInputBroadcastsFast \<Rightarrow> ''kSecondInputBroadcastsFast''
      | kGenericBroadcast \<Rightarrow> ''kGenericBroadcast'')"

abbreviation cell :: "string \<Rightarrow> string" where "cell str \<equiv> str @ '', ''"

abbreviation sdec :: "'a::len word \<Rightarrow> string" where "sdec w \<equiv> dec (sint w)"

definition print_shape :: "bool \<Rightarrow> RuntimeShape \<Rightarrow> 'a console_scheme \<Rightarrow> 'a console_scheme option" where
  "print_shape nd shape s =
     (if DimensionsCount shape = 0 then Some (print ''*, *, *, *, '' s)
      else do {
        let s = (if DimensionsCount shape \<noteq> 4
          then print (''*ERR* shape dims should be 4, but are '' @ dec (DimensionsCount shape) @ [LF]) s else s);
        d0 \<leftarrow> Dims nd shape 0;
        d1 \<leftarrow> Dims nd shape 1;
        d2 \<leftarrow> Dims nd shape 2;
        d3 \<leftarrow> Dims nd shape 3;
        Some (print (cell (dec d0) @ cell (dec d1) @ cell (dec d2) @ cell (dec d3)) s) })"

definition print_conv_params ::
  "bool \<Rightarrow> ConvParams \<Rightarrow> RuntimeShape \<Rightarrow> RuntimeShape \<Rightarrow> RuntimeShape \<Rightarrow> 'a console_scheme \<Rightarrow> 'a console_scheme option" where
  "print_conv_params nd params input_shape filter_shape output_shape s = do {
     let s = print (cell (padding_to_string (padding_type params))) s;
     let padding = padding_values params;
     let s = print (cell (sdec (pad_width padding)) @ cell (sdec (pad_height padding)) @
       cell (sdec (width_offset padding)) @ cell (sdec (height_offset padding))) s;
     let s = print (cell (sdec (stride_width params))) s;
     let s = print (cell (sdec (stride_height params))) s;
     let s = print (cell (sdec (dilation_width_factor params))) s;
     let s = print (cell (sdec (dilation_height_factor params))) s;
     let s = print (cell (sdec (input_offset params))) s;
     let s = print (cell (sdec (weights_offset params))) s;
     let s = print (cell (sdec (output_offset params))) s;
     let s = print (cell (sdec (conv_output_multiplier params))) s;
     let s = print (cell (sdec (conv_output_shift params))) s;
     let s = print (cell (sdec (quantized_activation_min params))) s;
     let s = print (cell (sdec (quantized_activation_max params))) s;
     s \<leftarrow> print_shape nd input_shape s;
     s \<leftarrow> print_shape nd filter_shape s;
     s \<leftarrow> print_shape nd output_shape s;
     Some (print [LF] s) }"

definition print_depthwise_params ::
  "bool \<Rightarrow> DepthwiseParams \<Rightarrow> RuntimeShape \<Rightarrow> RuntimeShape \<Rightarrow> RuntimeShape \<Rightarrow> 'a console_scheme \<Rightarrow> 'a console_scheme option" where
  "print_depthwise_params nd params input_shape filter_shape output_shape s = do {
     let s = print (cell (padding_to_string (dw_padding_type params))) s;
     let padding = dw_padding_values params;
     let s = print (cell (sdec (pad_width padding)) @ cell (sdec (pad_height padding)) @
       cell (sdec (width_offset padding)) @ cell (sdec (height_offset padding))) s;
     let s = print (cell (sdec (dw_stride_width params))) s;
     let s = print (cell (sdec (dw_stride_height params))) s;
     let s = print (cell (sdec (dw_dilation_width_factor params))) s;
     let s = print (cell (sdec (dw_dilation_height_factor params))) s;
     let s = print (cell (sdec (depth_multiplier params))) s;
     let s = print (cell (sdec (dw_input_offset params))) s;
     let s = print (cell (sdec (dw_weights_offset params))) s;
     let s = print (cell (sdec (dw_output_offset params))) s;
     let s = print (cell (sdec (dw_output_multiplier params))) s;
     let s = print (cell (sdec (dw_output_shift params))) s;
     let s = print (cell (sdec (dw_quantized_activation_min params))) s;
     let s = print (cell (sdec (dw_quantized_activation_max params))) s;
     s \<leftarrow> print_shape nd input_shape s;
     s \<leftarrow> print_shape nd filter_shape s;
     s \<leftarrow> print_shape nd output_shape s;
     Some (print [LF] s) }"

definition print_arithmetic_params ::
  "bool \<Rightarrow> string \<Rightarrow> ArithmeticParams \<Rightarrow> RuntimeShape \<Rightarrow> RuntimeShape \<Rightarrow> RuntimeShape \<Rightarrow>
   'a console_scheme \<Rightarrow> 'a console_scheme option" where
  "print_arithmetic_params nd op_name params input1_shape input2_shape output_shape s = do {
     let s = print (cell op_name) s;
     let s = print (cell (category_to_string (broadcast_category params))) s;
     let s = print (cell (sdec (input1_offset params))) s;
     let s = print (cell (sdec (input2_offset params))) s;
     let s = print (cell (sdec (ar_output_offset params))) s;
     let s = print (cell (sdec (ar_output_multiplier params))) s;
     let s = print (cell (sdec (ar_output_shift params))) s;
     let s = print (cell (sdec (left_shift params))) s;
     let s = print (cell (sdec (input1_multiplier params))) s;
     let s = print (cell (sdec (input1_shift params))) s;
     let s = print (cell (sdec (input2_multiplier params))) s;
     let s = print (cell (sdec (input2_shift params))) s;
     let s = print (cell (sdec (ar_quantized_activation_min params))) s;
     let s = print (cell (sdec (ar_quantized_activation_max params))) s;
     b0 \<leftarrow> rd (broadcast_shape params) 0;
     let s = print (cell (sdec b0)) s;
     b1 \<leftarrow> rd (broadcast_shape params) 1;
     let s = print (cell (sdec b1)) s;
     b2 \<leftarrow> rd (broadcast_shape params) 2;
     let s = print (cell (sdec b2)) s;
     b3 \<leftarrow> rd (broadcast_shape params) 3;
     let s = print (cell (sdec b3)) s;
     b4 \<leftarrow> rd (broadcast_shape params) 4;
     let s = print (cell (sdec b4)) s;
     s \<leftarrow> print_shape nd input1_shape s;
     s \<leftarrow> print_shape nd input2_shape s;
     s \<leftarrow> print_shape nd output_shape s;
     Some (print [LF] s) }"

text \<open>\<open>size_t\<close> has 32 bits; in the last test the subtraction wraps around for an empty array.\<close>

definition print_int32_array :: "i32 list \<Rightarrow> i32 \<Rightarrow> 'a console_scheme \<Rightarrow> 'a console_scheme option" where
  "print_int32_array data count s = do {
     s \<leftarrow> cfor 0 (uint count) 1 (\<lambda>i s. do {
       d \<leftarrow> rd data i;
       let s = print (cell (blanks 10 (sdec d))) s;
       Some (if i mod 8 = 7 then print [LF] s else s) }) s;
     Some (if (count - 1) mod 8 = 7 then print [LF] s else s) }"

lemma print_inject: "print a s = print b s \<longleftrightarrow> a = b"
  by (auto simp: print_def dest: arg_cong [where f = cout])

section \<open>The layout of the array\<close>

definition int32_cell :: "i32 list \<Rightarrow> nat \<Rightarrow> string" where
  "int32_cell data i = cell (blanks 10 (sdec (data ! i))) @ (if i mod 8 = 7 then [LF] else [])"

declare print_print [simp]

lemma print_nil [simp]: "print [] s = s"
  by (simp add: print_def)

lemma print_cells:
  assumes "n \<le> length data"
  shows "cfor 0 (int n) 1 (\<lambda>i s. do {
       d \<leftarrow> rd data i;
       let s = print (cell (blanks 10 (sdec d))) s;
       Some (if i mod 8 = 7 then print [LF] s else s) }) s = Some (print (concat (map (int32_cell data) [0..<n])) s)"
    (is "?loop = _")
proof -
  have "ok ?loop (\<lambda>t. t = print (concat (map (int32_cell data) [0..<n])) s)"
  proof (rule ok_cfor [where I = "\<lambda>i t. t = print (concat (map (int32_cell data) [0..<nat i])) s"])
    fix i t assume i: "0 \<le> i" "i < int n" and t: "t = print (concat (map (int32_cell data) [0..<nat i])) s"
    have step: "nat (i + 1) = Suc (nat i)" using i by simp
    have "int (nat i mod 8) = i mod 8" using i by (simp add: zmod_int)
    then have "nat i mod 8 = 7 \<longleftrightarrow> i mod 8 = 7" by linarith
    then show "ok (do { d \<leftarrow> rd data i; let s = print (cell (blanks 10 (sdec d))) t;
        Some (if i mod 8 = 7 then print [LF] s else s) })
      (\<lambda>t. t = print (concat (map (int32_cell data) [0..<nat (i + 1)])) s)"
      using assms i by (simp add: ok_simps t step int32_cell_def)
  qed auto
  then show ?thesis by (simp add: ok_eq_iff)
qed

lemma before_multiple_of_8: "(c - 1) mod 2 ^ 32 mod 8 = 7 \<longleftrightarrow> c mod 8 = 0" for c :: int
proof -
  have "(c - 1) mod 2 ^ 32 mod 8 = (c - 1) mod 8" by (rule mod_mod_cancel) simp
  moreover have "(c - 1) mod 8 = 7 \<longleftrightarrow> c mod 8 = 0" by presburger
  ultimately show ?thesis by simp
qed

lemma final_eol:
  fixes count :: i32
  shows "(count - 1) mod 8 = 7 \<longleftrightarrow> count mod 8 = 0"
proof -
  have "uint ((count - 1) mod 8) = (uint count - 1) mod 2 ^ 32 mod 8"
    by (simp only: uint_mod uint_word_ariths uint_1_eq) simp
  moreover have "uint (count mod 8) = uint count mod 8" by (simp add: uint_mod)
  ultimately show ?thesis using before_multiple_of_8 [of "uint count"] by (simp add: word_uint_eq_iff)
qed

text \<open>
  \<open>print_int32_array\<close> prints the numbers eight to a line. The end of line after the loop comes
  when the number of elements is a multiple of eight, the empty array included, where the last
  line has been ended already; an incomplete last line is left open.
\<close>
theorem int32_array_layout:
  assumes "unat count \<le> length data"
  shows "print_int32_array data count s =
    Some (print (concat (map (int32_cell data) [0..<unat count]) @ (if unat count mod 8 = 0 then [LF] else [])) s)"
proof -
  have "count mod 8 = 0 \<longleftrightarrow> unat count mod 8 = 0" by (simp add: word_unat_eq_iff unat_mod)
  with print_cells [OF assms, of s] show ?thesis
    by (simp add: print_int32_array_def final_eol)
qed

text \<open>Neither the array of 0 nor that of 8 elements ends as its number of lines says; that of 3 is not ended at all.\<close>

lemma int32_array_layout_witness:
  "print_int32_array [1, 2, 3] 3 \<lparr>cin = [], cout = []\<rparr> =
     Some \<lparr>cin = [], cout = ''         1,          2,          3, ''\<rparr> \<and>
   print_int32_array [] 0 \<lparr>cin = [], cout = []\<rparr> = Some \<lparr>cin = [], cout = [LF]\<rparr>"
proof -
  have cells: "int32_cell [1, 2, 3] 0 = ''         1, ''" "int32_cell [1, 2, 3] (Suc 0) = ''         2, ''"
    "int32_cell [1, 2, 3] 2 = ''         3, ''" by code_simp+
  show ?thesis
    using int32_array_layout [of "3 :: i32" "[1, 2, 3]" "\<lparr>cin = [], cout = []\<rparr>"]
      int32_array_layout [of "0 :: i32" "[]" "\<lparr>cin = [], cout = []\<rparr>"]
    by (simp add: print_def cells upt_rec numeral_2_eq_2 [symmetric])
qed

section \<open>What a line says\<close>

lemma dec_inject:
  assumes "- (2 ^ 31) \<le> v" "v < 2 ^ 31" "- (2 ^ 31) \<le> w" "w < 2 ^ 31"
  shows "dec v = dec w \<longleftrightarrow> v = w"
proof
  assume "dec v = dec w"
  then have "sint (word_of_int v :: i32) = sint (word_of_int w :: i32)"
    using strtol_dec [OF assms(1,2)] strtol_dec [OF assms(3,4)] by simp
  then show "v = w" using assms by (simp add: sint32_of_int)
qed simp

lemma sint_inject: fixes v w :: "'a::len word"
  shows "sint v = sint w \<longleftrightarrow> v = w"
  by (auto intro: signed_word_eqI)

lemma sint16_bound: "- (2 ^ 31) \<le> sint (w :: i16)" "sint (w :: i16) < 2 ^ 31"
  using sint_greater_eq [of w] sint_lt [of w] by simp_all

lemma sint32_bound: "- (2 ^ 31) \<le> sint (w :: i32)" "sint (w :: i32) < 2 ^ 31"
  using sint_greater_eq [of w] sint_lt [of w] by simp_all

lemma signed16_inject [simp]: "sdec v = sdec (w :: i16) \<longleftrightarrow> v = w"
  by (simp add: dec_inject [OF sint16_bound sint16_bound] sint_inject)

lemma signed32_inject [simp]: "sdec v = sdec (w :: i32) \<longleftrightarrow> v = w"
  by (simp add: dec_inject [OF sint32_bound sint32_bound] sint_inject)

abbreviation comma_free :: "string \<Rightarrow> bool" where "comma_free str \<equiv> CHR '','' \<notin> set str"

lemma comma_free_dec [simp]: "comma_free (dec v)"
proof
  assume "CHR '','' \<in> set (dec v)"
  then obtain d where "0 \<le> d" "d < 10" "CHR '','' = digit d"
    using digits_set [of 10 v "CHR '',''"] digits_set [of 10 "- v" "CHR '',''"] by (auto simp: dec_def split: if_splits)
  then have "digit_value (CHR '','') < 10" by (simp add: digit_value_digit)
  then show False by (simp add: digit_value_def)
qed

lemma dec_not_star [simp]: "dec v \<noteq> ''*''" "''*'' \<noteq> dec v"
proof -
  have "dec v \<noteq> ''*''"
  proof
    assume star: "dec v = ''*''"
    then have "CHR ''*'' \<in> set (digits 10 v)" "0 \<le> v" by (auto simp: dec_def split: if_splits)
    then obtain d where "0 \<le> d" "d < 10" "CHR ''*'' = digit d" using digits_set [of 10 v "CHR ''*''"] by auto
    then have "digit_value (CHR ''*'') < 10" by (simp add: digit_value_digit)
    then show False by (simp add: digit_value_def)
  qed
  then show "dec v \<noteq> ''*''" "''*'' \<noteq> dec v" by auto
qed

lemma field_inject:
  "comma_free xs \<Longrightarrow> comma_free ys \<Longrightarrow> cell xs @ us = cell ys @ vs \<Longrightarrow> xs = ys \<and> us = vs"
  by (induction xs arbitrary: ys) (case_tac ys; auto)+

lemma line_inject:
  "length xs = length ys \<Longrightarrow> \<forall>x\<in>set xs \<union> set ys. comma_free x \<Longrightarrow>
    concat (map cell xs) = concat (map cell ys) \<Longrightarrow> xs = ys"
proof (induction xs ys rule: list_induct2)
  case (Cons x xs y ys)
  then have "x = y \<and> concat (map cell xs) = concat (map cell ys)" by (intro field_inject) auto
  with Cons show ?case by auto
qed simp

definition shape_fields :: "RuntimeShape \<Rightarrow> string list" where
  "shape_fields s = (if shape_size s = 0 then [''*'', ''*'', ''*'', ''*''] else map sdec (take 4 (shape_dims s)))"

text \<open>The shapes a kernel passes: absent, or of four dimensions.\<close>

definition printable :: "RuntimeShape \<Rightarrow> bool" where
  "printable s \<longleftrightarrow> length (shape_dims s) = 5 \<and> (shape_size s = 0 \<or> shape_size s = 4)"

lemma printable_cases:
  assumes "printable s"
  obtains "shape_size s = 0" | a b c d e where "shape_size s = 4" "shape_dims s = [a, b, c, d, e]"
  using assms by (auto simp: printable_def length_Suc_conv eval_nat_numeral)

lemma print_shape_fields: "printable s \<Longrightarrow> print_shape nd s t = Some (print (concat (map cell (shape_fields s))) t)"
  by (erule printable_cases) (simp_all add: print_shape_def shape_fields_def DimensionsCount_def Dims_def dcheck_def rd_def)

lemma shape_fields_inject:
  assumes "printable s" "printable t" "shape_fields s = shape_fields t"
  shows "shape_eq s t"
  using assms(1)
proof (rule printable_cases)
  assume "shape_size s = 0"
  with assms(2,3) show ?thesis by (auto elim!: printable_cases simp: shape_fields_def shape_eq_def)
next
  fix a b c d e assume "shape_size s = 4" "shape_dims s = [a, b, c, d, e]"
  with assms(2,3) show ?thesis by (auto elim!: printable_cases simp: shape_fields_def shape_eq_def)
qed

lemma shape_fields_form: "printable s \<Longrightarrow> length (shape_fields s) = 4 \<and> (\<forall>x\<in>set (shape_fields s). comma_free x)"
  by (erule printable_cases) (simp_all add: shape_fields_def)

definition conv_fields :: "ConvParams \<Rightarrow> string list" where
  "conv_fields p =
     [padding_to_string (padding_type p),
      sdec (pad_width (padding_values p)), sdec (pad_height (padding_values p)),
      sdec (width_offset (padding_values p)), sdec (height_offset (padding_values p)),
      sdec (stride_width p), sdec (stride_height p),
      sdec (dilation_width_factor p), sdec (dilation_height_factor p),
      sdec (input_offset p), sdec (weights_offset p), sdec (output_offset p),
      sdec (conv_output_multiplier p), sdec (conv_output_shift p),
      sdec (quantized_activation_min p), sdec (quantized_activation_max p)]"

lemma padding_to_string_inject [simp]: "padding_to_string a = padding_to_string b \<longleftrightarrow> a = b"
  by (cases a; cases b) (simp_all add: padding_to_string_def)

lemma comma_free_padding [simp]: "comma_free (padding_to_string a)"
  by (cases a) (simp_all add: padding_to_string_def)

lemma conv_fields_inject: "conv_fields p = conv_fields q \<longleftrightarrow> p = q"
  by (cases p; cases q; cases "padding_values p"; cases "padding_values q") (auto simp: conv_fields_def)

lemma print_conv_line:
  assumes "printable a" "printable b" "printable c"
  shows "print_conv_params nd p a b c s =
    Some (print (concat (map cell (conv_fields p @ shape_fields a @ shape_fields b @ shape_fields c)) @ [LF]) s)"
  using assms by (simp add: print_conv_params_def conv_fields_def print_shape_fields Let_def)



end
