(* ===== verification/Menu_Steps.thy ===== *)
theory Menu_Steps
  imports Menu
begin

text \<open>
  The loop of \<open>menu_run\<close> as a step relation between the states in which the menu is about to be
  shown. \<open>menu_run\<close> says what a menu returns; the relation also says what it does when it never
  returns, as the menu of the main program.
\<close>

section \<open>One round\<close>

text \<open>One pass through the body of the loop: \<open>Inl\<close> goes on with the next, \<open>Inr\<close> returns.\<close>

definition menu_round :: "'a console_scheme Menu \<Rightarrow> 'a console_scheme \<Rightarrow> ('a console_scheme + 'a console_scheme) option" where
  "menu_round menu s = do {
     s \<leftarrow> menu_print menu s;
     (item, s) \<leftarrow> menu_get_selection menu s;
     (case item of
        None \<Rightarrow> Some (Inl s)
      | Some p \<Rightarrow>
          if exit p then Some (Inr s)
          else do {
            let s = print ([LF] @ ''Running '' @ description p @ [LF]) s;
            f \<leftarrow> fn p;
            s \<leftarrow> f s;
            Some (Inl (puts ''---'' s)) }) }"

lemma menu_run_rounds:
  "menu_run m s = do { r \<leftarrow> menu_round m s; (case r of Inl s \<Rightarrow> menu_run m s | Inr t \<Rightarrow> Some t) }"
  by (subst menu_run.simps) (simp add: menu_round_def Option.bind_assoc Let_def split_def
    split: bind_splits option.split cong: option.case_cong)

inductive menu_prompt :: "'a console_scheme Menu \<Rightarrow> 'a console_scheme \<Rightarrow> 'a console_scheme \<Rightarrow> bool" for m where
  prompt_start: "menu_prompt m s s"
| prompt_again: "menu_prompt m s t \<Longrightarrow> menu_round m t = Some (Inl u) \<Longrightarrow> menu_prompt m s u"

inductive_cases menu_promptE: "menu_prompt m s t"

lemma menu_run_from_prompt: "menu_prompt m s t \<Longrightarrow> menu_run m s = menu_run m t"
  by (induction rule: menu_prompt.induct) (simp_all add: menu_run_rounds)

lemma prompt_trans: "menu_prompt m t u \<Longrightarrow> menu_prompt m s t \<Longrightarrow> menu_prompt m s u"
  by (induction rule: menu_prompt.induct) (auto intro: menu_prompt.intros)

lemma prompt_first: "menu_round m s = Some (Inl t) \<Longrightarrow> menu_prompt m t u \<Longrightarrow> menu_prompt m s u"
  by (rule prompt_trans) (auto intro: menu_prompt.intros)

lemma menu_run_exit_round:
  fixes m :: "'a console_scheme Menu"
  assumes "menu_run m s = Some t"
  shows "\<exists>u. menu_prompt m s u \<and> menu_round m u = Some (Inr t)"
proof (rule menu_run.raw_induct [where P = "\<lambda>m s t. \<exists>u. menu_prompt m s u \<and> menu_round m u = Some (Inr t)", OF _ assms])
  fix run :: "'a console_scheme Menu \<Rightarrow> 'a console_scheme \<Rightarrow> 'a console_scheme option" and m s t
  assume IH: "\<And>m s t. run m s = Some t \<Longrightarrow> \<exists>u. menu_prompt m s u \<and> menu_round m u = Some (Inr t)"
    and body: "do {
     s \<leftarrow> menu_print m s;
     (item, s) \<leftarrow> menu_get_selection m s;
     (case item of
        None \<Rightarrow> run m s
      | Some p \<Rightarrow>
          if exit p then Some s
          else do {
            let s = print ([LF] @ ''Running '' @ description p @ [LF]) s;
            f \<leftarrow> fn p;
            s \<leftarrow> f s;
            run m (puts ''---'' s) }) } = Some t"
  from body have "(\<exists>u. menu_round m s = Some (Inl u) \<and> run m u = Some t) \<or> menu_round m s = Some (Inr t)"
    by (auto simp: menu_round_def Let_def split: bind_splits option.splits if_splits)
  then show "\<exists>u. menu_prompt m s u \<and> menu_round m u = Some (Inr t)"
    using IH by (blast intro: prompt_first menu_prompt.intros)
qed


lemma round_exit_item: "menu_round m s = Some (Inr t) \<Longrightarrow> \<exists>p\<in>set (items m). exit p"
  by (auto simp: menu_round_def menu_get_selection_def Let_def split: bind_splits option.splits if_splits dest!: find_item_in)

lemma no_exit_no_return: "\<forall>p\<in>set (items m). \<not> exit p \<Longrightarrow> menu_run m s = None"
  by (cases "menu_run m s") (auto dest!: menu_run_exit_round round_exit_item)

text \<open>What a key does at the prompt of a menu that can be shown.\<close>

lemma menu_round_key:
  fixes s :: "'a console_scheme"
  assumes "wf_menu m" and "cin s = c # cs" and "c \<noteq> LF" "c \<noteq> CR"
    and item: "find_item c (items m) = Some (Some p)" "\<not> exit p" "fn p = Some f"
  shows "\<exists>out. menu_round m s = map_option (\<lambda>t. Inl (puts ''---'' t))
    (f (s\<lparr>cin := cs, cout := cout s @ out @ [c, LF, LF] @ ''Running '' @ description p @ [LF]\<rparr>))"
proof -
  obtain out where "menu_print m s = Some (s\<lparr>cout := cout s @ out\<rparr>)"
    using menu_print_total [OF assms(1)] by blast
  with assms(2-) show ?thesis
    by (intro exI [of _ out]) (auto simp: menu_round_def menu_get_selection_def print_def split: option.splits bind_splits)
qed

section \<open>Invariants\<close>

lemma print_items_frame: "print_items ps s = Some t \<Longrightarrow> \<exists>u. t = s\<lparr>cout := u\<rparr>"
proof (induction ps arbitrary: s)
  case (Cons p ps)
  show ?case
  proof (cases "selection p = CHR 0x00")
    case False
    then obtain u where "t = (print ('' '' @ [selection p] @ '': '' @ description p @ [LF]) s)\<lparr>cout := u\<rparr>"
      using Cons by force
    then show ?thesis by (auto simp: print_def)
  qed (use Cons.prems in \<open>auto intro: exI [of _ "cout s"]\<close>)
qed simp

lemma menu_print_frame:
  assumes "menu_print m s = Some t"
  shows "\<exists>u. t = s\<lparr>cout := u\<rparr>"
proof -
  obtain r where r: "print_items (items m) (print ([LF] @ title m @ [LF] @ replicate (length (title m)) (CHR ''='') @ [LF]) s) = Some r"
    "t = print (prompt m @ ''> '') r"
    using assms by (auto simp: menu_print_def Let_def split: if_splits bind_splits)
  from print_items_frame [OF r(1)] obtain u where
    "r = (print ([LF] @ title m @ [LF] @ replicate (length (title m)) (CHR ''='') @ [LF]) s)\<lparr>cout := u\<rparr>" by blast
  then have "t = s\<lparr>cout := u @ prompt m @ ''> ''\<rparr>" by (simp add: r(2) print_def)
  then show ?thesis by blast
qed

lemma menu_get_selection_frame:
  "menu_get_selection m s = Some (item, t) \<Longrightarrow> t = s\<lparr>cin := cin t, cout := cout t\<rparr>"
  "menu_get_selection m s = Some (Some p, t) \<Longrightarrow> p \<in> set (items m)"
  by (auto simp: menu_get_selection_def Let_def print_def split: bind_splits option.splits dest: find_item_in)

text \<open>What does not depend on the console and is kept by the items holds at every prompt.\<close>

lemma menu_prompt_invariant:
  fixes m :: "'a console_scheme Menu" and I :: "'a console_scheme \<Rightarrow> bool"
  assumes "menu_prompt m s t" and "I s"
    and console: "\<And>s i u. I (s\<lparr>cin := i, cout := u\<rparr>) \<longleftrightarrow> I s"
    and item: "\<And>p f s t. p \<in> set (items m) \<Longrightarrow> fn p = Some f \<Longrightarrow> I s \<Longrightarrow> f s = Some t \<Longrightarrow> I t"
  shows "I t"
  using assms(1,2)
proof (induction rule: menu_prompt.induct)
  case (prompt_again s t u)
  have out: "I (s\<lparr>cout := v\<rparr>) \<longleftrightarrow> I s" for s v using console [of v "cin s" s] by simp
  have print: "I (print str s) \<longleftrightarrow> I s" for str :: string and s by (simp add: print_def out)
  have puts: "I (puts str s) \<longleftrightarrow> I s" for str :: string and s by (simp add: puts_def print)
  obtain s1 item s2 where s1: "menu_print m t = Some s1" and s2: "menu_get_selection m s1 = Some (item, s2)"
    and rest: "(case item of
        None \<Rightarrow> Some (Inl s2)
      | Some p \<Rightarrow>
          if exit p then Some (Inr s2)
          else do {
            let s = print ([LF] @ ''Running '' @ description p @ [LF]) s2;
            f \<leftarrow> fn p;
            s \<leftarrow> f s;
            Some (Inl (puts ''---'' s)) }) = Some (Inl u)"
    using prompt_again.hyps(2) by (auto simp: menu_round_def split: bind_splits)
  have "I s1" using prompt_again menu_print_frame [OF s1] by (auto simp: out)
  then have "I s2" using menu_get_selection_frame(1) [OF s2] console by metis
  show ?case
  proof (cases item)
    case (Some p)
    then obtain f v where f: "fn p = Some f" "f (print ([LF] @ ''Running '' @ description p @ [LF]) s2) = Some v" "u = puts ''---'' v"
      using rest by (auto simp: Let_def split: if_splits bind_splits)
    have "I v" using item [OF menu_get_selection_frame(2) f(1) _ f(2)] s2 Some \<open>I s2\<close> by (simp add: print)
    then show ?thesis by (simp add: f(3) puts)
  qed (use rest \<open>I s2\<close> in simp)
qed

end
