(* ===== verification/Util.thy ===== *)
theory Util
  imports Console Bytes
begin

text \<open>
  The routines of \<open>common/src/playground_util\<close>: the hash, the pseudo-random numbers and the dumps
  of memory. Data in memory are lists of bytes; a word is read from four of them, lowest first.
\<close>

section \<open>murmurhash.cc\<close>

abbreviation c1 :: i32 where "c1 \<equiv> 0xcc9e2d51"
abbreviation c2 :: i32 where "c2 \<equiv> 0x1b873593"

definition rol :: "nat \<Rightarrow> i32 \<Rightarrow> i32" where
  "rol r x = push_bit r x OR drop_bit (32 - r) x"

text \<open>The scrambling of a chunk and one round of the loop.\<close>

definition scramble :: "i32 \<Rightarrow> i32" where
  "scramble k = (let k = k * c1; k = rol 15 k in k * c2)"

definition hash_round :: "i32 \<Rightarrow> i32 \<Rightarrow> i32" where
  "hash_round hash k = (let hash = hash XOR scramble k; hash = rol 13 hash in hash * 5 + 0xe6546b64)"

definition avalanche :: "i32 \<Rightarrow> i32" where
  "avalanche hash = (
     let hash = hash XOR drop_bit 16 hash;
         hash = hash * 0x85ebca6b;
         hash = hash XOR drop_bit 13 hash;
         hash = hash * 0xc2b2ae35
     in hash XOR drop_bit 16 hash)"

text \<open>The promotion of a byte is to \<open>int\<close>; a shift of at most 16 leaves it positive.\<close>

definition murmurhash3_32 :: "i8 list \<Rightarrow> i32 \<Rightarrow> i32 option" where
  "murmurhash3_32 data len = do {
     let n = uint len;
     hash \<leftarrow> cfor 0 (n div 4) 1 (\<lambda>i hash. do {
       k \<leftarrow> load32 data (4 * i);
       Some (hash_round hash k) }) 0;
     remaining \<leftarrow> cfor 0 (n mod 4) 1 (\<lambda>i remaining. do {
       b \<leftarrow> rd data (n div 4 * 4 + i);
       Some (remaining + push_bit (8 * nat i) (ucast b)) }) 0;
     let hash = hash XOR scramble remaining;
     let hash = hash XOR len;
     Some (avalanche hash) }"

section \<open>random.c\<close>

text \<open>The shift of the negative \<open>int64_t\<close> is arithmetic; the result is its low 32 bits.\<close>

definition next_pseudo_random :: "i64 \<Rightarrow> i32 \<times> i64" where
  "next_pseudo_random r = (
     let r = r * 6364136223846793005 + 1442695040888963407
     in (word_of_int (sint r div 2 ^ 28), r))"

section \<open>dump.cc\<close>

text \<open>\<open>pause\<close> only waits.\<close>

definition dump_hex :: "i8 list \<Rightarrow> int \<Rightarrow> 'a console_scheme \<Rightarrow> 'a console_scheme option" where
  "dump_hex data len =
     cfor 0 len 1 (\<lambda>i s. do {
       let s = print (if i mod 16 = 0 then ''  '' else '' '') s;
       b \<leftarrow> rd data i;
       let s = print (''0x'' @ zeros 2 (hex (uint b)) @ '','') s;
       Some (if i mod 16 = 15 \<or> i = len - 1 then print [LF] s else s) })"

definition dump_hex_words :: "i32 list \<Rightarrow> int \<Rightarrow> 'a console_scheme \<Rightarrow> 'a console_scheme option" where
  "dump_hex_words data len =
     cfor 0 len 1 (\<lambda>i s. do {
       let s = print (if i mod 4 = 0 then ''  '' else '' '') s;
       w \<leftarrow> rd data i;
       let s = print (''0x'' @ zeros 8 (hex (uint w)) @ '','') s;
       Some (if i mod 4 = 3 \<or> i = len - 1 then print [LF] s else s) })"

definition dump_c_array :: "string \<Rightarrow> i8 list \<Rightarrow> int \<Rightarrow> 'a console_scheme \<Rightarrow> 'a console_scheme option" where
  "dump_c_array name data len s = do {
     let s = print (''const uint8_t '' @ name @ ''[] = {'') s;
     s \<leftarrow> cfor 0 len 1 (\<lambda>i s. do {
       let s = (if i mod 16 = 0 then print ([LF] @ ''  '') s else s);
       b \<leftarrow> rd data i;
       Some (print (''0x'' @ zeros 2 (hex (uint b)) @ '','') s) }) s;
     Some (print ([LF] @ ''};'' @ [LF]) s) }"


section \<open>The tests of the hash\<close>

text \<open>\<open>util_tests.cc\<close>: the table ends at the entry whose length is -1.\<close>

record MurmurTestCase =
  expected :: i32
  case_data :: "i8 list"
  case_len :: i32

definition murmur_case :: "i32 \<Rightarrow> i8 list \<Rightarrow> i32 \<Rightarrow> MurmurTestCase" where
  "murmur_case e data len =
     \<lparr>expected = e, case_data = data @ replicate (20 - length data) 0, case_len = len\<rparr>"

definition MurmurTestCase_check :: "MurmurTestCase \<Rightarrow> 'a console_scheme \<Rightarrow> (bool \<times> 'a console_scheme) option" where
  "MurmurTestCase_check t s = do {
     hash \<leftarrow> murmurhash3_32 (case_data t) (case_len t);
     let passed = (hash = expected t);
     Some (passed, print (''murmurhash3_32(data, '' @ dec (sint (case_len t)) @ '') expected '' @
       zeros 8 (hex (uint (expected t))) @ '', got '' @ zeros 8 (hex (uint hash)) @ '' '' @
       (if passed then ''OK'' else ''FAIL'') @ [LF]) s) }"

definition murmur_cases :: "MurmurTestCase list" where
  "murmur_cases = [
        murmur_case 0 [] 0,
        murmur_case 0x63c05906 [0x44] 1,
        murmur_case 0x68880912 [0x20, 0x82] 2,
        murmur_case 0x84077cd7 [0x3c, 0xfd, 0xe6] 3,
        murmur_case 0x5ee237f9 [0xf1, 0xc2, 0x6b, 0x30] 4,
        murmur_case 0x7bccc201 [0xf9, 0x0e, 0xc7, 0xdd, 0x01] 5,
        murmur_case 0xe9c33985 [0xe4, 0x88, 0x75, 0x34, 0xa2, 0x0f] 6,
        murmur_case 0xd03bf07f [0x0b, 0x0d, 0x04, 0xc3, 0x6e, 0xd8, 0x0e] 7,
        murmur_case 0x921bb379 [0x71, 0xe0, 0xfd, 0x77, 0xb0, 0x76, 0x70, 0xeb] 8,
        murmur_case 0x77f840fd [0x94, 0x0b, 0xd5, 0x33, 0x5f, 0x97, 0x3d, 0xaa, 0xd8] 9,
        murmur_case 0xbf193078 [0x61, 0x9b, 0x91, 0xff, 0xc9, 0x11, 0xf5, 0x7c, 0xce, 0xd4] 10,
        murmur_case 0x83199728 [0x58, 0xbb, 0xbf, 0x2c, 0xe0, 0x37, 0x53, 0xc9, 0xbd, 0xfa, 0x0f] 11,
        murmur_case 0x9be731ac [0xf0, 0x16, 0x9d, 0xc9, 0x57, 0x56, 0x74, 0x06, 0x66, 0x76, 0xcf, 0xb0] 12,
        murmur_case 0xd6bf5284 [0xb4, 0xeb, 0x89, 0x02, 0xc4, 0x42, 0x69, 0xda, 0x1c, 0xf6, 0xba, 0x66, 0xd3] 13,
        murmur_case 0xf38ae6b6 [0xf8, 0xb6, 0xd4, 0xb1, 0x00, 0xa9, 0xea, 0x0e, 0x75, 0x5a, 0x5c, 0x2e, 0x82, 0x10] 14,
        murmur_case 0xfe3882d0 [0x24, 0x2a, 0x08, 0xe7, 0x07, 0x8f, 0x7f, 0x89, 0x38, 0x5e, 0xb0, 0x94, 0x23, 0x55, 0x51] 15,
        murmur_case 0xedd89b4f [0x82, 0x56, 0x8b, 0x96, 0xe8, 0xa4, 0xfe, 0xf2, 0x3a, 0x0c, 0x9f, 0xc5, 0xaf, 0xd7, 0x60, 0x84] 16,
        murmur_case 0xe3431423 [0x37, 0x81, 0x6b, 0xdd, 0x0a, 0x73, 0x09, 0xcb, 0x4a, 0x12, 0x52, 0xe4, 0xda, 0x70, 0xe6, 0x72, 0x0f] 17,
        murmur_case 0xa2d24eec [0xca, 0xa4, 0xda, 0x1e, 0x98, 0x40, 0x6c, 0x18, 0x9c, 0x24, 0x27, 0x9e, 0x98, 0x51, 0xd5, 0x81, 0x42, 0x04] 18,
        murmur_case 0xf829d142 [0x13, 0x6f, 0xeb, 0x57, 0x13, 0xc1, 0x66, 0xb1, 0x32, 0x69, 0xdd, 0x63, 0xfc, 0x35, 0xc7, 0x97, 0xff, 0x08, 0xa6] 19,
        murmur_case 0 [] (- 1)]"

text \<open>The loop over the table; the state is \<open>(passed, count)\<close> and the console.\<close>

fun run_cases :: "MurmurTestCase list \<Rightarrow> int \<Rightarrow> int \<Rightarrow> 'a console_scheme \<Rightarrow> ((int \<times> int) \<times> 'a console_scheme) option" where
  "run_cases [] passed count st = None"
| "run_cases (t # ts) passed count st =
     (if case_len t = - 1 then Some ((passed, count), st)
      else do {
        (good, st) \<leftarrow> MurmurTestCase_check t (print (blanks 2 (dec count) @ '': '') st);
        run_cases ts (if good then passed + 1 else passed) (count + 1) st })"

definition do_murmur_tests :: "'a console_scheme \<Rightarrow> 'a console_scheme option" where
  "do_murmur_tests s = do {
     ((passed, count), s) \<leftarrow> run_cases murmur_cases 0 0 s;
     Some (print (dec passed @ '' out of '' @ dec count @ '' passed'' @ [LF]) s) }"

section \<open>The hash of a byte string\<close>

text \<open>
  The algorithm the comments of the code quote: the chunks of four bytes in order, then the rest,
  completed with zeros, and the length.
\<close>

fun murmur_chunks :: "i32 \<Rightarrow> i8 list \<Rightarrow> i32 \<times> i8 list" where
  "murmur_chunks hash (b0 # b1 # b2 # b3 # bs) = murmur_chunks (hash_round hash (pack4 b0 b1 b2 b3)) bs"
| "murmur_chunks hash bs = (hash, bs)"

definition murmur3 :: "i8 list \<Rightarrow> i32" where
  "murmur3 data = (
     let (hash, rest) = murmur_chunks 0 data;
         tail_word = (case rest @ [0, 0, 0] of b0 # b1 # b2 # _ \<Rightarrow> pack4 b0 b1 b2 0)
     in avalanche (hash XOR scramble tail_word XOR of_nat (length data)))"

lemma murmur_chunks_rest: "snd (murmur_chunks h bs) = drop (length bs div 4 * 4) bs"
proof (induction h bs rule: murmur_chunks.induct)
  case (1 hash b0 b1 b2 b3 bs)
  have "Suc (Suc (Suc (Suc n))) div 4 * 4 = Suc (Suc (Suc (Suc (n div 4 * 4))))" for n by presburger
  with 1 show ?case by simp
qed simp_all

lemma murmur_chunks_loop:
  "length data < 2 ^ 32 \<Longrightarrow> cfor i (int (length (pre @ data)) div 4) 1 (\<lambda>i hash. do {
       k \<leftarrow> load32 (pre @ data) (4 * i); Some (hash_round hash k) }) hash = Some (fst (murmur_chunks hash data))"
  if "int (length pre) = 4 * i"
  using that
proof (induction hash data arbitrary: pre i rule: murmur_chunks.induct)
  case (1 hash b0 b1 b2 b3 bs)
  have "load32 (pre @ b0 # b1 # b2 # b3 # bs) (4 * i) = Some (pack4 b0 b1 b2 b3)"
    using 1(3) by (simp add: load32_value nth_append nat_add_distrib flip: 1(3))
  moreover have "i < int (length (pre @ b0 # b1 # b2 # b3 # bs)) div 4" using 1(3) by simp
  ultimately show ?case using 1(1) [of "pre @ [b0, b1, b2, b3]" "i + 1"] 1(2,3) by (simp add: cfor_step)
qed (simp_all add: cfor_done)


lemma pack4_add: "ucast b0 + (push_bit 8 (ucast b1) + push_bit 16 (ucast b2)) = pack4 b0 b1 b2 0"
proof -
  have "push_bit 8 (ucast b1) + push_bit 16 (ucast b2) = (push_bit 8 (ucast b1) OR push_bit 16 (ucast b2) :: i32)"
    by (rule disjunctive_add) (auto simp: bit_simps dest: bit_imp_le_length)
  moreover have "ucast b0 + (push_bit 8 (ucast b1) OR push_bit 16 (ucast b2)) =
      (ucast b0 OR (push_bit 8 (ucast b1) OR push_bit 16 (ucast b2)) :: i32)"
    by (rule disjunctive_add) (auto simp: bit_simps dest: bit_imp_le_length)
  ultimately show ?thesis by (simp add: pack4_def or.assoc)
qed

lemma remaining_loop:
  assumes "length rest \<le> 3"
  shows "cfor 0 (int (length rest)) 1 (\<lambda>i remaining. do {
      b \<leftarrow> rd (pre @ rest) (int (length pre) + i); Some (remaining + push_bit (8 * nat i) (ucast b)) }) 0 =
    Some (case rest @ [0, 0, 0] of b0 # b1 # b2 # _ \<Rightarrow> pack4 b0 b1 b2 0)"
proof -
  have "rd (pre @ rest) (int (length pre) + i) = rd rest i" if "0 \<le> i" for i
    using that by (simp add: rd_def nth_append nat_add_distrib)
  then have "cfor 0 (int (length rest)) 1 (\<lambda>i remaining. do {
      b \<leftarrow> rd (pre @ rest) (int (length pre) + i); Some (remaining + push_bit (8 * nat i) (ucast b)) }) 0 =
    cfor 0 (int (length rest)) 1 (\<lambda>i remaining. do {
      b \<leftarrow> rd rest i; Some (remaining + push_bit (8 * nat i) (ucast b)) }) (0 :: i32)"
    by (intro cfor_cong) simp_all
  moreover have "cfor 0 (int (length rest)) 1 (\<lambda>i remaining. do {
      b \<leftarrow> rd rest i; Some (remaining + push_bit (8 * nat i) (ucast b)) }) 0 =
    Some (case rest @ [0, 0, 0] of b0 # b1 # b2 # _ \<Rightarrow> pack4 b0 b1 b2 0)"
  proof -
    consider "rest = []" | b0 where "rest = [b0]" | b0 b1 where "rest = [b0, b1]"
      | b0 b1 b2 where "rest = [b0, b1, b2]"
    proof (cases rest)
      case (Cons b0 r)
      with that assms show ?thesis by (cases r; cases "tl r"; cases "tl (tl r)") auto
    qed (use that in simp)
    then show ?thesis
      by cases (simp_all add: cfor_step cfor_done rd_def add.assoc flip: pack4_add)
  qed
  ultimately show ?thesis by simp
qed




lemma run_cases_step:
  assumes "case_len t \<noteq> - 1" and "murmurhash3_32 (case_data t) (case_len t) = Some (expected t)"
    and "\<And>s :: 'a console_scheme. \<exists>s'. run_cases ts (passed + 1) (count + 1) s = Some (r, s')"
  shows "\<exists>s'. run_cases (t # ts) passed count (s :: 'a console_scheme) = Some (r, s')"
  using assms by (simp add: MurmurTestCase_check_def Let_def)

lemma murmur_cases_pass: "\<exists>s'. run_cases murmur_cases 0 0 s = Some ((20, 20), s')"
  unfolding murmur_cases_def
  by (rule run_cases_step, code_simp, code_simp)+ (simp add: murmur_case_def)

text \<open>
  \<open>do_murmur_tests\<close>, with the twenty test vectors of its table, ends by reporting that all
  of them passed.
\<close>
theorem murmur_tests_pass: "\<exists>t. do_murmur_tests s = Some (print (''20 out of 20 passed'' @ [LF]) t)"
proof -
  obtain t where "run_cases murmur_cases 0 0 s = Some ((20, 20), t)" using murmur_cases_pass by blast
  moreover have "dec 20 = ''20''" by code_simp
  ultimately show ?thesis by (auto simp: do_murmur_tests_def)
qed

section \<open>Dumps can be read back\<close>

text \<open>The bytes of a text: the two digits after every \<open>x\<close>.\<close>

fun undump :: "string \<Rightarrow> i8 list" where
  "undump (c # a # b # cs) =
     (if c = CHR ''x'' then word_of_int (16 * digit_value a + digit_value b) # undump cs else undump (a # b # cs))"
| "undump cs = []"


lemma undump_skip: "c \<noteq> CHR ''x'' \<Longrightarrow> undump (c # rest) = undump rest"
proof (cases rest)
  case (Cons a r)
  moreover assume "c \<noteq> CHR ''x''"
  ultimately show ?thesis by (cases r) simp_all
qed simp

lemma hex_byte:
  fixes b :: i8
  shows "\<exists>h l. zeros 2 (hex (uint b)) = [h, l] \<and> digit_value h = uint b div 16 \<and> digit_value l = uint b mod 16"
proof -
  have b: "uint b < 256" "0 \<le> uint b div 16" "uint b div 16 < 16"
    using uint_lt2p [of b] by (simp_all add: pos_imp_zdiv_nonneg_iff)
  show ?thesis
  proof (cases "uint b < 16")
    case True
    then show ?thesis using digit_value_digit [of "uint b"] by (simp add: hex_def digits_small pad_def digit_value_def)
  next
    case False
    then have "hex (uint b) = [digit (uint b div 16), digit (uint b mod 16)]"
      using b by (simp add: hex_def digits_step digits_small)
    then show ?thesis using b digit_value_digit [of "uint b div 16"] digit_value_digit [of "uint b mod 16"]
      by (simp add: pad_def)
  qed
qed

lemma undump_byte: "undump (''0x'' @ zeros 2 (hex (uint b)) @ '','' @ rest) = (b :: i8) # undump rest"
proof -
  obtain h l where "zeros 2 (hex (uint b)) = [h, l]" "digit_value h = uint b div 16" "digit_value l = uint b mod 16"
    using hex_byte [of b] by blast
  then show ?thesis by (simp add: undump_skip)
qed

text \<open>
  C26. What \<open>dump_hex\<close> prints for the bytes it is given reads back as those bytes.
\<close>
theorem dump_hex_reads_back:
  "\<exists>out. dump_hex data (int (length data)) s = Some (s\<lparr>cout := cout s @ out\<rparr>) \<and> undump out = data"
proof -
  let ?n = "int (length data)"
  have "ok (dump_hex data ?n s) (\<lambda>t. \<exists>out. t = s\<lparr>cout := cout s @ out\<rparr> \<and>
      (\<forall>rest. undump (out @ rest) = take (nat ?n) data @ undump rest))"
    unfolding dump_hex_def
  proof (rule ok_cfor [where I = "\<lambda>i t. i \<le> ?n \<and> (\<exists>out. t = s\<lparr>cout := cout s @ out\<rparr> \<and>
      (\<forall>rest. undump (out @ rest) = take (nat i) data @ undump rest))"], goal_cases)
    case (3 i t)
    then obtain out where out: "t = s\<lparr>cout := cout s @ out\<rparr>" "\<forall>rest. undump (out @ rest) = take (nat i) data @ undump rest"
      by auto
    let ?new = "(if i mod 16 = 0 then ''  '' else '' '') @ (''0x'' @ zeros 2 (hex (uint (data ! nat i))) @ '','') @
      (if i mod 16 = 15 \<or> i = ?n - 1 then [LF] else [])"
    have "undump (?new @ rest) = data ! nat i # undump rest" for rest
      using undump_byte [of "data ! nat i"] by (simp add: undump_skip)
    moreover have "take (nat (i + 1)) data = take (nat i) data @ [data ! nat i]"
      using 3 by (simp add: nat_add_distrib take_Suc_conv_app_nth)
    ultimately have new: "\<forall>rest. undump ((out @ ?new) @ rest) = take (nat (i + 1)) data @ undump rest"
      using out(2) by simp
    show ?case
    proof (rule okI [where x = "s\<lparr>cout := cout s @ out @ ?new\<rparr>"], goal_cases)
      case 1
      show ?case using 3 by (simp add: out(1) print_def rd_def Let_def)
    next
      case 2
      show ?case using 3 new by (intro conjI exI [of _ "out @ ?new"]) simp_all
    qed
  qed (auto intro: exI [of _ "[]"])
  then obtain out where "dump_hex data ?n s = Some (s\<lparr>cout := cout s @ out\<rparr>)"
    "\<forall>rest. undump (out @ rest) = data @ undump rest" by (auto simp: ok_iff)
  then show ?thesis by (intro exI [of _ out]) (auto dest: spec [of _ "[]"])
qed

end
