(* ===== verification/Soft_Float.thy ===== *)
theory Soft_Float
  imports Util Menu
begin

text \<open>
  Arithmetic of \<open>float\<close>, as far as \<open>common/src/playground_util/util_tests.cc\<close> and the model tests
  use it: a finite number is a pair of a mantissa and an exponent, its value \<open>m * 2 ^ e\<close>, and each
  operation rounds the exact result to 24 bits, to the nearest, ties to even. No operation here
  comes near the largest \<open>float\<close> or into the subnormal range. Then the floating-point demonstration
  and the menu of the utilities.
\<close>

section \<open>Rounding\<close>

function bits_of :: "int \<Rightarrow> nat" where
  "bits_of n = (if n \<le> 0 then 0 else Suc (bits_of (n div 2)))"
  by pat_completeness auto
termination
  by (relation "measure nat") auto

declare bits_of.simps [simp del]

definition round24 :: "int \<Rightarrow> int" where
  "round24 n =
     (let k = bits_of n - 24; q = n div 2 ^ k; r = n mod 2 ^ k; half = 2 ^ k div 2
      in (if r > half \<or> (r = half \<and> 0 < k \<and> odd q) then q + 1 else q) * 2 ^ k)"

section \<open>Operations\<close>

type_synonym f32 = "int \<times> int"

definition fl :: "int \<Rightarrow> int \<Rightarrow> f32" where
  "fl m e = (sgn m * round24 \<bar>m\<bar>, e)"

definition f_of_int :: "int \<Rightarrow> f32" where
  "f_of_int n = fl n 0"

definition f_neg :: "f32 \<Rightarrow> f32" where
  "f_neg = (\<lambda>(m, e). (- m, e))"

definition f_add :: "f32 \<Rightarrow> f32 \<Rightarrow> f32" where
  "f_add = (\<lambda>(m, e) (n, d). let b = min e d in fl (m * 2 ^ nat (e - b) + n * 2 ^ nat (d - b)) b)"

definition f_sub :: "f32 \<Rightarrow> f32 \<Rightarrow> f32" where
  "f_sub x y = f_add x (f_neg y)"

definition f_mul :: "f32 \<Rightarrow> f32 \<Rightarrow> f32" where
  "f_mul = (\<lambda>(m, e) (n, d). fl (m * n) (e + d))"

text \<open>The quotient has at least 26 bits, the last one of which says whether there is a remainder.\<close>

definition f_div :: "f32 \<Rightarrow> f32 \<Rightarrow> f32" where
  "f_div = (\<lambda>(m, e) (n, d).
     let k = bits_of \<bar>n\<bar> + 26; a = \<bar>m\<bar> * 2 ^ k
     in fl (sgn m * sgn n * (2 * (a div \<bar>n\<bar>) + (if a mod \<bar>n\<bar> = 0 then 0 else 1))) (e - d - int k - 1))"

text \<open>The conversion to \<open>int\<close> cuts off the fraction; it is undefined out of range.\<close>

definition f_int :: "f32 \<Rightarrow> int option" where
  "f_int = (\<lambda>(m, e). int32 (if 0 \<le> e then m * 2 ^ nat e else sgn m * (\<bar>m\<bar> div 2 ^ nat (- e))))"

section \<open>The floating-point demonstration\<close>

definition print_float :: "string \<Rightarrow> f32 \<Rightarrow> 'a console_scheme \<Rightarrow> 'a console_scheme option" where
  "print_float name x s = do {
     let m = (if fst x < 0 then CHR ''-'' else CHR '' '');
     let x = (if fst x < 0 then f_neg x else x);
     i_i \<leftarrow> f_int x;
     let r = f_sub x (f_of_int i_i);
     frac \<leftarrow> f_int (f_mul r (1000, 0));
     Some (print (name @ '': '' @ [m] @ dec i_i @ ''.'' @ zeros 3 (dec frac) @ [LF]) s) }"

text \<open>The literals \<open>0.51f\<close> and \<open>4.91f\<close> are the quotients, correctly rounded.\<close>

definition do_fpu :: "'a console_scheme \<Rightarrow> 'a console_scheme option" where
  "do_fpu = cfor 0 10 1 (\<lambda>j s. do {
     let a = f_add (f_of_int j) (f_div (51, 0) (100, 0));
     let b = f_div (491, 0) (100, 0);
     s \<leftarrow> print_float ''a  '' a s;
     s \<leftarrow> print_float ''b  '' b s;
     s \<leftarrow> print_float ''a+b'' (f_add a b) s;
     s \<leftarrow> print_float ''a*b'' (f_mul a b) s;
     s \<leftarrow> print_float ''a-b'' (f_sub a b) s;
     s \<leftarrow> print_float ''a/b'' (f_div a b) s;
     Some (print [LF] s) })"

definition UTIL_MENU :: "'a console_scheme Menu" where
  "UTIL_MENU = \<lparr>title = ''Project Menu'', prompt = ''project'',
     items =
       [MENU_ITEM (CHR ''1'') ''murmurhash tests'' do_murmur_tests,
        MENU_ITEM (CHR ''f'') ''FPU tests'' do_fpu]
       @ MENU_END\<rparr>"

definition do_util_tests_menu :: "'a console_scheme \<Rightarrow> 'a console_scheme option" where
  "do_util_tests_menu = menu_run UTIL_MENU"

section \<open>The rounding is the nearest\<close>

lemma bits_of_bounds: "0 < n \<Longrightarrow> 2 ^ (bits_of n - 1) \<le> n \<and> n < 2 ^ bits_of n"
proof (induction n rule: bits_of.induct)
  case (1 n)
  show ?case
  proof (cases "n = 1")
    case False
    with 1 have IH: "2 ^ (bits_of (n div 2) - 1) \<le> n div 2" "n div 2 < 2 ^ bits_of (n div 2)" by auto
    then have "0 < bits_of (n div 2)" using False 1 by (cases "bits_of (n div 2)") auto
    then obtain b where b: "bits_of (n div 2) = Suc b" by (cases "bits_of (n div 2)") auto
    have n: "bits_of n = Suc (Suc b)" using 1 b by (subst bits_of.simps) simp
    show ?thesis using IH unfolding b n by simp linarith
  qed (simp add: bits_of.simps)
qed

lemma bits_of_le: "n < 2 ^ k \<Longrightarrow> bits_of n \<le> k"
proof (rule ccontr)
  assume "n < 2 ^ k" "\<not> bits_of n \<le> k"
  moreover from this have "0 < n" by (subst (asm) bits_of.simps) (auto split: if_splits)
  ultimately have "2 ^ (bits_of n - 1) < (2 :: int) ^ k" using bits_of_bounds [of n] by linarith
  then show False using \<open>\<not> bits_of n \<le> k\<close> by simp
qed

lemma round24_small [simp]: "n < 2 ^ 24 \<Longrightarrow> round24 n = n"
  using bits_of_le [of n 24] by (simp add: round24_def)

lemma div_pow_mult_le: "n div 2 ^ k * 2 ^ k \<le> (n :: int)"
  by (simp flip: minus_mod_eq_div_mult)

lemma div_pow_geI: "m * 2 ^ k \<le> n \<Longrightarrow> m \<le> n div 2 ^ k" for n :: int
  using zdiv_mono1 [of "m * 2 ^ k" n "2 ^ k"] by simp

lemma div_pow_lessI: "n < m * 2 ^ k \<Longrightarrow> n div 2 ^ k < m" for n :: int
  using div_pow_mult_le [of n k] by (metis le_less_trans mult_less_cancel_right_pos zero_less_numeral zero_less_power)

text \<open>A number of at most \<open>24 + k\<close> bits is off by at most half a unit of the place \<open>k\<close>, and not moved across a multiple of it.\<close>

lemma round24_near:
  assumes "0 \<le> n" and "n < 2 ^ (24 + k)"
  shows "2 * \<bar>round24 n - n\<bar> \<le> 2 ^ k" and "n div 2 ^ k * 2 ^ k \<le> round24 n"
proof -
  define j where "j = bits_of n - 24"
  define q r where "q = n div 2 ^ j" and "r = n mod 2 ^ j"
  have j: "j \<le> k" using bits_of_le [OF assms(2)] by (simp add: j_def)
  have n: "n = q * 2 ^ j + r" "0 \<le> r" "r < 2 ^ j" by (simp_all add: q_def r_def div_mult_mod_eq)
  have "round24 n = (if r > 2 ^ j div 2 \<or> (r = 2 ^ j div 2 \<and> 0 < j \<and> odd q) then q + 1 else q) * 2 ^ j"
    by (simp add: round24_def j_def q_def r_def Let_def)
  then consider "round24 n = q * 2 ^ j" "r \<le> 2 ^ j div 2" | "round24 n = (q + 1) * 2 ^ j" "2 ^ j div 2 \<le> r" "0 < j"
    using n(3) by (cases "j = 0") (auto split: if_splits)
  then have near: "2 * \<bar>round24 n - n\<bar> \<le> 2 ^ j \<and> q * 2 ^ j \<le> round24 n"
  proof cases
    case 1
    then show ?thesis using n by (simp add: algebra_simps)
  next
    case 2
    then obtain i where "j = Suc i" by (cases j) auto
    with 2 n show ?thesis by (simp add: algebra_simps)
  qed
  have pow: "(2 :: int) ^ k = 2 ^ j * 2 ^ (k - j)" using j by (simp flip: power_add)
  show "2 * \<bar>round24 n - n\<bar> \<le> 2 ^ k" using near j by (meson order_trans power_increasing one_le_numeral)
  have "n div 2 ^ k * 2 ^ k = (q div 2 ^ (k - j) * 2 ^ (k - j)) * 2 ^ j"
    by (simp add: pow q_def zdiv_zmult2_eq ac_simps)
  also have "\<dots> \<le> q * 2 ^ j" by (simp add: div_pow_mult_le)
  also note near [THEN conjunct2]
  finally show "n div 2 ^ k * 2 ^ k \<le> round24 n" .
qed

section \<open>What \<open>print_float\<close> prints\<close>

lemma round24_exact: "\<bar>c\<bar> < 2 ^ 24 \<Longrightarrow> round24 (c * 2 ^ j) = c * 2 ^ j"
proof (cases "0 \<le> c")
  case True
  assume "\<bar>c\<bar> < 2 ^ 24"
  then have "c * 2 ^ j < 2 ^ 24 * 2 ^ j" by (intro mult_strict_right_mono) simp_all
  then have "bits_of (c * 2 ^ j) - 24 \<le> j" using bits_of_le [of "c * 2 ^ j" "24 + j"] by (simp add: power_add)
  then have "(2 :: int) ^ (bits_of (c * 2 ^ j) - 24) dvd c * 2 ^ j" by (simp add: dvd_mult le_imp_power_dvd)
  moreover have "(2 :: int) ^ k div 2 \<noteq> 0" if "0 < k" for k using that by (cases k) simp_all
  ultimately show ?thesis by (auto simp: round24_def Let_def)
next
  case False
  then have "c * 2 ^ j < 0" by (simp add: mult_less_0_iff)
  then show ?thesis by simp
qed

lemma fl_exact [simp]: "\<bar>c\<bar> < 2 ^ 24 \<Longrightarrow> fl (c * 2 ^ j) e = (c * 2 ^ j, e)"
  using round24_exact [of "\<bar>c\<bar>" j] by (simp add: fl_def abs_mult sgn_mult mult.assoc [symmetric] sgn_mult_abs)

lemma fl_nonneg: "0 \<le> m \<Longrightarrow> fl m e = (round24 m, e)"
  by (cases "m = 0") (simp_all add: fl_def)

text \<open>The digits of the fraction \<open>f / 2 ^ k\<close>.\<close>

definition thousandths :: "int \<Rightarrow> nat \<Rightarrow> int" where
  "thousandths f k = round24 (1000 * f) div 2 ^ k"

lemma thousandths_near:
  assumes "0 \<le> c" "c < 2 ^ 24" and f: "f = c * 2 ^ j" "f < 2 ^ k"
  shows "1000 * f div 2 ^ k \<le> thousandths f k" and "2 ^ 15 * (thousandths f k * 2 ^ k - 1000 * f) \<le> 2 ^ k"
    and "thousandths f k \<le> 999"
proof -
  let ?n = "1000 * f"
  have f0: "0 \<le> f" using assms(1) f(1) by simp
  have le: "thousandths f k * 2 ^ k \<le> round24 ?n" by (simp add: thousandths_def div_pow_mult_le)
  have below: "?n div 2 ^ k * 2 ^ k \<le> round24 ?n \<and> 2 ^ 15 * (round24 ?n - ?n) \<le> 2 ^ k"
  proof (cases "k < 14")
    case True
    then have "(2 :: int) ^ k \<le> 2 ^ 14" by (intro power_increasing) auto
    then have "?n < 2 ^ 24" using f(2) by simp
    then show ?thesis using div_pow_mult_le [of ?n k] by simp
  next
    case False
    then obtain i where k: "k = i + 14" by (metis add.commute le_Suc_ex not_less)
    have "(0 :: int) < 2 ^ i" by simp
    then have "?n < 2 ^ (24 + i)" using f(2) unfolding k power_add by (simp; linarith)
    from round24_near [OF _ this] f0
    have near: "2 * \<bar>round24 ?n - ?n\<bar> \<le> 2 ^ i" and down: "?n div 2 ^ i * 2 ^ i \<le> round24 ?n" by auto
    have "2 ^ 15 * (round24 ?n - ?n) \<le> 2 ^ 14 * (2 * \<bar>round24 ?n - ?n\<bar>)" using abs_ge_self [of "round24 ?n - ?n"] by simp
    also have "\<dots> \<le> 2 ^ 14 * 2 ^ i" using near by (intro mult_left_mono) simp_all
    also have "\<dots> = 2 ^ k" by (simp add: k power_add)
    finally have "2 ^ 15 * (round24 ?n - ?n) \<le> 2 ^ k" .
    moreover have "?n div 2 ^ k * 2 ^ k \<le> ?n div 2 ^ i * 2 ^ i"
    proof -
      have "?n div 2 ^ k * 2 ^ k = (?n div 2 ^ i div 2 ^ 14 * 2 ^ 14) * 2 ^ i"
        by (simp add: k power_add zdiv_zmult2_eq)
      also have "\<dots> \<le> ?n div 2 ^ i * 2 ^ i" by (intro mult_right_mono div_pow_mult_le) simp
      finally show ?thesis .
    qed
    ultimately show ?thesis using down by linarith
  qed
  then show "?n div 2 ^ k \<le> thousandths f k" unfolding thousandths_def by (auto intro: div_pow_geI)
  show "2 ^ 15 * (thousandths f k * 2 ^ k - ?n) \<le> 2 ^ k" using below le by simp
  have "round24 ?n < 1000 * 2 ^ k"
  proof (cases "j < k")
    case True
    then obtain i where k: "k = j + i" by (metis le_Suc_ex less_imp_le)
    have p: "(0 :: int) < 2 ^ j" by simp
    have c: "c + 1 \<le> 2 ^ i" using f by (simp add: k power_add mult.commute [of "2 ^ j"])
    have "1000 * c < 2 ^ (24 + 10)" using assms(2) by simp
    then have "1000 * c * 2 ^ j < 2 ^ (24 + 10) * 2 ^ j" using p by (intro mult_strict_right_mono)
    then have "?n < 2 ^ (24 + (10 + j))" by (simp add: f(1) power_add)
    from round24_near(1) [OF _ this] f0 have "round24 ?n \<le> ?n + 2 ^ 9 * 2 ^ j" by (simp add: power_add)
    also have "\<dots> < 1000 * ((c + 1) * 2 ^ j)" using p by (simp add: f(1) algebra_simps)
    also have "\<dots> \<le> 1000 * (2 ^ i * 2 ^ j)" using c p by (intro mult_left_mono mult_right_mono) simp_all
    finally show ?thesis by (simp add: k power_add ac_simps)
  next
    case False
    then have le: "(2 :: int) ^ k \<le> 2 ^ j" by (intro power_increasing) simp_all
    have "\<not> 1 \<le> c"
    proof
      assume "1 \<le> c"
      then have "1 * 2 ^ j \<le> c * 2 ^ j" by (intro mult_right_mono) simp_all
      with le f show False by linarith
    qed
    then have "c = 0" using assms(1) by simp
    then show ?thesis by (simp add: f(1))
  qed
  then show "thousandths f k \<le> 999" unfolding thousandths_def by (auto dest: div_pow_lessI)
qed

lemma f_int_fraction: "0 \<le> m \<Longrightarrow> f_int (m, - int k) = int32 (m div 2 ^ k)"
  by (cases "k = 0") (simp_all add: f_int_def sgn_if)

text \<open>The fraction of a number with 24 bits has at most 24 bits.\<close>

lemma fraction_mantissa:
  fixes c :: int
  assumes "\<bar>c\<bar> < 2 ^ 24"
  shows "\<exists>b. 0 \<le> b \<and> b < 2 ^ 24 \<and> \<bar>c * 2 ^ j\<bar> mod 2 ^ k = b * 2 ^ j"
proof (cases "j < k")
  case True
  then have "\<bar>c * 2 ^ j\<bar> mod 2 ^ k = \<bar>c\<bar> mod 2 ^ (k - j) * 2 ^ j"
    by (simp add: abs_mult mult_mod_left flip: power_add)
  moreover have "\<bar>c\<bar> mod 2 ^ (k - j) < 2 ^ 24"
    using assms zmod_le_nonneg_dividend [of "\<bar>c\<bar>" "2 ^ (k - j)"] by simp
  ultimately show ?thesis by (intro exI [of _ "\<bar>c\<bar> mod 2 ^ (k - j)"]) simp
next
  case False
  then show ?thesis by (intro exI [of _ 0]) (simp add: abs_mult le_imp_power_dvd dvd_imp_mod_0)
qed

text \<open>
  C36. \<open>print_float\<close> prints a number as its sign, its integer part and three digits. They are the
  thousandths of the fraction, cut off; when the product by 1000 rounds up to an integer, at
  most 2^-15 away, they are that integer instead, but never 1000.
\<close>
theorem print_float_digits:
  assumes "\<bar>c\<bar> < 2 ^ 24" and "\<bar>c * 2 ^ j\<bar> div 2 ^ k < 2 ^ 24"
  shows "\<exists>d. print_float name (c * 2 ^ j, - int k) s =
      Some (print (name @ '': '' @ [if c < 0 then CHR ''-'' else CHR '' ''] @ dec (\<bar>c * 2 ^ j\<bar> div 2 ^ k) @ ''.'' @ zeros 3 (dec d) @ [LF]) s) \<and>
    1000 * (\<bar>c * 2 ^ j\<bar> mod 2 ^ k) div 2 ^ k \<le> d \<and> 2 ^ 15 * (d * 2 ^ k - 1000 * (\<bar>c * 2 ^ j\<bar> mod 2 ^ k)) \<le> 2 ^ k \<and> d \<le> 999"
proof -
  define m i f where "m = \<bar>c * 2 ^ j\<bar>" and "i = m div 2 ^ k" and "f = m mod 2 ^ k"
  have i: "0 \<le> i" "i < 2 ^ 24" using assms by (simp_all add: m_def i_def pos_imp_zdiv_nonneg_iff)
  obtain b where b: "0 \<le> b" "b < 2 ^ 24" "f = b * 2 ^ j"
    using fraction_mantissa [OF assms(1)] unfolding f_def m_def by blast
  have rest: "f_sub (m, - int k) (f_of_int i) = (f, - int k)"
  proof -
    have "m - i * 2 ^ k = b * 2 ^ j" by (simp add: i_def f_def minus_div_mult_eq_mod flip: b(3))
    then show ?thesis using i b fl_exact [of i 0 0] fl_exact [of b j "- int k"]
      by (simp add: f_sub_def f_add_def f_neg_def f_of_int_def min_def)
  qed
  have prod: "f_mul (f, - int k) (1000, 0) = (round24 (1000 * f), - int k)"
    using b by (simp add: f_mul_def fl_nonneg mult.commute)
  have "f < 2 ^ k" by (simp add: f_def)
  note near = thousandths_near [OF b this]
  have "0 \<le> 1000 * f div 2 ^ k" using b by (simp add: pos_imp_zdiv_nonneg_iff)
  then have pos: "0 \<le> thousandths f k" using near(1) by linarith
  then have "0 \<le> round24 (1000 * f)" by (simp add: thousandths_def pos_imp_zdiv_nonneg_iff)
  note pos = pos this
  have neg: "c * 2 ^ j < 0 \<longleftrightarrow> c < 0" by (simp add: mult_less_0_iff)
  have abs: "(if fst (c * 2 ^ j, - int k) < 0 then f_neg (c * 2 ^ j, - int k) else (c * 2 ^ j, - int k)) = (m, - int k)"
    by (simp add: f_neg_def m_def abs_if)
  have m: "0 \<le> m" "m div 2 ^ k = i" by (simp_all add: m_def i_def)
  have "print_float name (c * 2 ^ j, - int k) s = do {
      i_i \<leftarrow> f_int (m, - int k);
      frac \<leftarrow> f_int (f_mul (f_sub (m, - int k) (f_of_int i_i)) (1000, 0));
      Some (print (name @ '': '' @ [if c < 0 then CHR ''-'' else CHR '' ''] @ dec i_i @ ''.'' @ zeros 3 (dec frac) @ [LF]) s) }"
    by (simp only: print_float_def Let_def abs) (simp only: fst_conv neg)
  also have "\<dots> = Some (print (name @ '': '' @ [if c < 0 then CHR ''-'' else CHR '' ''] @ dec i @ ''.'' @
      zeros 3 (dec (thousandths f k)) @ [LF]) s)"
    using i near pos m by (simp add: f_int_fraction rest prod int32_def flip: thousandths_def)
  finally have "print_float name (c * 2 ^ j, - int k) s =
      Some (print (name @ '': '' @ [if c < 0 then CHR ''-'' else CHR '' ''] @ dec i @ ''.'' @ zeros 3 (dec (thousandths f k)) @ [LF]) s)" .
  with near show ?thesis by (auto simp: i_def f_def m_def)
qed

text \<open>\<open>0.51f\<close> has the fraction 0.50999999: its digits are 509 or more.\<close>

lemma print_float_digits_witness:
  "\<exists>d. print_float ''a'' (2139095 * 2 ^ 12, - int 34) \<lparr>cin = [], cout = []\<rparr> =
      Some (print (''a'' @ '': '' @ [CHR '' ''] @ dec 0 @ ''.'' @ zeros 3 (dec d) @ [LF]) \<lparr>cin = [], cout = []\<rparr>) \<and>
    509 \<le> d \<and> 2 ^ 15 * (d * 2 ^ 34 - 1000 * 8761733120) \<le> 2 ^ 34 \<and> d \<le> 999"
  using print_float_digits [of 2139095 12 34 "''a''" "\<lparr>cin = [], cout = []\<rparr>"] by simp

text \<open>They are shown as 510, since the product by 1000 has been rounded up.\<close>

lemma print_literal:
  "f_div (51, 0) (100, 0) = (2139095 * 2 ^ 12, - int 34)"
  "print_float ''a'' (f_div (51, 0) (100, 0)) \<lparr>cin = [], cout = []\<rparr> = Some \<lparr>cin = [], cout = ''a:  0.510'' @ [LF]\<rparr>"
  by code_simp+

end
