(* ===== verification/Micro_Profiler.thy ===== *)
theory Micro_Profiler
  imports Perf Fixedpoint
begin

text \<open>
  Logging and profiling below the interpreter: the formatting of \<open>micro_string.cc\<close>, the log of
  \<open>micro_error_reporter.cc\<close> with the port's \<open>DebugLog\<close>, the port's clock (\<open>micro_time.cc\<close>) and the
  profiler (\<open>micro_profiler.cc\<close>) with the subclass of \<open>tflite.cc\<close> that prints progress dots. The
  profiler is a record of its own next to the machine, which every event reads the time from.
\<close>

section \<open>Formatting\<close>

text \<open>A format string cut at its conversions, \<open>%d\<close> and \<open>%s\<close> being the ones the modelled code uses.\<close>

datatype piece = Lit string | Int32 i32 | Str string

text \<open>\<open>FastUInt32ToBufferLeft\<close> produces the digits from the right and reverses the buffer.\<close>

function buffer_digits :: "int \<Rightarrow> int \<Rightarrow> string" where
  "buffer_digits base i = digit (i mod base) # (if 1 < base \<and> 0 < i div base then buffer_digits base (i div base) else [])"
  by pat_completeness auto
termination
  by (relation "measure (\<lambda>(base, i). nat i)") (auto simp: pos_imp_zdiv_pos_iff int_div_less_self)

declare buffer_digits.simps [simp del]

definition FastUInt32ToBufferLeft :: "i32 \<Rightarrow> int \<Rightarrow> string" where
  "FastUInt32ToBufferLeft i base = rev (buffer_digits base (uint i))"

definition FastInt32ToBufferLeft :: "i32 \<Rightarrow> string" where
  "FastInt32ToBufferLeft i =
     (if sint i < 0 then CHR ''-'' # FastUInt32ToBufferLeft (- i) 10 else FastUInt32ToBufferLeft i 10)"

definition kMaxIntCharsNeeded :: nat where
  "kMaxIntCharsNeeded = 10 + 1"

text \<open>\<open>room\<close> is \<open>usable_length - output_index\<close>. A number that might not fit ends the text.\<close>

fun MicroVsnprintf :: "nat \<Rightarrow> piece list \<Rightarrow> string" where
  "MicroVsnprintf room [] = []"
| "MicroVsnprintf room (p # ps) =
     (if room = 0 then []
      else case p of
        Lit str \<Rightarrow> take room str @ MicroVsnprintf (room - length str) ps
      | Int32 i \<Rightarrow>
          if room < kMaxIntCharsNeeded then []
          else let str = FastInt32ToBufferLeft i in str @ MicroVsnprintf (room - length str) ps
      | Str str \<Rightarrow>
          let str = take room (takeWhile (\<lambda>c. c \<noteq> CHR 0x00) str) in str @ MicroVsnprintf (room - length str) ps)"

section \<open>Logging\<close>

definition DebugLog :: "string \<Rightarrow> 'a console_scheme \<Rightarrow> 'a console_scheme option" where
  "DebugLog str s = putsnonl str s"

definition kMaxLogLen :: nat where
  "kMaxLogLen = 256"

definition MicroPrintf :: "piece list \<Rightarrow> 'a console_scheme \<Rightarrow> 'a console_scheme option" where
  "MicroPrintf format s = do {
     let log_buffer = MicroVsnprintf (kMaxLogLen - 1) format @ [CHR 0x00];
     s \<leftarrow> DebugLog log_buffer s;
     DebugLog [CR, LF, CHR 0x00] s }"

section \<open>Time\<close>

definition ticks_per_second :: int where
  "ticks_per_second = 100000000 div 1024"

definition GetCurrentTimeTicks :: "csr_env \<Rightarrow> 'a perf_scheme \<Rightarrow> (i32 \<times> 'a perf_scheme) option" where
  "GetCurrentTimeTicks env s = do {
     (c, s) \<leftarrow> perf_get_mcycle64 env s;
     Some (ucast (drop_bit 10 c), s) }"

section \<open>The profiler\<close>

record MicroProfiler =
  tags :: "string list"
  start_ticks :: "i32 list"
  end_ticks :: "i32 list"
  num_events :: int

definition kMaxEvents :: int where
  "kMaxEvents = 1024"

text \<open>The difference of two ticks is computed in \<open>int\<close>; an overflow is undefined.\<close>

definition BeginEvent ::
  "csr_env \<Rightarrow> string \<Rightarrow> MicroProfiler \<times> 'a perf_scheme \<Rightarrow> (int \<times> MicroProfiler \<times> 'a perf_scheme) option" where
  "BeginEvent env tag = (\<lambda>(p, s). do {
     let p = (if num_events p = kMaxEvents then p\<lparr>num_events := 0\<rparr> else p);
     ts \<leftarrow> wr (tags p) (num_events p) tag;
     (now, s) \<leftarrow> GetCurrentTimeTicks env s;
     starts \<leftarrow> wr (start_ticks p) (num_events p) now;
     before \<leftarrow> int32 (sint now - 1);
     ends \<leftarrow> wr (end_ticks p) (num_events p) (word_of_int before);
     Some (num_events p,
       p\<lparr>tags := ts, start_ticks := starts, end_ticks := ends, num_events := num_events p + 1\<rparr>, s) })"

definition EndEvent ::
  "bool \<Rightarrow> csr_env \<Rightarrow> int \<Rightarrow> MicroProfiler \<times> 'a perf_scheme \<Rightarrow> (MicroProfiler \<times> 'a perf_scheme) option" where
  "EndEvent nd env event_handle = (\<lambda>(p, s). do {
     dcheck nd (event_handle < kMaxEvents);
     (now, s) \<leftarrow> GetCurrentTimeTicks env s;
     ends \<leftarrow> wr (end_ticks p) event_handle now;
     Some (p\<lparr>end_ticks := ends\<rparr>, s) })"

definition ClearEvents :: "MicroProfiler \<Rightarrow> MicroProfiler" where
  "ClearEvents p = p\<lparr>num_events := 0\<rparr>"

definition event_ticks :: "MicroProfiler \<Rightarrow> int \<Rightarrow> int option" where
  "event_ticks p i = do {
     e \<leftarrow> rd (end_ticks p) i;
     b \<leftarrow> rd (start_ticks p) i;
     int32 (sint e - sint b) }"

definition GetTotalTicks :: "MicroProfiler \<Rightarrow> int option" where
  "GetTotalTicks p = cfor 0 (num_events p) 1 (\<lambda>i ticks. do {
     t \<leftarrow> event_ticks p i;
     int32 (ticks + t) }) 0"

definition LogCsv :: "MicroProfiler \<Rightarrow> 'a console_scheme \<Rightarrow> 'a console_scheme option" where
  "LogCsv p s = do {
     s \<leftarrow> MicroPrintf [Lit (CHR 0x22 # ''Event'' @ CHR 0x22 # '','' @ CHR 0x22 # ''Tag'' @ CHR 0x22 # '','' @
       CHR 0x22 # ''Ticks'' @ [CHR 0x22])] s;
     cfor 0 (num_events p) 1 (\<lambda>i s. do {
       ticks \<leftarrow> event_ticks p i;
       tag \<leftarrow> rd (tags p) i;
       MicroPrintf [Int32 (word_of_int i), Lit '','', Str tag, Lit '','', Int32 (word_of_int ticks)] s }) s }"

text \<open>\<open>ProgressProfiler\<close> of \<open>tflite.cc\<close>; \<open>hide\<close> is \<open>HIDE_PROGRESS_DOTS\<close>.\<close>

definition ProgressProfiler_BeginEvent ::
  "bool \<Rightarrow> csr_env \<Rightarrow> string \<Rightarrow> MicroProfiler \<times> 'a perf_scheme \<Rightarrow> (int \<times> MicroProfiler \<times> 'a perf_scheme) option" where
  "ProgressProfiler_BeginEvent hide env tag = (\<lambda>(p, s).
     BeginEvent env tag (p, if hide then s else print ''.'' s))"

section \<open>Texts\<close>

lemma buffer_digits_rev:
  assumes "1 < base" and "0 \<le> i"
  shows "rev (buffer_digits base i) = digits base i"
  using assms
proof (induction i rule: digits_induct)
  case (small i)
  then show ?case by (subst buffer_digits.simps) (simp add: digits_small div_pos_pos_trivial)
next
  case (large i)
  have "0 < i div base" using large.hyps assms(1) by (simp add: pos_imp_zdiv_pos_iff)
  with large assms(1) show ?case by (subst buffer_digits.simps) (simp add: digits_step)
qed

text \<open>The conversion is the one of \<open>printf\<close>, \<open>INT_MIN\<close> included.\<close>

lemma FastInt32ToBufferLeft_dec: "FastInt32ToBufferLeft i = dec (sint i)"
proof -
  define v where "v = sint i"
  have v: "- (2 ^ 31) \<le> v" "v < 2 ^ 31" using sint_greater_eq [of i] sint_lt [of i] by (simp_all add: v_def)
  have i: "i = word_of_int v" by (simp add: v_def)
  have "- i = word_of_int (- v)" by (simp add: i)
  then have "uint (- i) = - v" if "v < 0"
    using that v by (simp only: uint_word_of_int) simp
  moreover have "uint i = v" if "\<not> v < 0"
    using that v by (simp add: i uint_word_of_int)
  ultimately show ?thesis
    using v by (simp add: FastInt32ToBufferLeft_def FastUInt32ToBufferLeft_def buffer_digits_rev dec_def flip: v_def)
qed

text \<open>A text without zeros that fits is printed whole.\<close>

fun piece_text :: "piece \<Rightarrow> string" where
  "piece_text (Lit str) = str"
| "piece_text (Int32 i) = dec (sint i)"
| "piece_text (Str str) = str"

abbreviation zero_free :: "string \<Rightarrow> bool" where "zero_free str \<equiv> CHR 0x00 \<notin> set str"

lemma dec_sint_length: "length (dec (sint (i :: i32))) \<le> kMaxIntCharsNeeded"
  using dec_length [of "sint i"] sint_greater_eq [of i] sint_lt [of i] by (simp add: kMaxIntCharsNeeded_def)

lemma MicroVsnprintf_fits:
  assumes "length (concat (map piece_text ps)) + kMaxIntCharsNeeded \<le> room"
    and "\<forall>p\<in>set ps. zero_free (piece_text p)"
  shows "MicroVsnprintf room ps = concat (map piece_text ps)"
  using assms
proof (induction ps arbitrary: room)
  case (Cons p ps)
  have rest: "MicroVsnprintf (room - length (piece_text p)) ps = concat (map piece_text ps)"
    using Cons.prems by (intro Cons.IH) auto
  have room: "kMaxIntCharsNeeded \<le> room" "room \<noteq> 0" "length (piece_text p) \<le> room"
    using Cons.prems by (auto simp: kMaxIntCharsNeeded_def)
  show ?case
  proof (cases p)
    case (Str str)
    have "takeWhile (\<lambda>c. c \<noteq> CHR 0x00) str = str" using Cons.prems(2) Str by (auto simp: takeWhile_eq_all_conv)
    note this [simp]
    show ?thesis using rest room by (simp add: Str Let_def)
  qed (use rest room in \<open>simp_all add: FastInt32ToBufferLeft_dec Let_def\<close>)
qed simp

lemma putsnonl_print: "zero_free str \<Longrightarrow> putsnonl (str @ CHR 0x00 # rest) s = Some (print str s)"
  by (induction str arbitrary: s) (auto simp: print_def)

lemma MicroPrintf_fits:
  assumes "length (concat (map piece_text ps)) + kMaxIntCharsNeeded \<le> 255"
    and "\<forall>p\<in>set ps. zero_free (piece_text p)"
  shows "MicroPrintf ps s = Some (print (concat (map piece_text ps) @ [CR, LF]) s)"
proof -
  have "zero_free (concat (map piece_text ps))" using assms(2) by auto
  then have "putsnonl (concat (map piece_text ps) @ [CHR 0x00]) s = Some (print (concat (map piece_text ps)) s)"
    by (rule putsnonl_print)
  then show ?thesis using assms
    by (simp add: MicroPrintf_def DebugLog_def kMaxLogLen_def MicroVsnprintf_fits print_def)
qed

lemma zero_free_dec: "zero_free (dec v)"
  using dec_plain by blast

section \<open>The log of events\<close>

text \<open>The arrays have their declared length, and the number of events is one they can hold.\<close>

definition wf_profiler :: "MicroProfiler \<Rightarrow> bool" where
  "wf_profiler p \<longleftrightarrow> length (tags p) = 1024 \<and> length (start_ticks p) = 1024 \<and> length (end_ticks p) = 1024 \<and>
     0 \<le> num_events p \<and> num_events p \<le> 1024"

text \<open>What \<open>LogCsv\<close> will report: tag, first and last tick of every event.\<close>

definition recorded :: "MicroProfiler \<Rightarrow> (string \<times> i32 \<times> i32) list" where
  "recorded p = map (\<lambda>i. (tags p ! i, start_ticks p ! i, end_ticks p ! i)) [0..<nat (num_events p)]"

text \<open>The abstract log: the 1025th event starts a new one.\<close>

definition push_event :: "'e \<Rightarrow> 'e list \<Rightarrow> 'e list" where
  "push_event e log = (if length log = 1024 then [e] else log @ [e])"

lemma length_recorded: "wf_profiler p \<Longrightarrow> int (length (recorded p)) = num_events p"
  by (simp add: recorded_def wf_profiler_def)

lemma recorded_clear: "wf_profiler p \<Longrightarrow> recorded (ClearEvents p) = [] \<and> wf_profiler (ClearEvents p)"
  by (simp add: recorded_def ClearEvents_def wf_profiler_def)

definition open_slot :: "MicroProfiler \<Rightarrow> int" where
  "open_slot p = (if num_events p = 1024 then 0 else num_events p)"

lemma open_slot_bounds: "wf_profiler p \<Longrightarrow> 0 \<le> open_slot p \<and> open_slot p < 1024"
  by (auto simp: open_slot_def wf_profiler_def)

definition begun :: "string \<Rightarrow> i32 \<Rightarrow> MicroProfiler \<Rightarrow> MicroProfiler" where
  "begun tag now p = p\<lparr>tags := (tags p)[nat (open_slot p) := tag],
     start_ticks := (start_ticks p)[nat (open_slot p) := now],
     end_ticks := (end_ticks p)[nat (open_slot p) := now - 1], num_events := open_slot p + 1\<rparr>"

lemma wf_begun: "wf_profiler p \<Longrightarrow> wf_profiler (begun tag now p)"
  using open_slot_bounds [of p] by (simp add: begun_def wf_profiler_def)

lemma BeginEvent_begun:
  assumes "wf_profiler p" and "GetCurrentTimeTicks env s = Some (now, s')" and "- (2 ^ 31) < sint now"
  shows "BeginEvent env tag (p, s) = Some (open_slot p, begun tag now p, s')"
proof -
  have "sint now < 2 ^ 31" using sint_lt [of now] by simp
  then have "int32 (sint now - 1) = Some (sint now - 1)" using assms(3) by (simp add: int32_def)
  moreover have "word_of_int (sint now - 1) = now - 1" by simp
  ultimately show ?thesis using assms(1,2)
    by (auto simp: BeginEvent_def wr_def wf_profiler_def open_slot_def begun_def kMaxEvents_def)
qed

lemma EndEvent_closed:
  assumes "wf_profiler p" and "GetCurrentTimeTicks env s = Some (now, s')"
  shows "EndEvent nd env (open_slot q) (begun tag before p, s) = (if 0 \<le> open_slot q \<and> open_slot q < 1024
    then Some (let b = begun tag before p in b\<lparr>end_ticks := (end_ticks b)[nat (open_slot q) := now]\<rparr>, s') else None)"
  using assms wf_begun [OF assms(1), of tag before]
  by (auto simp: EndEvent_def kMaxEvents_def dcheck_def wr_def wf_profiler_def Let_def)

text \<open>An event from its begin to its end is one step of the abstract log, whatever happened to the machine meanwhile.\<close>

lemma event_recorded:
  fixes tag :: string and t0 t1 :: i32 and p :: MicroProfiler
  assumes "wf_profiler p"
  defines "b \<equiv> begun tag t0 p"
  defines "q \<equiv> b\<lparr>end_ticks := (end_ticks b)[nat (open_slot p) := t1]\<rparr>"
  shows "wf_profiler q" and "recorded q = push_event (tag, t0, t1) (recorded p)"
proof -
  show "wf_profiler q" using wf_begun [OF assms(1)] by (simp add: q_def b_def wf_profiler_def)
  have lens: "length (tags p) = 1024" "length (start_ticks p) = 1024" "length (end_ticks p) = 1024"
    "0 \<le> num_events p" "num_events p \<le> 1024" using assms(1) by (auto simp: wf_profiler_def)
  show "recorded q = push_event (tag, t0, t1) (recorded p)"
  proof (cases "num_events p = 1024")
    case True
    then show ?thesis using lens
      by (simp add: recorded_def q_def b_def begun_def open_slot_def push_event_def)
  next
    case False
    then have n: "nat (num_events p + 1) = Suc (nat (num_events p))" "nat (num_events p) < 1024" using lens by auto
    have same: "xs[nat (num_events p) := x] ! i = xs ! i" if "i < nat (num_events p)" for xs :: "'a list" and x i
      using that by simp
    have "length (recorded p) \<noteq> 1024" using n by (simp add: recorded_def)
    then show ?thesis using lens n False
      by (simp add: recorded_def q_def b_def begun_def open_slot_def push_event_def same)
  qed
qed

lemma length_push: "length log \<le> 1024 \<Longrightarrow> length (push_event e log) \<le> 1024"
  by (simp add: push_event_def)

lemma push_full: "length log = 1024 \<Longrightarrow> push_event e log = [e]"
  by (simp add: push_event_def)

lemma push_more: "length log \<noteq> 1024 \<Longrightarrow> push_event e log = log @ [e]"
  by (simp add: push_event_def)

text \<open>After \<open>n\<close> events the log has those from the last multiple of 1024 on.\<close>

lemma block_start:
  fixes n :: nat
  shows "n mod 1024 = 0 \<Longrightarrow> n \<noteq> 0 \<Longrightarrow> n - 1024 * ((n - 1) div 1024) = 1024 \<and> 1024 * (n div 1024) = n"
    and "n mod 1024 \<noteq> 0 \<or> n = 0 \<Longrightarrow> n - 1024 * ((n - 1) div 1024) \<noteq> 1024 \<and> n div 1024 = (n - 1) div 1024"
    and "1024 * ((n - 1) div 1024) \<le> n"
proof -
  define q r where "q = n div 1024" and "r = n mod 1024"
  have n: "n = 1024 * q + r" "r < 1024" by (simp_all add: q_def r_def)
  have before: "(n - 1) div 1024 = (if r = 0 then q - 1 else q)"
  proof (cases "r = 0")
    case True
    show ?thesis
    proof (cases q)
      case (Suc m)
      then have "n - 1 = 1023 + m * 1024" using n True by simp
      then show ?thesis using True Suc by simp
    qed (use n True in simp)
  next
    case False
    then have "n - 1 = (r - 1) + q * 1024" "r - 1 < 1024" using n by simp_all
    then show ?thesis using False by simp
  qed
  show "n - 1024 * ((n - 1) div 1024) = 1024 \<and> 1024 * (n div 1024) = n" if "n mod 1024 = 0" "n \<noteq> 0"
  proof -
    have "r = 0" using that by (simp add: r_def)
    with that n before show ?thesis by (cases q) simp_all
  qed
  show "n - 1024 * ((n - 1) div 1024) \<noteq> 1024 \<and> n div 1024 = (n - 1) div 1024" if "n mod 1024 \<noteq> 0 \<or> n = 0"
  proof -
    have "r \<noteq> 0 \<or> n = 0" using that by (simp add: r_def)
    with n before show ?thesis by (auto simp flip: q_def)
  qed
  show "1024 * ((n - 1) div 1024) \<le> n" using n before by (cases q) auto
qed

lemma fold_push: "fold push_event es [] = drop (1024 * ((length es - 1) div 1024)) es"
proof (induction es rule: rev_induct)
  case (snoc e es)
  let ?n = "length es"
  have len: "length (fold push_event es []) = ?n - 1024 * ((?n - 1) div 1024)" by (simp add: snoc)
  show ?case
  proof (cases "?n mod 1024 = 0 \<and> ?n \<noteq> 0")
    case True
    then show ?thesis using len block_start(1) [of ?n] by (simp add: push_full)
  next
    case False
    then show ?thesis using len block_start(2,3) [of ?n] by (simp add: push_more snoc)
  qed
qed simp

text \<open>
  An event that is never ended is reported with a duration of \<open>-1\<close>: \<open>BeginEvent\<close> sets the end one
  tick before the start, where the header promises a duration of 0.
\<close>
theorem unended_event:
  assumes "wf_profiler p" and "BeginEvent env tag (p, s) = Some (event_handle, q, t)"
  shows "event_ticks q event_handle = Some (- 1)"
proof -
  obtain now u where now: "GetCurrentTimeTicks env s = Some (now, u)"
    using assms(2) by (auto simp: BeginEvent_def Let_def split: bind_splits)
  have "int32 (sint now - 1) \<noteq> None"
    using assms(2) now by (auto simp: BeginEvent_def Let_def split: bind_splits)
  then have least: "- (2 ^ 31) < sint now" by (auto simp: int32_def split: if_splits)
  from assms(2) BeginEvent_begun [OF assms(1) now least, of tag]
  have q: "event_handle = open_slot p" "q = begun tag now p" by simp_all
  have bound: "sint now < 2 ^ 31" using sint_lt [of now] by simp
  have "sint (word_of_int (sint now - 1) :: i32) = sint now - 1" using least bound by (intro sint32_of_int) simp_all
  then have "sint (now - 1) = sint now - 1" by simp
  then show ?thesis using open_slot_bounds [OF assms(1)] assms(1) unfolding q
    by (auto simp: event_ticks_def begun_def rd_def wf_profiler_def int32_def)
qed

lemma unended_event_witness:
  "let p = \<lparr>tags = replicate 1024 [], start_ticks = replicate 1024 0, end_ticks = replicate 1024 0, num_events = 1024\<rparr>;
       s = \<lparr>cin = [], cout = [], csr = (\<lambda>_. 7), accesses = 0, CFU_start_counts = [], counter_num = 0\<rparr>
   in \<exists>q t. BeginEvent (\<lambda>_ r. r) ''CONV_2D'' (p, s) = Some (0, q, t) \<and> event_ticks q 0 = Some (- 1)"
proof -
  let ?p = "\<lparr>tags = replicate 1024 [], start_ticks = replicate 1024 0, end_ticks = replicate 1024 0, num_events = 1024\<rparr>"
  let ?s = "\<lparr>cin = [], cout = [], csr = (\<lambda>_. 7), accesses = 0, CFU_start_counts = [], counter_num = 0\<rparr>"
  have wf: "wf_profiler ?p" by (simp add: wf_profiler_def)
  have "GetCurrentTimeTicks (\<lambda>_ r. r) ?s = Some (ucast (drop_bit 10 (push_bit 32 7 OR 7 :: i64)), ?s\<lparr>accesses := 3\<rparr>)"
    by (simp add: GetCurrentTimeTicks_def perf_get_mcycle64.simps csrr_def run_cpu_def numeral_3_eq_3)
  then have "\<exists>q t. BeginEvent (\<lambda>_ r. r) ''CONV_2D'' (?p, ?s) = Some (0, q, t)"
    using BeginEvent_begun [OF wf, of "\<lambda>_ r. r" ?s _ _ "''CONV_2D''"] by (simp add: open_slot_def)
  then show ?thesis using unended_event [OF wf, of "\<lambda>_ r. r" "''CONV_2D''" ?s 0] by (auto simp: Let_def)
qed

end
