(* ===== verification/Tflite.thy ===== *)
theory Tflite
  imports Framebuffer Micro_Profiler Util
begin

text \<open>
  \<open>common/src/tflite.cc\<close>: loading a model into the interpreter, its input and output, and one
  classification. The interpreter's own steps (\<open>Invoke\<close>, \<open>InvokeSubgraph\<close>) follow the vendored
  sources; the memory planner and the operators of a model are the argument \<open>lib\<close>, and nothing is
  assumed of them here. Tensors are regions of the one tensor arena, so that input, output and
  scratch memory may overlap as the planner wants. A member access through a null pointer is \<open>None\<close>.
\<close>

section \<open>Size of the arena\<close>

text \<open>The \<open>INCLUDE_MODEL\<close> and \<open>INLCUDE_MODEL\<close> definitions of a project's \<open>Makefile\<close>.\<close>

record build =
  MODEL_PDTI8 :: bool
  MODEL_MICRO_SPEECH :: bool
  MODEL_MAGIC_WAND :: bool
  MODEL_MNV2 :: bool
  MODEL_HPS :: bool
  TINY_ANOMD :: bool
  TINY_IMGC :: bool
  TINY_KWS :: bool
  TINY_VWW :: bool
  MODEL_MNIST_NN :: bool
  ALL_TFLM_EXAMPLES :: bool

fun const_max :: "int \<Rightarrow> int list \<Rightarrow> int" where
  "const_max x [] = x"
| "const_max x (y # rest) = const_max (if x > y then x else y) rest"

definition kTensorArenaSize :: "build \<Rightarrow> int" where
  "kTensorArenaSize b =
     (let sizes =
        (if MODEL_PDTI8 b then [81 * 1024] else []) @
        (if MODEL_MICRO_SPEECH b then [7 * 1024] else []) @
        (if MODEL_MAGIC_WAND b then [5 * 1024] else []) @
        (if MODEL_MNV2 b then [800 * 1024] else []) @
        (if MODEL_HPS b then [256 * 1024] else []) @
        (if TINY_ANOMD b then [3 * 1024] else []) @
        (if TINY_IMGC b then [53 * 1024] else []) @
        (if TINY_KWS b then [23 * 1024] else []) @
        (if TINY_VWW b then [99 * 1024] else []) @
        (if MODEL_MNIST_NN b then [256 * 1024] else []) @ [0]
      in const_max (hd sizes) (tl sizes))"

section \<open>State\<close>

text \<open>
  A tensor: its dimensions, the position of \<open>data\<close> in the arena and \<open>bytes\<close>. The interpreter:
  its model, whether \<open>initialization_status_\<close> is \<open>kTfLiteOk\<close>, and how often it has tried to
  allocate; before it has done so there are no tensors.
\<close>

datatype TfLiteStatus = kTfLiteOk | kTfLiteError | kTfLiteOther i32

record TfLiteTensor =
  dims :: "i32 list"
  data_at :: int
  bytes :: i32

record MicroInterpreter =
  model :: "i8 list"
  initialized_ok :: bool
  tensors_allocated :: bool
  attempts :: nat
  input_tensors :: "TfLiteTensor list"
  output_tensors :: "TfLiteTensor list"

record tfl_state = fb_state +
  tfl_initialized :: bool
  profiler :: MicroProfiler
  interpreter :: "MicroInterpreter option"
  tensor_arena :: "i8 list"

text \<open>
  The library: \<open>allocate\<close> is the \<open>n\<close>-th attempt to allocate the tensors of a model, \<open>operators\<close> the
  nodes of its graph, \<open>destroy\<close> the destructor of the interpreter; all act on the whole machine.
\<close>

record allocation =
  status :: TfLiteStatus
  started :: bool
  inputs :: "TfLiteTensor list"
  outputs :: "TfLiteTensor list"

record 's node =
  op_name :: string
  op_invoke :: "'s \<Rightarrow> (TfLiteStatus \<times> 's) option"

record 's tflm =
  allocate :: "i8 list \<Rightarrow> nat \<Rightarrow> 's \<Rightarrow> (allocation \<times> 's) option"
  operators :: "i8 list \<Rightarrow> 's node list"
  destroy :: "MicroInterpreter \<Rightarrow> 's \<Rightarrow> 's option"

text \<open>The build options and the machine: \<open>NDEBUG\<close>, \<open>CONFIG_CPU_PERF_CSRS\<close>, \<open>HIDE_PROGRESS_DOTS\<close>, \<open>NPROFILE\<close>, the counters and the address of the arena.\<close>

record port =
  NDEBUG :: bool
  PERF_CSRS :: bool
  HIDE_DOTS :: bool
  NPROFILE :: bool
  cpu_clock :: csr_env
  arena_address :: i32

section \<open>The interpreter\<close>

definition AllocateTensors ::
  "'a tfl_state_scheme tflm \<Rightarrow> MicroInterpreter \<Rightarrow> 'a tfl_state_scheme \<Rightarrow>
   (TfLiteStatus \<times> MicroInterpreter \<times> 'a tfl_state_scheme) option" where
  "AllocateTensors lib ip s = do {
     (a, s) \<leftarrow> allocate lib (model ip) (attempts ip) s;
     let ip = ip\<lparr>attempts := attempts ip + 1, initialized_ok := initialized_ok ip \<and> started a,
       tensors_allocated := (status a = kTfLiteOk), input_tensors := inputs a, output_tensors := outputs a\<rparr>;
     Some (status a, ip, s) }"

fun InvokeSubgraph ::
  "port \<Rightarrow> 'a tfl_state_scheme node list \<Rightarrow> int \<Rightarrow> 'a tfl_state_scheme \<Rightarrow> (TfLiteStatus \<times> 'a tfl_state_scheme) option" where
  "InvokeSubgraph pt [] i st = Some (kTfLiteOk, st)"
| "InvokeSubgraph pt (node # nodes) i st = do {
     (event_handle, p, st) \<leftarrow> ProgressProfiler_BeginEvent (HIDE_DOTS pt) (cpu_clock pt) (op_name node) (profiler st, st);
     (invoke_status, st) \<leftarrow> op_invoke node (st\<lparr>profiler := p\<rparr>);
     st \<leftarrow> (if invoke_status = kTfLiteError
       then MicroPrintf [Lit ''Node '', Str (op_name node), Lit '' (number '', Int32 (word_of_int i),
              Lit '') failed to invoke with status '', Int32 1] st
       else Some st);
     (p, st) \<leftarrow> EndEvent (NDEBUG pt) (cpu_clock pt) event_handle (profiler st, st);
     let st = st\<lparr>profiler := p\<rparr>;
     if invoke_status \<noteq> kTfLiteOk then Some (invoke_status, st)
     else InvokeSubgraph pt nodes (i + 1) st }"

definition Invoke ::
  "port \<Rightarrow> 'a tfl_state_scheme tflm \<Rightarrow> 'a tfl_state_scheme \<Rightarrow> (TfLiteStatus \<times> 'a tfl_state_scheme) option" where
  "Invoke pt lib s = do {
     ip \<leftarrow> interpreter s;
     if \<not> initialized_ok ip then do {
       s \<leftarrow> MicroPrintf [Lit (''Invoke() called after initialization failed'' @ [LF])] s;
       Some (kTfLiteError, s) }
     else do {
       (status, ip, s) \<leftarrow> (if tensors_allocated ip then Some (kTfLiteOk, ip, s) else AllocateTensors lib ip s);
       let s = s\<lparr>interpreter := Some ip\<rparr>;
       if status \<noteq> kTfLiteOk then Some (status, s)
       else InvokeSubgraph pt (operators lib (model ip)) 0 s } }"

definition input0 :: "'a tfl_state_scheme \<Rightarrow> TfLiteTensor option" where
  "input0 s = do { ip \<leftarrow> interpreter s; rd (input_tensors ip) 0 }"

definition output0 :: "'a tfl_state_scheme \<Rightarrow> TfLiteTensor option" where
  "output0 s = do { ip \<leftarrow> interpreter s; rd (output_tensors ip) 0 }"

section \<open>tflite.cc\<close>

text \<open>The hooks of \<open>proj_tflite.cc\<close>.\<close>

definition tflite_preload :: "i8 list \<Rightarrow> i32 \<Rightarrow> 's \<Rightarrow> 's" where
  "tflite_preload model_data model_length s = s"

definition tflite_postload :: "'s \<Rightarrow> 's" where
  "tflite_postload s = s"

definition tflite_init :: "'a tfl_state_scheme \<Rightarrow> 'a tfl_state_scheme option" where
  "tflite_init s =
     (if tfl_initialized s then Some s
      else do {
        let s = s\<lparr>tfl_initialized := True\<rparr>;
        s \<leftarrow> MicroPrintf [Lit ''Error_reporter OK!''] s;
        Some (s\<lparr>profiler := ClearEvents (profiler s)\<rparr>) })"

definition drop_interpreter :: "'a tfl_state_scheme tflm \<Rightarrow> 'a tfl_state_scheme \<Rightarrow> 'a tfl_state_scheme option" where
  "drop_interpreter lib s =
     (case interpreter s of
        Some old \<Rightarrow> do { s \<leftarrow> destroy lib old s; Some (s\<lparr>interpreter := None\<rparr>) }
      | None \<Rightarrow> Some s)"

definition new_interpreter :: "i8 list \<Rightarrow> MicroInterpreter" where
  "new_interpreter model_data = \<lparr>model = model_data, initialized_ok = True, tensors_allocated = False, attempts = 0,
     input_tensors = [], output_tensors = []\<rparr>"

definition print_dim :: "TfLiteTensor \<Rightarrow> int \<Rightarrow> 'a console_scheme \<Rightarrow> 'a console_scheme option" where
  "print_dim input ii s = do { d \<leftarrow> rd (dims input) ii; Some (print ('' '' @ dec (sint d)) s) }"

definition report_dims :: "TfLiteTensor \<Rightarrow> 'a console_scheme \<Rightarrow> 'a console_scheme option" where
  "report_dims input s = do {
     let s = print (''Input: '' @ dec (sint (bytes input)) @ '' bytes, '' @ dec (int (length (dims input))) @ '' dims:'') s;
     s \<leftarrow> cfor 0 (int (length (dims input))) 1 (print_dim input) s;
     Some (puts [LF] s) }"

definition tflite_load_model ::
  "'a tfl_state_scheme tflm \<Rightarrow> i8 list \<Rightarrow> i32 \<Rightarrow> 'a tfl_state_scheme \<Rightarrow> 'a tfl_state_scheme option" where
  "tflite_load_model lib model_data model_length s = do {
     s \<leftarrow> tflite_init s;
     s \<leftarrow> drop_interpreter lib (tflite_preload model_data model_length s);
     (allocate_status, ip, s) \<leftarrow> AllocateTensors lib (new_interpreter model_data) s;
     let s = s\<lparr>interpreter := Some ip\<rparr>;
     if allocate_status \<noteq> kTfLiteOk then MicroPrintf [Lit ''AllocateTensors() failed''] s
     else do {
       input \<leftarrow> input0 s;
       s \<leftarrow> report_dims input s;
       Some (tflite_postload s) } }"

text \<open>\<open>%p\<close> of newlib.\<close>

definition pointer :: "port \<Rightarrow> int \<Rightarrow> string" where
  "pointer pt p = ''0x'' @ hex (uint (arena_address pt + word_of_int p))"

definition report_input :: "port \<Rightarrow> string \<Rightarrow> TfLiteTensor \<Rightarrow> 'a console_scheme \<Rightarrow> 'a console_scheme" where
  "report_input pt done input = print (done @ '' '' @ dec (sint (bytes input)) @ '' bytes at '' @ pointer pt (data_at input) @ [LF])"

text \<open>\<open>memset\<close> and \<open>memcpy\<close> into the input; the \<open>float\<close> variants differ in the type of the pointer only.\<close>

definition tflite_set_input_zeros :: "port \<Rightarrow> 'a tfl_state_scheme \<Rightarrow> 'a tfl_state_scheme option" where
  "tflite_set_input_zeros pt s = do {
     input \<leftarrow> input0 s;
     arena \<leftarrow> memcpy (tensor_arena s) (data_at input) (replicate (unat (bytes input)) 0) (uint (bytes input));
     Some (report_input pt ''Zeroed'' input (s\<lparr>tensor_arena := arena\<rparr>)) }"

definition tflite_set_input_zeros_float :: "port \<Rightarrow> 'a tfl_state_scheme \<Rightarrow> 'a tfl_state_scheme option" where
  "tflite_set_input_zeros_float pt s = do {
     input \<leftarrow> input0 s;
     arena \<leftarrow> memcpy (tensor_arena s) (data_at input) (replicate (unat (bytes input)) 0) (uint (bytes input));
     Some (report_input pt ''Zeroed'' input (s\<lparr>tensor_arena := arena\<rparr>)) }"

definition tflite_set_input :: "port \<Rightarrow> i8 list \<Rightarrow> 'a tfl_state_scheme \<Rightarrow> 'a tfl_state_scheme option" where
  "tflite_set_input pt data s = do {
     input \<leftarrow> input0 s;
     arena \<leftarrow> memcpy (tensor_arena s) (data_at input) data (uint (bytes input));
     Some (report_input pt ''Copied'' input (s\<lparr>tensor_arena := arena\<rparr>)) }"

definition tflite_set_input_unsigned :: "port \<Rightarrow> i8 list \<Rightarrow> 'a tfl_state_scheme \<Rightarrow> 'a tfl_state_scheme option" where
  "tflite_set_input_unsigned pt data s = do {
     input \<leftarrow> input0 s;
     arena \<leftarrow> cfor 0 (uint (bytes input)) 1 (\<lambda>i arena. do {
       d \<leftarrow> rd data i;
       wr arena (data_at input + i) (word_of_int (uint d - 128)) }) (tensor_arena s);
     Some (report_input pt ''Set'' input (s\<lparr>tensor_arena := arena\<rparr>)) }"

definition tflite_set_input_float :: "port \<Rightarrow> i8 list \<Rightarrow> 'a tfl_state_scheme \<Rightarrow> 'a tfl_state_scheme option" where
  "tflite_set_input_float pt data s = do {
     input \<leftarrow> input0 s;
     arena \<leftarrow> memcpy (tensor_arena s) (data_at input) data (uint (bytes input));
     Some (report_input pt ''Copied'' input (s\<lparr>tensor_arena := arena\<rparr>)) }"

definition tflite_randomize_input :: "port \<Rightarrow> i64 \<Rightarrow> 'a tfl_state_scheme \<Rightarrow> 'a tfl_state_scheme option" where
  "tflite_randomize_input pt seed s = do {
     input \<leftarrow> input0 s;
     (arena, r) \<leftarrow> cfor 0 (uint (bytes input)) 1 (\<lambda>i (arena, r). do {
       let (v, r) = next_pseudo_random r;
       arena \<leftarrow> wr arena (data_at input + i) (ucast v);
       Some (arena, r) }) (tensor_arena s, seed);
     Some (report_input pt ''Set'' input (s\<lparr>tensor_arena := arena\<rparr>)) }"

text \<open>The index is a \<open>size_t\<close> of 32 bits.\<close>

definition grid_byte :: "i32 \<Rightarrow> i32 \<Rightarrow> i8" where
  "grid_byte y x = (if (y AND 0x20) AND (x AND 0x20) \<noteq> 0 then - 128 else 127)"

definition set_grid_byte :: "int \<Rightarrow> i32 \<Rightarrow> i32 \<Rightarrow> i32 \<Rightarrow> i8 list \<Rightarrow> i8 list option" where
  "set_grid_byte data width y x arena = wr arena (data + uint (x + y * width)) (grid_byte y x)"

definition tflite_set_grid_input :: "port \<Rightarrow> 'a tfl_state_scheme \<Rightarrow> 'a tfl_state_scheme option" where
  "tflite_set_grid_input pt s = do {
     input \<leftarrow> input0 s;
     height \<leftarrow> rd (dims input) 1;
     width \<leftarrow> rd (dims input) 2;
     arena \<leftarrow> cfor 0 (uint height) 1 (\<lambda>y. cfor 0 (uint width) 1 (\<lambda>x.
       set_grid_byte (data_at input) width (word_of_int y) (word_of_int x))) (tensor_arena s);
     Some (report_input pt ''Set'' input (s\<lparr>tensor_arena := arena\<rparr>)) }"

text \<open>The pointers into the arena.\<close>

definition tflite_get_output :: "'a tfl_state_scheme \<Rightarrow> int option" where
  "tflite_get_output s = map_option data_at (output0 s)"

definition tflite_get_output_float :: "'a tfl_state_scheme \<Rightarrow> int option" where
  "tflite_get_output_float s = map_option data_at (output0 s)"

definition get_input :: "'a tfl_state_scheme \<Rightarrow> int option" where
  "get_input s = map_option data_at (input0 s)"

definition report_cycles :: "port \<Rightarrow> i64 \<Rightarrow> 'a tfl_state_scheme \<Rightarrow> 'a tfl_state_scheme option" where
  "report_cycles pt cycles s = do {
     s \<leftarrow> (if NPROFILE pt then Some s
       else do {
         let s = print [LF] s;
         s \<leftarrow> LogCsv (profiler s) s;
         perf_print_all_counters (PERF_CSRS pt) (cpu_clock pt) s });
     let s = perf_print_value cycles s;
     Some (print ('' cycles total'' @ [LF]) s) }"

definition tflite_classify ::
  "port \<Rightarrow> 'a tfl_state_scheme tflm \<Rightarrow> 'a tfl_state_scheme \<Rightarrow> 'a tfl_state_scheme option" where
  "tflite_classify pt lib s = do {
     let s = s\<lparr>profiler := ClearEvents (profiler s)\<rparr>;
     s \<leftarrow> perf_reset_all_counters (PERF_CSRS pt) (cpu_clock pt) s;
     (start, s) \<leftarrow> perf_get_mcycle64 (cpu_clock pt) s;
     (status, s) \<leftarrow> Invoke pt lib s;
     let s = (if status \<noteq> kTfLiteOk then puts ''Invoke failed.'' s else s);
     (stop, s) \<leftarrow> perf_get_mcycle64 (cpu_clock pt) s;
     report_cycles pt (stop - start) s }"

end
