(* ===== verification/Model_Tests.thy ===== *)
theory Model_Tests
  imports Tflite Mnist_Images
begin

text \<open>
  The test programs of the models, \<open>common/src/models\<close>: each loads its model and has a menu that
  classifies test inputs and compares the results with the expected ones (\<open>golden\<close>). A \<open>site\<close> is
  what they are built for: the port, the library, the contents of the arrays that the build
  generates from data files (\<open>blob\<close>, by name), and the framebuffer, if the SoC has one
  (\<open>CSR_VIDEO_FRAMEBUFFER_BASE\<close>). Flushing the caches has no effect on the modelled state.
\<close>

section \<open>What the test programs share\<close>

record board =
  FB_WIDTH :: i32
  FB_HEIGHT :: i32
  FB_BASE_ADDR :: i32
  BigFont :: "i8 list"

record 's site =
  the_port :: port
  the_lib :: "'s tflm"
  blob :: "string \<Rightarrow> i8 list"
  screen :: "board option"

record model_state = tfl_state +
  loaded_model :: int

definition load_blob :: "'a tfl_state_scheme site \<Rightarrow> string \<Rightarrow> 'a tfl_state_scheme \<Rightarrow> 'a tfl_state_scheme option" where
  "load_blob w name = tflite_load_model (the_lib w) (blob w name) (word_of_int (int (length (blob w name))))"

abbreviation classify_on :: "'a tfl_state_scheme site \<Rightarrow> 'a tfl_state_scheme \<Rightarrow> 'a tfl_state_scheme option" where
  "classify_on w \<equiv> tflite_classify (the_port w) (the_lib w)"

text \<open>\<open>output[k]\<close> of \<open>int8_t* output = tflite_get_output()\<close>, and the raw bits of \<open>float\<close> number \<open>k\<close>.\<close>

definition output_byte :: "int \<Rightarrow> 'a tfl_state_scheme \<Rightarrow> i8 option" where
  "output_byte k s = do { output \<leftarrow> tflite_get_output s; rd (tensor_arena s) (output + k) }"

definition output_bits :: "int \<Rightarrow> 'a tfl_state_scheme \<Rightarrow> i32 option" where
  "output_bits k s = do { output \<leftarrow> tflite_get_output_float s; load32 (tensor_arena s) (output + 4 * k) }"

definition char_bytes :: "string \<Rightarrow> i8 list" where
  "char_bytes str = map (\<lambda>c. of_nat (of_char c)) str"

text \<open>
  The blocks under \<open>#ifdef CSR_VIDEO_FRAMEBUFFER_BASE\<close>: a caption, the input as a picture of
  \<open>n\<close> by \<open>n\<close> pixels, a message of at most 255 characters.
\<close>

definition show_on_screen ::
  "board option \<Rightarrow> string \<Rightarrow> i32 \<Rightarrow> i32 \<Rightarrow> i8 list \<Rightarrow> string \<Rightarrow> 'a fb_state_scheme \<Rightarrow> 'a fb_state_scheme option" where
  "show_on_screen sc caption n channels data msg s =
     (case sc of
        None \<Rightarrow> Some s
      | Some b \<Rightarrow> do {
          s \<leftarrow> fb_clear (FB_WIDTH b) (FB_HEIGHT b) s;
          s \<leftarrow> fb_draw_string (FB_WIDTH b) (FB_HEIGHT b) (BigFont b) 0 10 0x007FFF00 (char_bytes caption) s;
          (r, fb) \<leftarrow> fb_draw_buffer (FB_WIDTH b) 0 50 n n (Some data) channels (fb_mem s);
          fb_draw_string (FB_WIDTH b) (FB_HEIGHT b) (BigFont b) 0 220 0x007FFF00 (char_bytes (take 255 msg)) (s\<lparr>fb_mem := fb\<rparr>) })"

definition init_screen :: "board option \<Rightarrow> 'a fb_state_scheme \<Rightarrow> 'a fb_state_scheme option" where
  "init_screen sc s =
     (case sc of
        None \<Rightarrow> Some s
      | Some b \<Rightarrow> fb_init (FB_WIDTH b) (FB_HEIGHT b) (FB_BASE_ADDR b) (BigFont b) s)"

text \<open>The loop over the golden tests: each says whether it failed.\<close>

fun golden_loop :: "(int \<Rightarrow> 't \<Rightarrow> 's \<Rightarrow> (bool \<times> 's) option) \<Rightarrow> int \<Rightarrow> 't list \<Rightarrow> bool \<Rightarrow> 's \<Rightarrow> (bool \<times> 's) option" where
  "golden_loop f i [] failed s = Some (failed, s)"
| "golden_loop f i (t # ts) failed s = do {
     (bad, s) \<leftarrow> f i t s;
     golden_loop f (i + 1) ts (failed \<or> bad) s }"

definition golden_verdict :: "bool \<Rightarrow> 'a console_scheme \<Rightarrow> 'a console_scheme" where
  "golden_verdict failed s =
     (if failed then puts ''FAIL Golden tests failed'' s else puts ''OK   Golden tests passed'' s)"

definition golden_failed :: "int \<Rightarrow> string \<Rightarrow> string \<Rightarrow> string" where
  "golden_failed i actual golden =
     ''*** Golden test '' @ dec i @ '' failed: '' @ actual @ '' (actual) != '' @ golden @ '' (expected))'' @ [LF]"

section \<open>pdti8.cc\<close>

definition pdti8_init :: "'a tfl_state_scheme site \<Rightarrow> 'a tfl_state_scheme \<Rightarrow> 'a tfl_state_scheme option" where
  "pdti8_init w = load_blob w ''model_pdti8''"

definition pdti8_classify :: "'a tfl_state_scheme site \<Rightarrow> 'a tfl_state_scheme \<Rightarrow> (int \<times> 'a tfl_state_scheme) option" where
  "pdti8_classify w s = do {
     let s = print (''Running pdti8'' @ [LF]) s;
     s \<leftarrow> classify_on w s;
     o1 \<leftarrow> output_byte 1 s;
     o0 \<leftarrow> output_byte 0 s;
     Some (sint o1 - sint o0, s) }"

definition pdti8_classify_zeros :: "'a tfl_state_scheme site \<Rightarrow> 'a tfl_state_scheme \<Rightarrow> 'a tfl_state_scheme option" where
  "pdti8_classify_zeros w s = do {
     s \<leftarrow> tflite_set_input_zeros (the_port w) s;
     (result, s) \<leftarrow> pdti8_classify w s;
     Some (print (''  result is '' @ dec result @ [LF]) s) }"

definition pdti8_classify_no_person :: "'a tfl_state_scheme site \<Rightarrow> 'a tfl_state_scheme \<Rightarrow> 'a tfl_state_scheme option" where
  "pdti8_classify_no_person w s = do {
     let s = puts ''Classify Not Person'' s;
     s \<leftarrow> tflite_set_input (the_port w) (blob w ''g_no_person_data'') s;
     (result, s) \<leftarrow> pdti8_classify w s;
     let s = print (''  result is '' @ dec result @ [LF]) s;
     show_on_screen (screen w) ''Classify Not Person'' 96 1 (blob w ''g_no_person_data'') (''Result is '' @ dec result) s }"

definition pdti8_classify_person :: "'a tfl_state_scheme site \<Rightarrow> 'a tfl_state_scheme \<Rightarrow> 'a tfl_state_scheme option" where
  "pdti8_classify_person w s = do {
     let s = puts ''Classify Person'' s;
     s \<leftarrow> tflite_set_input (the_port w) (blob w ''g_person_data'') s;
     (result, s) \<leftarrow> pdti8_classify w s;
     let s = print (''  result is '' @ dec result @ [LF]) s;
     show_on_screen (screen w) ''Classify Person'' 96 1 (blob w ''g_person_data'') (''Result is '' @ dec result) s }"

definition pdti8_golden_results :: "int list" where
  "pdti8_golden_results = [- 144, 50, 226]"

definition pdti8_compare :: "int \<Rightarrow> int \<times> int \<Rightarrow> 'a console_scheme \<Rightarrow> (bool \<times> 'a console_scheme) option" where
  "pdti8_compare i = (\<lambda>(actual, golden) s.
     if actual \<noteq> golden then Some (True, print (golden_failed i (dec actual) (dec golden)) s) else Some (False, s))"

definition result_message :: "int \<Rightarrow> int \<Rightarrow> string" where
  "result_message actual golden = ''Result is '' @ dec actual @ '', Expected is '' @ dec golden"

definition pdti8_golden_tests :: "'a tfl_state_scheme site \<Rightarrow> 'a tfl_state_scheme \<Rightarrow> 'a tfl_state_scheme option" where
  "pdti8_golden_tests w s = do {
     s \<leftarrow> tflite_set_input_zeros (the_port w) s;
     (actual0, s) \<leftarrow> pdti8_classify w s;
     s \<leftarrow> tflite_set_input (the_port w) (blob w ''g_no_person_data'') s;
     (actual1, s) \<leftarrow> pdti8_classify w s;
     s \<leftarrow> show_on_screen (screen w) ''Classify Not Person'' 96 1 (blob w ''g_no_person_data'')
       (result_message actual1 (pdti8_golden_results ! 1)) s;
     s \<leftarrow> tflite_set_input (the_port w) (blob w ''g_person_data'') s;
     (actual2, s) \<leftarrow> pdti8_classify w s;
     s \<leftarrow> show_on_screen (screen w) ''Classify Person'' 96 1 (blob w ''g_person_data'')
       (result_message actual2 (pdti8_golden_results ! 2)) s;
     (failed, s) \<leftarrow> golden_loop pdti8_compare 0 (zip [actual0, actual1, actual2] pdti8_golden_results) False s;
     Some (golden_verdict failed s) }"

definition PDTI8_MENU :: "'a tfl_state_scheme site \<Rightarrow> 'a tfl_state_scheme Menu" where
  "PDTI8_MENU w = \<lparr>title = ''Tests for pdti8 model'', prompt = ''pdti8'',
     items =
       [MENU_ITEM (CHR ''1'') ''Run with zeros input'' (pdti8_classify_zeros w),
        MENU_ITEM (CHR ''2'') ''Run with no-person input'' (pdti8_classify_no_person w),
        MENU_ITEM (CHR ''3'') ''Run with person input'' (pdti8_classify_person w),
        MENU_ITEM (CHR ''g'') ''Run golden tests (check for expected outputs)'' (pdti8_golden_tests w)]
       @ MENU_END\<rparr>"

definition pdti8_menu :: "'a tfl_state_scheme site \<Rightarrow> 'a tfl_state_scheme \<Rightarrow> 'a tfl_state_scheme option" where
  "pdti8_menu w s = do {
     s \<leftarrow> pdti8_init w s;
     s \<leftarrow> init_screen (screen w) s;
     menu_run (PDTI8_MENU w) s }"

section \<open>mnist\_nn.cc\<close>

record golden_test_nn =
  nn_data :: "i8 list"
  nn_expected :: i8

definition mnist_golden_test :: "golden_test_nn list" where
  "mnist_golden_test =
     [\<lparr>nn_data = image_0, nn_expected = 7\<rparr>, \<lparr>nn_data = image_1, nn_expected = 2\<rparr>, \<lparr>nn_data = image_2, nn_expected = 1\<rparr>]"

definition mnist_nn_init :: "'a tfl_state_scheme site \<Rightarrow> 'a tfl_state_scheme \<Rightarrow> 'a tfl_state_scheme option" where
  "mnist_nn_init w = load_blob w ''model_mnist_nn''"

text \<open>The loop over the ten scores; the state is \<open>(pred_score, pred_idx)\<close>.\<close>

definition mnist_predict :: "'a tfl_state_scheme \<Rightarrow> int option" where
  "mnist_predict s = do {
     (pred_score, pred_idx) \<leftarrow> cfor 0 10 1 (\<lambda>i (pred_score, pred_idx). do {
       v \<leftarrow> output_byte i s;
       Some (if sint v > pred_score then (sint v, i) else (pred_score, pred_idx)) }) (- 300, - 1);
     Some pred_idx }"

definition mnist_nn_classify :: "'a tfl_state_scheme site \<Rightarrow> 'a tfl_state_scheme \<Rightarrow> (int \<times> 'a tfl_state_scheme) option" where
  "mnist_nn_classify w s = do {
     let s = print (''Running mnist_nn'' @ [LF]) s;
     s \<leftarrow> classify_on w s;
     pred_idx \<leftarrow> mnist_predict s;
     Some (pred_idx, s) }"

definition mnist_golden_one ::
  "'a tfl_state_scheme site \<Rightarrow> int \<Rightarrow> golden_test_nn \<Rightarrow> 'a tfl_state_scheme \<Rightarrow> (bool \<times> 'a tfl_state_scheme) option" where
  "mnist_golden_one w i t s = do {
     s \<leftarrow> tflite_set_input_unsigned (the_port w) (nn_data t) s;
     (actual, s) \<leftarrow> mnist_nn_classify w s;
     let golden = sint (nn_expected t);
     let s = (if actual \<noteq> golden then print (golden_failed i (dec actual) (dec golden)) s else s);
     s \<leftarrow> show_on_screen (screen w) (''Run golden tests '' @ dec i) 160 3 (nn_data t) (result_message actual golden) s;
     Some (actual \<noteq> golden, s) }"

definition mnist_golden_tests :: "'a tfl_state_scheme site \<Rightarrow> 'a tfl_state_scheme \<Rightarrow> 'a tfl_state_scheme option" where
  "mnist_golden_tests w s = do {
     (failed, s) \<leftarrow> golden_loop (mnist_golden_one w) 0 mnist_golden_test False s;
     Some (golden_verdict failed s) }"

definition MNIST_MENU :: "'a tfl_state_scheme site \<Rightarrow> 'a tfl_state_scheme Menu" where
  "MNIST_MENU w = \<lparr>title = ''Tests for mnist_nn model'', prompt = ''mnist_nn'',
     items = [MENU_ITEM (CHR ''g'') ''Run golden tests (check for expected outputs)'' (mnist_golden_tests w)] @ MENU_END\<rparr>"

definition mnist_nn_menu :: "'a tfl_state_scheme site \<Rightarrow> 'a tfl_state_scheme \<Rightarrow> 'a tfl_state_scheme option" where
  "mnist_nn_menu w s = do {
     s \<leftarrow> mnist_nn_init w s;
     s \<leftarrow> init_screen (screen w) s;
     menu_run (MNIST_MENU w) s }"

section \<open>mnv2.cc\<close>

definition mnv2_golden_tests_data :: "(string \<times> int) list" where
  "mnv2_golden_tests_data =
     [(''input_00001_7281'', - 148), (''input_00001_7425'', 68), (''input_00002_2532'', - 112),
      (''input_00002_25869'', 134), (''input_00004_970'', 128)]"

definition mnv2_init :: "'a tfl_state_scheme site \<Rightarrow> 'a tfl_state_scheme \<Rightarrow> 'a tfl_state_scheme option" where
  "mnv2_init w = load_blob w ''model_mobilenetv2_160_035''"

definition mnv2_classify :: "'a tfl_state_scheme site \<Rightarrow> 'a tfl_state_scheme \<Rightarrow> (int \<times> 'a tfl_state_scheme) option" where
  "mnv2_classify w s = do {
     let s = print (''Running mnv2'' @ [LF]) s;
     s \<leftarrow> classify_on w s;
     o1 \<leftarrow> output_byte 1 s;
     o0 \<leftarrow> output_byte 0 s;
     Some (sint o1 - sint o0, s) }"

definition mnv2_classify_zeros :: "'a tfl_state_scheme site \<Rightarrow> 'a tfl_state_scheme \<Rightarrow> 'a tfl_state_scheme option" where
  "mnv2_classify_zeros w s = do {
     s \<leftarrow> tflite_set_input_zeros (the_port w) s;
     (result, s) \<leftarrow> mnv2_classify w s;
     Some (print (''Result is '' @ dec result @ [LF]) s) }"

text \<open>\<open>do_classify_0\<close>, \<open>do_classify_1\<close> and \<open>do_classify_special\<close> differ in their input and its caption.\<close>

definition mnv2_classify_input ::
  "string \<Rightarrow> string \<Rightarrow> 'a tfl_state_scheme site \<Rightarrow> 'a tfl_state_scheme \<Rightarrow> 'a tfl_state_scheme option" where
  "mnv2_classify_input name caption w s = do {
     s \<leftarrow> tflite_set_input_unsigned (the_port w) (blob w name) s;
     (result, s) \<leftarrow> mnv2_classify w s;
     let s = print (''Result is '' @ dec result @ [LF]) s;
     show_on_screen (screen w) caption 160 3 (blob w name) (''Result is '' @ dec result) s }"

definition mnv2_classify_0 :: "'a tfl_state_scheme site \<Rightarrow> 'a tfl_state_scheme \<Rightarrow> 'a tfl_state_scheme option" where
  "mnv2_classify_0 = mnv2_classify_input (fst (mnv2_golden_tests_data ! 0)) ''Run test 0''"

definition mnv2_classify_1 :: "'a tfl_state_scheme site \<Rightarrow> 'a tfl_state_scheme \<Rightarrow> 'a tfl_state_scheme option" where
  "mnv2_classify_1 = mnv2_classify_input (fst (mnv2_golden_tests_data ! 1)) ''Run test 1''"

definition mnv2_classify_special :: "'a tfl_state_scheme site \<Rightarrow> 'a tfl_state_scheme \<Rightarrow> 'a tfl_state_scheme option" where
  "mnv2_classify_special = mnv2_classify_input ''input_00001_18027'' ''Run special test''"

definition mnv2_golden_one ::
  "'a tfl_state_scheme site \<Rightarrow> int \<Rightarrow> string \<times> int \<Rightarrow> 'a tfl_state_scheme \<Rightarrow> (bool \<times> 'a tfl_state_scheme) option" where
  "mnv2_golden_one w i = (\<lambda>(name, golden) s. do {
     s \<leftarrow> tflite_set_input_unsigned (the_port w) (blob w name) s;
     (actual, s) \<leftarrow> mnv2_classify w s;
     let s = (if actual \<noteq> golden then print (golden_failed i (dec actual) (dec golden)) s else s);
     s \<leftarrow> show_on_screen (screen w) (''Run golden tests '' @ dec i) 160 3 (blob w name) (result_message actual golden) s;
     Some (actual \<noteq> golden, s) })"

definition mnv2_golden_tests :: "'a tfl_state_scheme site \<Rightarrow> 'a tfl_state_scheme \<Rightarrow> 'a tfl_state_scheme option" where
  "mnv2_golden_tests w s = do {
     (failed, s) \<leftarrow> golden_loop (mnv2_golden_one w) 0 mnv2_golden_tests_data False s;
     Some (golden_verdict failed s) }"

definition MNV2_MENU :: "'a tfl_state_scheme site \<Rightarrow> 'a tfl_state_scheme Menu" where
  "MNV2_MENU w = \<lparr>title = ''Tests for mnv2 model'', prompt = ''mnv2'',
     items =
       [MENU_ITEM (CHR ''0'') ''Run test 0'' (mnv2_classify_0 w),
        MENU_ITEM (CHR ''1'') ''Run test 1'' (mnv2_classify_1 w),
        MENU_ITEM (CHR ''s'') ''Run special test'' (mnv2_classify_special w),
        MENU_ITEM (CHR ''g'') ''Run golden tests (check for expected outputs)'' (mnv2_golden_tests w),
        MENU_ITEM (CHR ''z'') ''Run with zeros input'' (mnv2_classify_zeros w)]
       @ MENU_END\<rparr>"

definition mnv2_menu :: "'a tfl_state_scheme site \<Rightarrow> 'a tfl_state_scheme \<Rightarrow> 'a tfl_state_scheme option" where
  "mnv2_menu w s = do {
     s \<leftarrow> mnv2_init w s;
     s \<leftarrow> init_screen (screen w) s;
     menu_run (MNV2_MENU w) s }"

end
