(* ===== verification/Models.thy ===== *)
theory Models
  imports Model_Tests Soft_Float
begin

text \<open>
  The test programs of three more models: HPS, magic wand and micro speech. Those of MLCommons Tiny
  and the menu of all models are in \<open>Tiny_Models\<close>.
\<close>

section \<open>hps\_model.cc\<close>

text \<open>The initializers load a model and note which; the note is taken whether or not it could be loaded.\<close>

definition hps_init ::
  "string \<Rightarrow> string \<Rightarrow> int \<Rightarrow> 'a model_state_scheme site \<Rightarrow> 'a model_state_scheme \<Rightarrow> 'a model_state_scheme option" where
  "hps_init text name k w s = do {
     let s = puts text s;
     s \<leftarrow> load_blob w name s;
     Some (s\<lparr>loaded_model := k\<rparr>) }"

definition do_init_09_20 :: "'a model_state_scheme site \<Rightarrow> 'a model_state_scheme \<Rightarrow> 'a model_state_scheme option" where
  "do_init_09_20 = hps_init ''Loading HPS 09_20 model'' ''hps_model_2021_09_20_tiled'' 0"

definition do_init_01_05_74ops :: "'a model_state_scheme site \<Rightarrow> 'a model_state_scheme \<Rightarrow> 'a model_state_scheme option" where
  "do_init_01_05_74ops = hps_init ''Loading HPS 01_05_74ops model'' ''hps_model_2022_01_05_74ops'' 1"

definition do_init_01_05_89ops :: "'a model_state_scheme site \<Rightarrow> 'a model_state_scheme \<Rightarrow> 'a model_state_scheme option" where
  "do_init_01_05_89ops = hps_init ''Loading HPS 01_05_89ops model'' ''hps_model_2022_01_05_89ops'' 2"

definition do_init_presence_2022017_96ops :: "'a model_state_scheme site \<Rightarrow> 'a model_state_scheme \<Rightarrow> 'a model_state_scheme option" where
  "do_init_presence_2022017_96ops =
     hps_init ''Loading Presence 20220117 96ops model'' ''presence_0_320_240_1_20220117_140437_201k_26k_96ops'' 3"

definition do_init_second_2022017_96ops :: "'a model_state_scheme site \<Rightarrow> 'a model_state_scheme \<Rightarrow> 'a model_state_scheme option" where
  "do_init_second_2022017_96ops =
     hps_init ''Loading Second 20220117 96ops model'' ''second_0_320_240_1_20220117_135512_201k_26k_96ops'' 4"

definition do_init_presence_20220415_96ops :: "'a model_state_scheme site \<Rightarrow> 'a model_state_scheme \<Rightarrow> 'a model_state_scheme option" where
  "do_init_presence_20220415_96ops =
     hps_init ''Loading Presence 20220415 96ops model'' ''presence_0_320_240_1_20220415_172145_201k_26k_96ops'' 5"

definition do_init_second_20220416_96ops :: "'a model_state_scheme site \<Rightarrow> 'a model_state_scheme \<Rightarrow> 'a model_state_scheme option" where
  "do_init_second_20220416_96ops =
     hps_init ''Loading Second 20220416 96ops model'' ''second_0_320_240_1_20220416_163802_201k_26k_96ops'' 6"

definition hps_classify :: "'a model_state_scheme site \<Rightarrow> 'a model_state_scheme \<Rightarrow> (int \<times> 'a model_state_scheme) option" where
  "hps_classify w s = do {
     s \<leftarrow> classify_on w s;
     output \<leftarrow> output_byte 0 s;
     Some (sint output, s) }"

text \<open>The inputs differ in their data only; the items of the menu print the result of one classification.\<close>

definition classify_image :: "string \<Rightarrow> 'a model_state_scheme site \<Rightarrow> 'a model_state_scheme \<Rightarrow> (int \<times> 'a model_state_scheme) option" where
  "classify_image name w s = do {
     s \<leftarrow> tflite_set_input_unsigned (the_port w) (blob w name) s;
     hps_classify w s }"

definition hps_item :: "('a model_state_scheme site \<Rightarrow> 'a model_state_scheme \<Rightarrow> (int \<times> 'a model_state_scheme) option) \<Rightarrow>
   'a model_state_scheme site \<Rightarrow> 'a model_state_scheme \<Rightarrow> 'a model_state_scheme option" where
  "hps_item f w s = do {
     (result, s) \<leftarrow> f w s;
     Some (print (''Result is '' @ dec result @ [LF]) s) }"

definition classify_cat :: "'a model_state_scheme site \<Rightarrow> 'a model_state_scheme \<Rightarrow> (int \<times> 'a model_state_scheme) option" where
  "classify_cat = classify_image ''cat_picture''"

definition do_classify_cat :: "'a model_state_scheme site \<Rightarrow> 'a model_state_scheme \<Rightarrow> 'a model_state_scheme option" where
  "do_classify_cat = hps_item classify_cat"

definition classify_diagram :: "'a model_state_scheme site \<Rightarrow> 'a model_state_scheme \<Rightarrow> (int \<times> 'a model_state_scheme) option" where
  "classify_diagram = classify_image ''diagram''"

definition do_classify_diagram :: "'a model_state_scheme site \<Rightarrow> 'a model_state_scheme \<Rightarrow> 'a model_state_scheme option" where
  "do_classify_diagram = hps_item classify_diagram"

definition classify_zeros :: "'a model_state_scheme site \<Rightarrow> 'a model_state_scheme \<Rightarrow> (int \<times> 'a model_state_scheme) option" where
  "classify_zeros w s = do {
     s \<leftarrow> tflite_set_input_zeros (the_port w) s;
     hps_classify w s }"

definition do_classify_zeros :: "'a model_state_scheme site \<Rightarrow> 'a model_state_scheme \<Rightarrow> 'a model_state_scheme option" where
  "do_classify_zeros = hps_item classify_zeros"

definition classify_hps_0 :: "'a model_state_scheme site \<Rightarrow> 'a model_state_scheme \<Rightarrow> (int \<times> 'a model_state_scheme) option" where
  "classify_hps_0 = classify_image ''hps_0''"

definition do_classify_hps_0 :: "'a model_state_scheme site \<Rightarrow> 'a model_state_scheme \<Rightarrow> 'a model_state_scheme option" where
  "do_classify_hps_0 = hps_item classify_hps_0"

definition classify_hps_1 :: "'a model_state_scheme site \<Rightarrow> 'a model_state_scheme \<Rightarrow> (int \<times> 'a model_state_scheme) option" where
  "classify_hps_1 = classify_image ''hps_1''"

definition do_classify_hps_1 :: "'a model_state_scheme site \<Rightarrow> 'a model_state_scheme \<Rightarrow> 'a model_state_scheme option" where
  "do_classify_hps_1 = hps_item classify_hps_1"

definition classify_hps_2 :: "'a model_state_scheme site \<Rightarrow> 'a model_state_scheme \<Rightarrow> (int \<times> 'a model_state_scheme) option" where
  "classify_hps_2 = classify_image ''hps_2''"

definition do_classify_hps_2 :: "'a model_state_scheme site \<Rightarrow> 'a model_state_scheme \<Rightarrow> 'a model_state_scheme option" where
  "do_classify_hps_2 = hps_item classify_hps_2"

record 's GoldenTest =
  test_fn :: "'s site \<Rightarrow> 's \<Rightarrow> (int \<times> 's) option"
  test_name :: string
  test_expected :: "int list"

definition hps_golden_test_list :: "'a model_state_scheme GoldenTest list" where
  "hps_golden_test_list =
     [\<lparr>test_fn = classify_cat, test_name = ''cat'', test_expected = [-77, -47, -47, -101, -117, -100, -108]\<rparr>,
      \<lparr>test_fn = classify_diagram, test_name = ''diagram'', test_expected = [-124, -123, -123, -124, -127, -117, -127]\<rparr>,
      \<lparr>test_fn = classify_zeros, test_name = ''zeroes'', test_expected = [-126, -128, -128, -128, -128, -109, -126]\<rparr>,
      \<lparr>test_fn = classify_hps_0, test_name = ''hps_0'', test_expected = [-119, -75, -75, -73, -125, -115, -128]\<rparr>,
      \<lparr>test_fn = classify_hps_1, test_name = ''hps_1'', test_expected = [124, 127, 127, 121, -119, 127, -128]\<rparr>,
      \<lparr>test_fn = classify_hps_2, test_name = ''hps_2'', test_expected = [126, 127, 127, 125, 127, 127, 127]\<rparr>]"

definition hps_golden_one ::
  "'a model_state_scheme site \<Rightarrow> int \<Rightarrow> 'a model_state_scheme GoldenTest \<Rightarrow> 'a model_state_scheme \<Rightarrow> (bool \<times> 'a model_state_scheme) option" where
  "hps_golden_one w i test s = do {
     let s = print (''Testing input '' @ test_name test @ '': '') s;
     (actual, s) \<leftarrow> test_fn test w s;
     golden \<leftarrow> rd (test_expected test) (loaded_model s);
     Some (if actual \<noteq> golden
       then (True, print (''FAIL '' @ dec actual @ '' (actual) != '' @ dec golden @ '' (expected) ***'' @ [LF]) s)
       else (False, print (''OK'' @ [LF]) s)) }"

definition hps_golden_tests :: "'a model_state_scheme site \<Rightarrow> 'a model_state_scheme \<Rightarrow> 'a model_state_scheme option" where
  "hps_golden_tests w s = do {
     (failed, s) \<leftarrow> golden_loop (hps_golden_one w) 0 hps_golden_test_list False s;
     Some (golden_verdict failed s) }"

definition HPS_MENU :: "'a model_state_scheme site \<Rightarrow> 'a model_state_scheme Menu" where
  "HPS_MENU w = \<lparr>title = ''Tests for HPS model'', prompt = ''hps'',
     items =
       [MENU_ITEM (CHR ''a'') ''Cat picture input'' (do_classify_cat w),
        MENU_ITEM (CHR ''b'') ''Diagram input'' (do_classify_diagram w),
        MENU_ITEM (CHR ''c'') ''Zeros input'' (do_classify_zeros w),
        MENU_ITEM (CHR ''d'') ''hps_0'' (do_classify_hps_0 w),
        MENU_ITEM (CHR ''e'') ''hps_1'' (do_classify_hps_1 w),
        MENU_ITEM (CHR ''f'') ''hps_2'' (do_classify_hps_2 w),
        MENU_ITEM (CHR ''g'') ''Golden tests (check for expected outputs)'' (hps_golden_tests w),
        MENU_ITEM (CHR ''0'') ''Reinitialize with 09_20 model'' (do_init_09_20 w),
        MENU_ITEM (CHR ''1'') ''Reinitialize with 01_05_74ops model'' (do_init_01_05_74ops w),
        MENU_ITEM (CHR ''2'') ''Reinitialize with 01_05_89ops model'' (do_init_01_05_89ops w),
        MENU_ITEM (CHR ''3'') ''Reinitialize with presence_2022017_96ops model'' (do_init_presence_2022017_96ops w),
        MENU_ITEM (CHR ''4'') ''Reinitialize with second_2022017_96ops model'' (do_init_second_2022017_96ops w),
        MENU_ITEM (CHR ''5'') ''Reinitialize with presence_20220415_96ops model'' (do_init_presence_20220415_96ops w),
        MENU_ITEM (CHR ''6'') ''Reinitialize with second_20220416_96ops model'' (do_init_second_20220416_96ops w)]
       @ MENU_END\<rparr>"

definition hps_model_menu :: "'a model_state_scheme site \<Rightarrow> 'a model_state_scheme \<Rightarrow> 'a model_state_scheme option" where
  "hps_model_menu w s = do {
     s \<leftarrow> do_init_01_05_74ops w s;
     menu_run (HPS_MENU w) s }"

section \<open>magic\_wand.cc\<close>

record MagicWandResult =
  wing_score :: i32
  ring_score :: i32
  slope_score :: i32
  negative_score :: i32

definition magic_wand_init :: "'a tfl_state_scheme site \<Rightarrow> 'a tfl_state_scheme \<Rightarrow> 'a tfl_state_scheme option" where
  "magic_wand_init w = load_blob w ''model_magic_wand''"

definition magic_wand_classify ::
  "'a tfl_state_scheme site \<Rightarrow> 'a tfl_state_scheme \<Rightarrow> (MagicWandResult \<times> 'a tfl_state_scheme) option" where
  "magic_wand_classify w s = do {
     let s = print (''Running magic_wand'' @ [LF]) s;
     s \<leftarrow> classify_on w s;
     o0 \<leftarrow> output_bits 0 s;
     o1 \<leftarrow> output_bits 1 s;
     o2 \<leftarrow> output_bits 2 s;
     o3 \<leftarrow> output_bits 3 s;
     Some (\<lparr>wing_score = o0, ring_score = o1, slope_score = o2, negative_score = o3\<rparr>, s) }"

text \<open>
  \<open>static_cast<int>(x * 1000000)\<close> for a \<open>float\<close> given by its bits: the product of the significand
  is rounded to 24 bits, ties to even, and the conversion drops the fraction. Of an infinity, a
  NaN or a product that is no \<open>int\<close> the conversion is undefined.
\<close>

definition interpret_score :: "i32 \<Rightarrow> int option" where
  "interpret_score bits = (
     let e = uint (drop_bit 23 bits AND 0xFF);
         f = uint (bits AND 0x7FFFFF);
         m = round24 ((if e = 0 then f else f + 2 ^ 23) * 1000000);
         x = (if e = 0 then - 149 else e - 150);
         v = (if 0 \<le> x then m * 2 ^ nat x else m div 2 ^ nat (- x))
     in if e = 255 then None else int32 (if bit bits 31 then - v else v))"

definition six_digits :: "int \<Rightarrow> string" where
  "six_digits v = (if v < 0 then CHR ''-'' # zeros 5 (dec (- v)) else zeros 6 (dec v))"

definition print_magic_wand_result :: "string \<Rightarrow> MagicWandResult \<Rightarrow> 'a console_scheme \<Rightarrow> 'a console_scheme option" where
  "print_magic_wand_result prefix res s = do {
     let s = print (prefix @ ''-- wing: 0x'' @ hex (uint (wing_score res)) @ '', ring: 0x'' @ hex (uint (ring_score res)) @
       '', slope: 0x'' @ hex (uint (slope_score res)) @ '', negative: 0x'' @ hex (uint (negative_score res)) @ [LF]) s;
     wing \<leftarrow> interpret_score (wing_score res);
     ring \<leftarrow> interpret_score (ring_score res);
     slope \<leftarrow> interpret_score (slope_score res);
     negative \<leftarrow> interpret_score (negative_score res);
     Some (print (prefix @ '' approx-- wing: 0.'' @ six_digits wing @ '' ring: 0.'' @ six_digits ring @ '', slope: 0.'' @
       six_digits slope @ '', negative: 0.'' @ six_digits negative @ [LF]) s) }"

definition wand_classify_zeros :: "'a tfl_state_scheme site \<Rightarrow> 'a tfl_state_scheme \<Rightarrow> 'a tfl_state_scheme option" where
  "wand_classify_zeros w s = do {
     let s = puts ''Classify all zeros input'' s;
     s \<leftarrow> tflite_set_input_zeros_float (the_port w) s;
     (res, s) \<leftarrow> magic_wand_classify w s;
     print_magic_wand_result ''  results'' res s }"

definition wand_classify_ring :: "'a tfl_state_scheme site \<Rightarrow> 'a tfl_state_scheme \<Rightarrow> 'a tfl_state_scheme option" where
  "wand_classify_ring w s = do {
     let s = puts ''Classify ring'' s;
     s \<leftarrow> tflite_set_input_float (the_port w) (blob w ''g_ring_micro_f9643d42_nohash_4_data'') s;
     (res, s) \<leftarrow> magic_wand_classify w s;
     print_magic_wand_result ''  results'' res s }"

definition wand_classify_slope :: "'a tfl_state_scheme site \<Rightarrow> 'a tfl_state_scheme \<Rightarrow> 'a tfl_state_scheme option" where
  "wand_classify_slope w s = do {
     let s = puts ''Classify slope'' s;
     s \<leftarrow> tflite_set_input_float (the_port w) (blob w ''g_slope_micro_f2e59fea_nohash_1_data'') s;
     (res, s) \<leftarrow> magic_wand_classify w s;
     print_magic_wand_result ''  results'' res s }"

definition magic_wand_golden_results :: "MagicWandResult list" where
  "magic_wand_golden_results =
     [\<lparr>wing_score = 0x3d200000, ring_score = 0x3ee00000, slope_score = 0x3db00000, negative_score = 0x3ee00000\<rparr>,
      \<lparr>wing_score = 0x0, ring_score = 0x3f7f0000, slope_score = 0x0, negative_score = 0x0\<rparr>,
      \<lparr>wing_score = 0x0, ring_score = 0x0, slope_score = 0x3f7f0000, negative_score = 0x0\<rparr>]"

definition wand_compare ::
  "int \<Rightarrow> MagicWandResult \<times> MagicWandResult \<Rightarrow> 'a console_scheme \<Rightarrow> (bool \<times> 'a console_scheme) option" where
  "wand_compare i = (\<lambda>(res, golden) s.
     if wing_score res \<noteq> wing_score golden \<or> ring_score res \<noteq> ring_score golden \<or>
        slope_score res \<noteq> slope_score golden \<or> negative_score res \<noteq> negative_score golden
     then do {
       let s = print (''*** Golden test '' @ dec i @ '' failed: '' @ [LF]) s;
       s \<leftarrow> print_magic_wand_result ''actual'' res s;
       s \<leftarrow> print_magic_wand_result ''expected'' golden s;
       Some (True, s) }
     else Some (False, s))"

definition wand_golden_tests :: "'a tfl_state_scheme site \<Rightarrow> 'a tfl_state_scheme \<Rightarrow> 'a tfl_state_scheme option" where
  "wand_golden_tests w s = do {
     s \<leftarrow> tflite_set_input_zeros_float (the_port w) s;
     (actual0, s) \<leftarrow> magic_wand_classify w s;
     s \<leftarrow> tflite_set_input_float (the_port w) (blob w ''g_ring_micro_f9643d42_nohash_4_data'') s;
     (actual1, s) \<leftarrow> magic_wand_classify w s;
     s \<leftarrow> tflite_set_input_float (the_port w) (blob w ''g_slope_micro_f2e59fea_nohash_1_data'') s;
     (actual2, s) \<leftarrow> magic_wand_classify w s;
     (failed, s) \<leftarrow> golden_loop wand_compare 0 (zip [actual0, actual1, actual2] magic_wand_golden_results) False s;
     Some (golden_verdict failed s) }"

definition WAND_MENU :: "'a tfl_state_scheme site \<Rightarrow> 'a tfl_state_scheme Menu" where
  "WAND_MENU w = \<lparr>title = ''Tests for magic_wand model'', prompt = ''magic_wand'',
     items =
       [MENU_ITEM (CHR ''1'') ''Run with zeros input'' (wand_classify_zeros w),
        MENU_ITEM (CHR ''2'') ''Run with ring input'' (wand_classify_ring w),
        MENU_ITEM (CHR ''3'') ''Run with slope input'' (wand_classify_slope w),
        MENU_ITEM (CHR ''g'') ''Run golden tests (check for expected outputs)'' (wand_golden_tests w)]
       @ MENU_END\<rparr>"

definition magic_wand_menu :: "'a tfl_state_scheme site \<Rightarrow> 'a tfl_state_scheme \<Rightarrow> 'a tfl_state_scheme option" where
  "magic_wand_menu w s = do {
     s \<leftarrow> magic_wand_init w s;
     menu_run (WAND_MENU w) s }"

section \<open>micro\_speech.cc\<close>

record MicroSpeechResult =
  silence_score :: i8
  unknown_score :: i8
  yes_score :: i8
  no_score :: i8

definition micro_speech_init :: "'a tfl_state_scheme site \<Rightarrow> 'a tfl_state_scheme \<Rightarrow> 'a tfl_state_scheme option" where
  "micro_speech_init w = load_blob w ''model_micro_speech''"

text \<open>\<open>static_cast<uint8_t>(output + 128)\<close>\<close>

definition unsigned_score :: "i8 \<Rightarrow> i8" where
  "unsigned_score v = word_of_int (sint v + 128)"

definition micro_speech_classify ::
  "'a tfl_state_scheme site \<Rightarrow> 'a tfl_state_scheme \<Rightarrow> (MicroSpeechResult \<times> 'a tfl_state_scheme) option" where
  "micro_speech_classify w s = do {
     let s = print (''Running micro_speech'' @ [LF]) s;
     s \<leftarrow> classify_on w s;
     o0 \<leftarrow> output_byte 0 s;
     o1 \<leftarrow> output_byte 1 s;
     o2 \<leftarrow> output_byte 2 s;
     o3 \<leftarrow> output_byte 3 s;
     Some (\<lparr>silence_score = unsigned_score o0, unknown_score = unsigned_score o1, yes_score = unsigned_score o2,
       no_score = unsigned_score o3\<rparr>, s) }"

definition speech_scores :: "string \<Rightarrow> MicroSpeechResult \<Rightarrow> string" where
  "speech_scores prefix res = prefix @ ''-- silence: '' @ dec (uint (silence_score res)) @ '', unkown: '' @
     dec (uint (unknown_score res)) @ '', yes: '' @ dec (uint (yes_score res)) @ '', no: '' @ dec (uint (no_score res)) @ [LF]"

definition quoted :: "string \<Rightarrow> string" where
  "quoted str = CHR 0x22 # str @ [CHR 0x22]"

definition speech_classify_zeros :: "'a tfl_state_scheme site \<Rightarrow> 'a tfl_state_scheme \<Rightarrow> 'a tfl_state_scheme option" where
  "speech_classify_zeros w s = do {
     s \<leftarrow> tflite_set_input_zeros (the_port w) s;
     (res, s) \<leftarrow> micro_speech_classify w s;
     Some (print (speech_scores ''  results'' res) s) }"

definition speech_classify_no :: "'a tfl_state_scheme site \<Rightarrow> 'a tfl_state_scheme \<Rightarrow> 'a tfl_state_scheme option" where
  "speech_classify_no w s = do {
     let s = puts (''Classify '' @ quoted ''no'') s;
     s \<leftarrow> tflite_set_input (the_port w) (blob w ''g_no_micro_f9643d42_nohash_4_data'') s;
     (res, s) \<leftarrow> micro_speech_classify w s;
     Some (print (speech_scores ''  results'' res) s) }"

definition speech_classify_yes :: "'a tfl_state_scheme site \<Rightarrow> 'a tfl_state_scheme \<Rightarrow> 'a tfl_state_scheme option" where
  "speech_classify_yes w s = do {
     let s = puts (''Classify '' @ quoted ''yes'') s;
     s \<leftarrow> tflite_set_input (the_port w) (blob w ''g_yes_micro_f2e59fea_nohash_1_data'') s;
     (res, s) \<leftarrow> micro_speech_classify w s;
     Some (print (speech_scores ''  results'' res) s) }"

definition micro_speech_golden_results :: "MicroSpeechResult list" where
  "micro_speech_golden_results =
     [\<lparr>silence_score = 0, unknown_score = 7, yes_score = 8, no_score = 241\<rparr>,
      \<lparr>silence_score = 0, unknown_score = 14, yes_score = 0, no_score = 242\<rparr>,
      \<lparr>silence_score = 0, unknown_score = 0, yes_score = 255, no_score = 0\<rparr>]"

definition speech_compare ::
  "int \<Rightarrow> MicroSpeechResult \<times> MicroSpeechResult \<Rightarrow> 'a console_scheme \<Rightarrow> (bool \<times> 'a console_scheme) option" where
  "speech_compare i = (\<lambda>(res, golden) s.
     if silence_score res \<noteq> silence_score golden \<or> unknown_score res \<noteq> unknown_score golden \<or>
        yes_score res \<noteq> yes_score golden \<or> no_score res \<noteq> no_score golden
     then Some (True, print (''*** Golden test '' @ dec i @ '' failed: '' @ [LF] @ speech_scores ''actual'' res @
       speech_scores ''expected'' golden) s)
     else Some (False, s))"

definition speech_golden_tests :: "'a tfl_state_scheme site \<Rightarrow> 'a tfl_state_scheme \<Rightarrow> 'a tfl_state_scheme option" where
  "speech_golden_tests w s = do {
     s \<leftarrow> tflite_set_input_zeros (the_port w) s;
     (actual0, s) \<leftarrow> micro_speech_classify w s;
     s \<leftarrow> tflite_set_input (the_port w) (blob w ''g_no_micro_f9643d42_nohash_4_data'') s;
     (actual1, s) \<leftarrow> micro_speech_classify w s;
     s \<leftarrow> tflite_set_input (the_port w) (blob w ''g_yes_micro_f2e59fea_nohash_1_data'') s;
     (actual2, s) \<leftarrow> micro_speech_classify w s;
     (failed, s) \<leftarrow> golden_loop speech_compare 0 (zip [actual0, actual1, actual2] micro_speech_golden_results) False s;
     Some (golden_verdict failed s) }"

definition SPEECH_MENU :: "'a tfl_state_scheme site \<Rightarrow> 'a tfl_state_scheme Menu" where
  "SPEECH_MENU w = \<lparr>title = ''Tests for micro_speech model'', prompt = ''micro_speech'',
     items =
       [MENU_ITEM (CHR ''1'') ''Run with zeros input'' (speech_classify_zeros w),
        MENU_ITEM (CHR ''2'') (''Run with '' @ quoted ''no'' @ '' input'') (speech_classify_no w),
        MENU_ITEM (CHR ''3'') (''Run with '' @ quoted ''yes'' @ '' input'') (speech_classify_yes w),
        MENU_ITEM (CHR ''g'') ''Run golden tests (check for expected outputs)'' (speech_golden_tests w)]
       @ MENU_END\<rparr>"

definition micro_speech_menu :: "'a tfl_state_scheme site \<Rightarrow> 'a tfl_state_scheme \<Rightarrow> 'a tfl_state_scheme option" where
  "micro_speech_menu w s = do {
     s \<leftarrow> micro_speech_init w s;
     menu_run (SPEECH_MENU w) s }"

end
