(* ===== verification/Tiny_Models.thy ===== *)
theory Tiny_Models
  imports Models
begin

text \<open>
  The test programs of the models of MLCommons Tiny v0.1 (keyword spotting, image classification,
  anomaly detection, visual wake words) and the menu of all models, \<open>common/src/models/models.c\<close>.
\<close>

section \<open>kws.cc\<close>

record V01KeywordSpottingResult =
  kws_down :: i8
  kws_go :: i8
  kws_left :: i8
  kws_no :: i8
  kws_off :: i8
  kws_on :: i8
  kws_right :: i8
  kws_stop :: i8
  kws_up :: i8
  kws_yes :: i8
  kws_silence :: i8
  kws_unknown :: i8

text \<open>A result from its scores, in the order of the fields.\<close>

definition kws_result :: "i8 list \<Rightarrow> V01KeywordSpottingResult" where
  "kws_result v =
     \<lparr>kws_down = v ! 0, kws_go = v ! 1, kws_left = v ! 2, kws_no = v ! 3, kws_off = v ! 4, kws_on = v ! 5,
       kws_right = v ! 6, kws_stop = v ! 7, kws_up = v ! 8, kws_yes = v ! 9, kws_silence = v ! 10, kws_unknown = v ! 11\<rparr>"

definition mlcommons_tiny_v01_kws_dataset :: "(string \<times> V01KeywordSpottingResult) list" where
  "mlcommons_tiny_v01_kws_dataset =
     [(''down_0'', kws_result [127, - 128, - 128, - 128, - 128, - 128, - 128, - 128, - 128, - 128, - 128, - 128]),
      (''go_1'', kws_result [- 128, 127, - 128, - 127, - 128, - 128, - 128, - 128, - 128, - 128, - 128, - 128]),
      (''left_2'', kws_result [- 128, - 128, 126, - 128, - 128, - 128, - 128, - 128, - 128, - 128, - 128, - 126]),
      (''no_3'', kws_result [- 127, - 29, - 128, 25, - 128, - 128, - 128, - 128, - 128, - 128, - 128, - 125]),
      (''off_4'', kws_result [- 128, - 128, - 128, - 128, 127, - 128, - 128, - 128, - 128, - 128, - 128, - 128]),
      (''on_5'', kws_result [- 128, - 128, - 128, - 128, - 128, 127, - 128, - 128, - 128, - 128, - 128, - 128]),
      (''right_6'', kws_result [- 128, - 128, - 128, - 128, - 128, - 128, 127, - 128, - 128, - 128, - 128, - 128]),
      (''stop_7'', kws_result [- 128, - 128, - 128, - 128, - 128, - 128, - 128, 127, - 128, - 128, - 128, - 128]),
      (''up_8'', kws_result [- 128, - 128, - 128, - 128, - 127, - 128, - 128, - 128, 127, - 128, - 128, - 128]),
      (''yes_9'', kws_result [- 128, - 128, - 128, - 128, - 128, - 128, - 128, - 128, - 128, 127, - 128, - 128]),
      (''silence_10'', kws_result [- 128, - 128, - 128, - 128, - 128, - 128, - 128, - 128, - 128, - 128, 127, - 127]),
      (''unkown_11'', kws_result [- 128, - 128, - 128, - 128, - 128, - 128, - 128, - 128, - 128, - 128, - 128, 127])]"

definition kws_init :: "'a tfl_state_scheme site \<Rightarrow> 'a tfl_state_scheme \<Rightarrow> 'a tfl_state_scheme option" where
  "kws_init w = load_blob w ''kws_ref_model''"

definition kws_classify ::
  "'a tfl_state_scheme site \<Rightarrow> 'a tfl_state_scheme \<Rightarrow> (V01KeywordSpottingResult \<times> 'a tfl_state_scheme) option" where
  "kws_classify w s = do {
     let s = print (''Running kws'' @ [LF]) s;
     s \<leftarrow> classify_on w s;
     o0 \<leftarrow> output_byte 0 s;
     o1 \<leftarrow> output_byte 1 s;
     o2 \<leftarrow> output_byte 2 s;
     o3 \<leftarrow> output_byte 3 s;
     o4 \<leftarrow> output_byte 4 s;
     o5 \<leftarrow> output_byte 5 s;
     o6 \<leftarrow> output_byte 6 s;
     o7 \<leftarrow> output_byte 7 s;
     o8 \<leftarrow> output_byte 8 s;
     o9 \<leftarrow> output_byte 9 s;
     o10 \<leftarrow> output_byte 10 s;
     o11 \<leftarrow> output_byte 11 s;
     Some (kws_result [o0, o1, o2, o3, o4, o5, o6, o7, o8, o9, o10, o11], s) }"

definition print_keyword_spotting_result :: "string \<Rightarrow> V01KeywordSpottingResult \<Rightarrow> 'a console_scheme \<Rightarrow> 'a console_scheme" where
  "print_keyword_spotting_result prefix res =
     print (prefix @ ''-- down: '' @ dec (sint (kws_down res)) @ '', go: '' @ dec (sint (kws_go res)) @ '', left: '' @
       dec (sint (kws_left res)) @ '', no: '' @ dec (sint (kws_no res)) @ '', off: '' @ dec (sint (kws_off res)) @ '', on: '' @
       dec (sint (kws_on res)) @ '', right: '' @ dec (sint (kws_right res)) @ '', stop: '' @ dec (sint (kws_stop res)) @
       '', up: '' @ dec (sint (kws_up res)) @ '', yes: '' @ dec (sint (kws_yes res)) @ '', silence: '' @
       dec (sint (kws_silence res)) @ '', unkown: '' @ dec (sint (kws_unknown res)) @ [LF])"

text \<open>The tests of the menu are instances of one macro.\<close>

definition kws_test :: "string \<Rightarrow> nat \<Rightarrow> 'a tfl_state_scheme site \<Rightarrow> 'a tfl_state_scheme \<Rightarrow> 'a tfl_state_scheme option" where
  "kws_test name test_index w s = do {
     let s = puts name s;
     s \<leftarrow> tflite_set_input (the_port w) (blob w (fst (mlcommons_tiny_v01_kws_dataset ! test_index))) s;
     (res, s) \<leftarrow> kws_classify w s;
     Some (print_keyword_spotting_result ''  result'' res s) }"

definition kws_golden_one ::
  "'a tfl_state_scheme site \<Rightarrow> int \<Rightarrow> string \<times> V01KeywordSpottingResult \<Rightarrow> 'a tfl_state_scheme \<Rightarrow> (bool \<times> 'a tfl_state_scheme) option" where
  "kws_golden_one w i = (\<lambda>(name, golden) s. do {
     s \<leftarrow> tflite_set_input (the_port w) (blob w name) s;
     (res, s) \<leftarrow> kws_classify w s;
     if kws_down res \<noteq> kws_down golden \<or> kws_go res \<noteq> kws_go golden \<or>
        kws_left res \<noteq> kws_left golden \<or> kws_no res \<noteq> kws_no golden \<or> kws_off res \<noteq> kws_off golden \<or>
        kws_on res \<noteq> kws_on golden \<or> kws_right res \<noteq> kws_right golden \<or>
        kws_stop res \<noteq> kws_stop golden \<or> kws_up res \<noteq> kws_up golden \<or> kws_yes res \<noteq> kws_yes golden \<or>
        kws_silence res \<noteq> kws_silence golden \<or> kws_unknown res \<noteq> kws_unknown golden
     then Some (True, print_keyword_spotting_result ''expected'' golden (print_keyword_spotting_result ''actual'' res
       (print (''*** Golden test '' @ dec i @ '' failed: '' @ [LF]) s)))
     else Some (False, s) })"

definition kws_golden_tests :: "'a tfl_state_scheme site \<Rightarrow> 'a tfl_state_scheme \<Rightarrow> 'a tfl_state_scheme option" where
  "kws_golden_tests w s = do {
     (failed, s) \<leftarrow> golden_loop (kws_golden_one w) 0 mlcommons_tiny_v01_kws_dataset False s;
     Some (golden_verdict failed s) }"

definition KWS_MENU :: "'a tfl_state_scheme site \<Rightarrow> 'a tfl_state_scheme Menu" where
  "KWS_MENU w = \<lparr>title = ''Tests for kws model'', prompt = ''kws'',
     items =
       [MENU_ITEM (CHR ''0'') (''Run with '' @ quoted ''down'' @ '' input'') (kws_test ''do_classify_down'' 0 w),
        MENU_ITEM (CHR ''1'') (''Run with '' @ quoted ''go'' @ '' input'') (kws_test ''do_classify_go'' 1 w),
        MENU_ITEM (CHR ''2'') (''Run with '' @ quoted ''left'' @ '' input'') (kws_test ''do_classify_left'' 2 w),
        MENU_ITEM (CHR ''g'') ''Run golden tests (check for expected outputs)'' (kws_golden_tests w)]
       @ MENU_END\<rparr>"

definition mlcommons_tiny_v01_kws_menu :: "'a tfl_state_scheme site \<Rightarrow> 'a tfl_state_scheme \<Rightarrow> 'a tfl_state_scheme option" where
  "mlcommons_tiny_v01_kws_menu w s = do {
     s \<leftarrow> kws_init w s;
     menu_run (KWS_MENU w) s }"

section \<open>imgc.cc\<close>

record V01ImageClassificationResult =
  ic_airplane :: i8
  ic_car :: i8
  ic_bird :: i8
  ic_cat :: i8
  ic_deer :: i8
  ic_dog :: i8
  ic_frog :: i8
  ic_horse :: i8
  ic_ship :: i8
  ic_truck :: i8

text \<open>A result from its scores, in the order of the fields.\<close>

definition ic_result :: "i8 list \<Rightarrow> V01ImageClassificationResult" where
  "ic_result v =
     \<lparr>ic_airplane = v ! 0, ic_car = v ! 1, ic_bird = v ! 2, ic_cat = v ! 3, ic_deer = v ! 4, ic_dog = v ! 5,
       ic_frog = v ! 6, ic_horse = v ! 7, ic_ship = v ! 8, ic_truck = v ! 9\<rparr>"

definition mlcommons_tiny_v01_ic_dataset :: "(string \<times> V01ImageClassificationResult) list" where
  "mlcommons_tiny_v01_ic_dataset =
     [(''quant_airplane'', ic_result [9, - 128, - 125, - 128, - 127, - 116, - 127, - 31, - 128, - 124]),
      (''quant_car'', ic_result [- 128, 127, - 128, - 128, - 128, - 128, - 128, - 128, - 128, - 128]),
      (''quant_bird'', ic_result [- 128, - 128, 127, - 128, - 128, - 128, - 128, - 128, - 128, - 128]),
      (''quant_cat'', ic_result [- 128, - 128, - 89, 54, - 127, - 101, - 128, - 121, - 128, - 128]),
      (''quant_deer'', ic_result [- 128, - 128, - 128, - 128, 109, - 127, - 110, - 128, - 128, - 128]),
      (''quant_dog'', ic_result [- 127, - 128, - 128, - 121, - 128, 120, - 128, - 128, - 128, - 128]),
      (''quant_frog'', ic_result [- 128, - 128, - 128, - 128, - 128, - 128, 127, - 128, - 128, - 128]),
      (''quant_horse'', ic_result [- 128, - 128, - 128, - 128, - 128, - 128, - 128, 127, - 128, - 128]),
      (''quant_ship'', ic_result [- 128, - 128, - 128, - 128, - 128, - 128, - 128, - 128, 127, - 128]),
      (''quant_truck'', ic_result [- 128, - 128, - 128, - 128, - 128, - 128, - 128, - 128, - 128, 127])]"

definition imgc_init :: "'a tfl_state_scheme site \<Rightarrow> 'a tfl_state_scheme \<Rightarrow> 'a tfl_state_scheme option" where
  "imgc_init w = load_blob w ''pretrainedResnet_quant''"

definition image_classify ::
  "'a tfl_state_scheme site \<Rightarrow> 'a tfl_state_scheme \<Rightarrow> (V01ImageClassificationResult \<times> 'a tfl_state_scheme) option" where
  "image_classify w s = do {
     let s = print (''Running imgc'' @ [LF]) s;
     s \<leftarrow> classify_on w s;
     o0 \<leftarrow> output_byte 0 s;
     o1 \<leftarrow> output_byte 1 s;
     o2 \<leftarrow> output_byte 2 s;
     o3 \<leftarrow> output_byte 3 s;
     o4 \<leftarrow> output_byte 4 s;
     o5 \<leftarrow> output_byte 5 s;
     o6 \<leftarrow> output_byte 6 s;
     o7 \<leftarrow> output_byte 7 s;
     o8 \<leftarrow> output_byte 8 s;
     o9 \<leftarrow> output_byte 9 s;
     Some (ic_result [o0, o1, o2, o3, o4, o5, o6, o7, o8, o9], s) }"

definition print_imgc_result :: "string \<Rightarrow> V01ImageClassificationResult \<Rightarrow> 'a console_scheme \<Rightarrow> 'a console_scheme" where
  "print_imgc_result prefix res =
     print (prefix @ ''-- airplane: '' @ dec (sint (ic_airplane res)) @ '', car: '' @ dec (sint (ic_car res)) @ '', bird: '' @
       dec (sint (ic_bird res)) @ '', cat: '' @ dec (sint (ic_cat res)) @ '', deer: '' @ dec (sint (ic_deer res)) @ '', dog: '' @
       dec (sint (ic_dog res)) @ '', frog: '' @ dec (sint (ic_frog res)) @ '', horse: '' @ dec (sint (ic_horse res)) @
       '', ship: '' @ dec (sint (ic_ship res)) @ '', truck: '' @ dec (sint (ic_truck res)) @ [LF])"

text \<open>The tests of the menu are instances of one macro.\<close>

definition ic_test :: "string \<Rightarrow> nat \<Rightarrow> 'a tfl_state_scheme site \<Rightarrow> 'a tfl_state_scheme \<Rightarrow> 'a tfl_state_scheme option" where
  "ic_test name test_index w s = do {
     let s = puts name s;
     s \<leftarrow> tflite_set_input (the_port w) (blob w (fst (mlcommons_tiny_v01_ic_dataset ! test_index))) s;
     (res, s) \<leftarrow> image_classify w s;
     Some (print_imgc_result ''  result'' res s) }"

definition ic_golden_one ::
  "'a tfl_state_scheme site \<Rightarrow> int \<Rightarrow> string \<times> V01ImageClassificationResult \<Rightarrow> 'a tfl_state_scheme \<Rightarrow> (bool \<times> 'a tfl_state_scheme) option" where
  "ic_golden_one w i = (\<lambda>(name, golden) s. do {
     s \<leftarrow> tflite_set_input (the_port w) (blob w name) s;
     (res, s) \<leftarrow> image_classify w s;
     if ic_airplane res \<noteq> ic_airplane golden \<or> ic_car res \<noteq> ic_car golden \<or>
        ic_bird res \<noteq> ic_bird golden \<or> ic_cat res \<noteq> ic_cat golden \<or> ic_deer res \<noteq> ic_deer golden \<or>
        ic_dog res \<noteq> ic_dog golden \<or> ic_frog res \<noteq> ic_frog golden \<or> ic_horse res \<noteq> ic_horse golden \<or>
        ic_ship res \<noteq> ic_ship golden \<or> ic_truck res \<noteq> ic_truck golden
     then Some (True, print_imgc_result ''expected'' golden (print_imgc_result ''actual'' res
       (print (''*** Golden test '' @ dec i @ '' failed: '' @ [LF]) s)))
     else Some (False, s) })"

definition imgc_golden_tests :: "'a tfl_state_scheme site \<Rightarrow> 'a tfl_state_scheme \<Rightarrow> 'a tfl_state_scheme option" where
  "imgc_golden_tests w s = do {
     (failed, s) \<leftarrow> golden_loop (ic_golden_one w) 0 mlcommons_tiny_v01_ic_dataset False s;
     Some (golden_verdict failed s) }"

definition IMGC_MENU :: "'a tfl_state_scheme site \<Rightarrow> 'a tfl_state_scheme Menu" where
  "IMGC_MENU w = \<lparr>title = ''Tests for imgc model'', prompt = ''imgc'',
     items =
       [MENU_ITEM (CHR ''0'') ''Run with airplane input'' (ic_test ''do_classify_airplane'' 0 w),
        MENU_ITEM (CHR ''1'') ''Run with car input'' (ic_test ''do_classify_car'' 1 w),
        MENU_ITEM (CHR ''2'') ''Run with bird input'' (ic_test ''do_classify_bird'' 2 w),
        MENU_ITEM (CHR ''3'') ''Run with cat input'' (ic_test ''do_classify_cat'' 3 w),
        MENU_ITEM (CHR ''g'') ''Run golden tests (check for expected outputs)'' (imgc_golden_tests w)]
       @ MENU_END\<rparr>"

definition mlcommons_tiny_v01_imgc_menu :: "'a tfl_state_scheme site \<Rightarrow> 'a tfl_state_scheme \<Rightarrow> 'a tfl_state_scheme option" where
  "mlcommons_tiny_v01_imgc_menu w s = do {
     s \<leftarrow> imgc_init w s;
     menu_run (IMGC_MENU w) s }"

section \<open>anomd.cc\<close>

definition mlcommons_tiny_v01_ad_dataset :: "(string \<times> i32) list" where
  "mlcommons_tiny_v01_ad_dataset =
     [(''quant_anomaly_0'', 0x2268a03d), (''quant_anomaly_1'', 0xefeefb35), (''quant_anomaly_2'', 0x8c908c27),
      (''quant_normal_0'', 0xd02be5d), (''quant_normal_1'', 0x2bc9ce4a), (''quant_normal_2'', 0xe7251f32)]"

definition anomd_init :: "'a tfl_state_scheme site \<Rightarrow> 'a tfl_state_scheme \<Rightarrow> 'a tfl_state_scheme option" where
  "anomd_init w = load_blob w ''ad01_int8''"

text \<open>
  The byte is promoted to \<open>int\<close> before the shift, so a negative one fills the bits above it (gcc
  shifts negative values like words); \<open>j\<close> is an \<open>int8_t\<close> that wraps around.
\<close>

definition uint32_xor_reduction :: "int \<Rightarrow> i32 \<Rightarrow> 'a tfl_state_scheme \<Rightarrow> i32 option" where
  "uint32_xor_reduction output len s = do {
     (x, j) \<leftarrow> cfor 0 (uint len) 1 (\<lambda>i (x, j). do {
       b \<leftarrow> rd (tensor_arena s) (output + i);
       Some (x XOR push_bit (8 * unat (j AND 3)) (scast b), j + 1) }) (0 :: i32, 0 :: i8);
     Some x }"

definition anomd_classify :: "'a tfl_state_scheme site \<Rightarrow> 'a tfl_state_scheme \<Rightarrow> (i32 \<times> 'a tfl_state_scheme) option" where
  "anomd_classify w s = do {
     let s = print (''Running anomd'' @ [LF]) s;
     s \<leftarrow> classify_on w s;
     output \<leftarrow> tflite_get_output s;
     x \<leftarrow> uint32_xor_reduction output 640 s;
     Some (x, s) }"

definition anomd_test :: "string \<Rightarrow> nat \<Rightarrow> 'a tfl_state_scheme site \<Rightarrow> 'a tfl_state_scheme \<Rightarrow> 'a tfl_state_scheme option" where
  "anomd_test name test_index w s = do {
     let s = puts name s;
     s \<leftarrow> tflite_set_input (the_port w) (blob w (fst (mlcommons_tiny_v01_ad_dataset ! test_index))) s;
     (x, s) \<leftarrow> anomd_classify w s;
     Some (print (''  result-- 32 bit xor: 0x'' @ hex (uint x) @ [LF]) s) }"

definition anomd_golden_one ::
  "'a tfl_state_scheme site \<Rightarrow> int \<Rightarrow> string \<times> i32 \<Rightarrow> 'a tfl_state_scheme \<Rightarrow> (bool \<times> 'a tfl_state_scheme) option" where
  "anomd_golden_one w i = (\<lambda>(name, golden) s. do {
     s \<leftarrow> tflite_set_input (the_port w) (blob w name) s;
     (res, s) \<leftarrow> anomd_classify w s;
     if res \<noteq> golden
     then Some (True, print (''*** Golden test '' @ dec i @ '' failed: '' @ [LF] @ ''actual: 32 bit xor: 0x'' @ hex (uint res) @ [LF] @
       ''expected: 32 bit xor: 0x'' @ hex (uint golden) @ [LF]) s)
     else Some (False, s) })"

definition anomd_golden_tests :: "'a tfl_state_scheme site \<Rightarrow> 'a tfl_state_scheme \<Rightarrow> 'a tfl_state_scheme option" where
  "anomd_golden_tests w s = do {
     (failed, s) \<leftarrow> golden_loop (anomd_golden_one w) 0 mlcommons_tiny_v01_ad_dataset False s;
     Some (golden_verdict failed s) }"

definition ANOMD_MENU :: "'a tfl_state_scheme site \<Rightarrow> 'a tfl_state_scheme Menu" where
  "ANOMD_MENU w = \<lparr>title = ''Tests for anomd model'', prompt = ''anomd'',
     items =
       [MENU_ITEM (CHR ''0'') ''Run with anomaly 0'' (anomd_test ''do_classify_anomaly_0'' 0 w),
        MENU_ITEM (CHR ''1'') ''Run with normal 0'' (anomd_test ''do_classify_normal_0'' 3 w),
        MENU_ITEM (CHR ''2'') ''Run with anomaly 1'' (anomd_test ''do_classify_anomaly_1'' 1 w),
        MENU_ITEM (CHR ''3'') ''Run with normal 1'' (anomd_test ''do_classify_normal_1'' 4 w),
        MENU_ITEM (CHR ''g'') ''Run golden tests (check for expected outputs)'' (anomd_golden_tests w)]
       @ MENU_END\<rparr>"

definition mlcommons_tiny_v01_anomd_menu :: "'a tfl_state_scheme site \<Rightarrow> 'a tfl_state_scheme \<Rightarrow> 'a tfl_state_scheme option" where
  "mlcommons_tiny_v01_anomd_menu w s = do {
     s \<leftarrow> anomd_init w s;
     menu_run (ANOMD_MENU w) s }"

section \<open>vww.cc\<close>

definition mlcommons_tiny_v01_vww_dataset :: "(string \<times> int) list" where
  "mlcommons_tiny_v01_vww_dataset =
     [(''quant_test_no_0'', - 238), (''quant_test_no_1'', - 150), (''quant_test_yes_0'', 120), (''quant_test_yes_1'', 146)]"

definition vww_init :: "'a tfl_state_scheme site \<Rightarrow> 'a tfl_state_scheme \<Rightarrow> 'a tfl_state_scheme option" where
  "vww_init w = load_blob w ''vww_96_int8''"

definition vww_classify :: "'a tfl_state_scheme site \<Rightarrow> 'a tfl_state_scheme \<Rightarrow> (int \<times> 'a tfl_state_scheme) option" where
  "vww_classify w s = do {
     let s = print (''Running vww'' @ [LF]) s;
     s \<leftarrow> classify_on w s;
     o1 \<leftarrow> output_byte 1 s;
     o0 \<leftarrow> output_byte 0 s;
     Some (sint o1 - sint o0, s) }"

definition vww_test :: "string \<Rightarrow> nat \<Rightarrow> 'a tfl_state_scheme site \<Rightarrow> 'a tfl_state_scheme \<Rightarrow> 'a tfl_state_scheme option" where
  "vww_test name test_index w s = do {
     let s = puts name s;
     s \<leftarrow> tflite_set_input (the_port w) (blob w (fst (mlcommons_tiny_v01_vww_dataset ! test_index))) s;
     (score, s) \<leftarrow> vww_classify w s;
     Some (print (''  result-- score: '' @ dec score @ [LF]) s) }"

definition vww_golden_one ::
  "'a tfl_state_scheme site \<Rightarrow> int \<Rightarrow> string \<times> int \<Rightarrow> 'a tfl_state_scheme \<Rightarrow> (bool \<times> 'a tfl_state_scheme) option" where
  "vww_golden_one w i = (\<lambda>(name, golden) s. do {
     s \<leftarrow> tflite_set_input (the_port w) (blob w name) s;
     (res, s) \<leftarrow> vww_classify w s;
     if res \<noteq> golden
     then Some (True, print (''*** Golden test '' @ dec i @ '' failed: '' @ [LF] @ ''actual-- score: '' @ dec res @ [LF] @
       ''expected-- score: '' @ dec golden @ [LF]) s)
     else Some (False, s) })"

definition vww_golden_tests :: "'a tfl_state_scheme site \<Rightarrow> 'a tfl_state_scheme \<Rightarrow> 'a tfl_state_scheme option" where
  "vww_golden_tests w s = do {
     (failed, s) \<leftarrow> golden_loop (vww_golden_one w) 0 mlcommons_tiny_v01_vww_dataset False s;
     Some (golden_verdict failed s) }"

definition VWW_MENU :: "'a tfl_state_scheme site \<Rightarrow> 'a tfl_state_scheme Menu" where
  "VWW_MENU w = \<lparr>title = ''Tests for vww model'', prompt = ''vww'',
     items =
       [MENU_ITEM (CHR ''0'') ''Run with no person input'' (vww_test ''do_classify_no_person'' 0 w),
        MENU_ITEM (CHR ''1'') ''Run with person input'' (vww_test ''do_classify_person'' 2 w),
        MENU_ITEM (CHR ''g'') ''Run golden tests (check for expected outputs)'' (vww_golden_tests w)]
       @ MENU_END\<rparr>"

definition mlcommons_tiny_v01_vww_menu :: "'a tfl_state_scheme site \<Rightarrow> 'a tfl_state_scheme \<Rightarrow> 'a tfl_state_scheme option" where
  "mlcommons_tiny_v01_vww_menu w s = do {
     s \<leftarrow> vww_init w s;
     menu_run (VWW_MENU w) s }"

section \<open>models.c\<close>

text \<open>
  \<open>AUTO_INC_CHAR\<close> is the next character from '1' on at every use, so that the items that a build
  includes are numbered without gaps. Without any, the menu has the item '!'.
\<close>

definition STARTING_SEL_CHAR :: int where
  "STARTING_SEL_CHAR = 0x31"

definition no_menu :: "'s \<Rightarrow> 's option" where
  "no_menu s = Some s"

fun number_items :: "int \<Rightarrow> (string \<times> ('s \<Rightarrow> 's option)) list \<Rightarrow> 's MenuItem list" where
  "number_items counter [] = []"
| "number_items counter ((text, f) # rest) =
     MENU_ITEM (char_of (counter + STARTING_SEL_CHAR)) text f # number_items (counter + 1) rest"

definition included_models :: "build \<Rightarrow> 'a model_state_scheme site \<Rightarrow> (string \<times> ('a model_state_scheme \<Rightarrow> 'a model_state_scheme option)) list" where
  "included_models b w =
     (if MODEL_PDTI8 b \<or> ALL_TFLM_EXAMPLES b then [(''Person Detection int8 model'', pdti8_menu w)] else []) @
     (if MODEL_MICRO_SPEECH b \<or> ALL_TFLM_EXAMPLES b then [(''Micro Speech'', micro_speech_menu w)] else []) @
     (if MODEL_MAGIC_WAND b \<or> ALL_TFLM_EXAMPLES b then [(''Magic Wand'', magic_wand_menu w)] else []) @
     (if MODEL_MNV2 b then [(''Mobile Net v2 models'', mnv2_menu w)] else []) @
     (if MODEL_HPS b then [(''HPS models'', hps_model_menu w)] else []) @
     (if TINY_ANOMD b then [(''MLCommons Tiny V0.1 Anomaly Detection'', mlcommons_tiny_v01_anomd_menu w)] else []) @
     (if TINY_IMGC b then [(''MLCommons Tiny V0.1 Image Classification'', mlcommons_tiny_v01_imgc_menu w)] else []) @
     (if TINY_KWS b then [(''MLCommons Tiny V0.1 Keyword Spotting'', mlcommons_tiny_v01_kws_menu w)] else []) @
     (if TINY_VWW b then [(''MLCommons Tiny V0.1 Visual Wake Words'', mlcommons_tiny_v01_vww_menu w)] else []) @
     (if MODEL_MNIST_NN b \<or> ALL_TFLM_EXAMPLES b then [(''mnist_nn model'', mnist_nn_menu w)] else [])"

definition MODELS_MENU :: "build \<Rightarrow> 'a model_state_scheme site \<Rightarrow> 'a model_state_scheme Menu" where
  "MODELS_MENU b w = \<lparr>title = ''TfLM Models'', prompt = ''models'',
     items = number_items 0 (included_models b w) @
       (if included_models b w = [] then [MENU_ITEM (CHR ''!'') ''No models selected! Check defines in Makefile!'' no_menu] else []) @
       MENU_END\<rparr>"

definition models_menu :: "build \<Rightarrow> 'a model_state_scheme site \<Rightarrow> 'a model_state_scheme \<Rightarrow> 'a model_state_scheme option" where
  "models_menu b w = menu_run (MODELS_MENU b w)"

end
