(* ===== verification/Tflite_Facts.thy ===== *)
theory Tflite_Facts
  imports Tflite
begin

text \<open>
  What the routines of \<open>tflite.cc\<close> do to the machine: the size of the arena, the contents of the
  input tensor, what becomes of a model that does not fit, the state every sequence of calls keeps
  well-formed, and which events a classification reports.
\<close>

section \<open>The arena\<close>

lemma const_max_ge: "x \<le> const_max x ys" "y \<in> set ys \<Longrightarrow> y \<le> const_max x ys"
proof -
  have "x \<le> const_max x ys \<and> (\<forall>y\<in>set ys. y \<le> const_max x ys)"
  proof (induction ys arbitrary: x)
    case (Cons z zs)
    show ?case using Cons [of "if x > z then x else z"] by (auto split: if_splits intro: order_trans)
  qed simp
  then show "x \<le> const_max x ys" "y \<in> set ys \<Longrightarrow> y \<le> const_max x ys" by auto
qed

lemma const_max_in: "const_max x ys \<in> insert x (set ys)"
  by (induction ys arbitrary: x) (auto split: if_splits)

definition included :: "build \<Rightarrow> bool list" where
  "included b = [MODEL_PDTI8 b, MODEL_MICRO_SPEECH b, MODEL_MAGIC_WAND b, MODEL_MNV2 b, MODEL_HPS b, TINY_ANOMD b,
     TINY_IMGC b, TINY_KWS b, TINY_VWW b, MODEL_MNIST_NN b]"

definition arena_needs :: "int list" where
  "arena_needs = [81 * 1024, 7 * 1024, 5 * 1024, 800 * 1024, 256 * 1024, 3 * 1024, 53 * 1024, 23 * 1024, 99 * 1024, 256 * 1024]"

definition sizes_of :: "build \<Rightarrow> int list" where
  "sizes_of b = map snd (filter fst (zip (included b) arena_needs))"

lemma filter_zip_Cons: "map snd (filter fst (zip (c # cs) (x # xs))) = (if c then [x] else []) @ map snd (filter fst (zip cs xs))"
  by simp

lemma kTensorArenaSize_sizes: "kTensorArenaSize b = const_max (hd (sizes_of b @ [0])) (tl (sizes_of b @ [0]))"
  by (simp only: kTensorArenaSize_def sizes_of_def included_def arena_needs_def filter_zip_Cons Let_def append_assoc)
    (simp only: zip_Nil filter.simps list.map append_Nil)

text \<open>
  The arena is as large as the largest model that is included needs, and empty when none is: the
  examples that only \<open>INCLUDE_ALL_TFLM_EXAMPLES\<close> includes get no arena.
\<close>
theorem arena_fits:
  shows "(\<forall>n\<in>set (sizes_of b). n \<le> kTensorArenaSize b) \<and> kTensorArenaSize b \<in> insert 0 (set (sizes_of b)) \<and>
    (kTensorArenaSize b = 0 \<longleftrightarrow> True \<notin> set (included b))"
proof -
  obtain x ys where xs: "sizes_of b @ [0] = x # ys" by (cases "sizes_of b @ [0]") auto
  then have k: "kTensorArenaSize b = const_max x ys" by (simp add: kTensorArenaSize_sizes)
  have all: "set (sizes_of b @ [0]) = insert x (set ys)" by (simp add: xs)
  have le: "\<forall>n\<in>insert x (set ys). n \<le> const_max x ys" using const_max_ge by auto
  have mem: "kTensorArenaSize b \<in> insert 0 (set (sizes_of b))" using const_max_in [of x ys] all k by auto
  have pos: "\<forall>n\<in>set (sizes_of b). 0 < n" by (auto simp: sizes_of_def arena_needs_def included_def)
  have "kTensorArenaSize b = 0 \<longleftrightarrow> sizes_of b = []"
  proof
    assume zero: "kTensorArenaSize b = 0"
    show "sizes_of b = []"
    proof (cases "sizes_of b")
      case (Cons y zs)
      then have "y \<le> 0" using le all k zero by auto
      then show ?thesis using pos Cons by auto
    qed simp
  qed (use mem in auto)
  also have "sizes_of b = [] \<longleftrightarrow> True \<notin> set (included b)"
    by (auto simp: sizes_of_def included_def arena_needs_def)
  finally show ?thesis using mem le all k by auto
qed

section \<open>The input tensor\<close>

definition wf_tensor :: "'b list \<Rightarrow> TfLiteTensor \<Rightarrow> bool" where
  "wf_tensor arena t \<longleftrightarrow> 0 \<le> data_at t \<and> data_at t + uint (bytes t) \<le> int (length arena)"

definition with_bytes :: "'b list \<Rightarrow> int \<Rightarrow> 'b list \<Rightarrow> 'b list" where
  "with_bytes arena off new = take (nat off) arena @ new @ drop (nat off + length new) arena"

lemma memcpy_with_bytes:
  assumes "0 \<le> off" and "off + int n \<le> int (length arena)" and "n \<le> length new"
  shows "memcpy arena off new (int n) = Some (with_bytes arena off (take n new))"
  using assms by (simp add: memcpy_def with_bytes_def nat_add_distrib)

lemma memcpy_tensor:
  assumes "wf_tensor arena t" and "unat (bytes t) \<le> length new"
  shows "memcpy arena (data_at t) new (uint (bytes t)) = Some (with_bytes arena (data_at t) (take (unat (bytes t)) new))"
  using assms unfolding uint_nat wf_tensor_def by (intro memcpy_with_bytes) auto

lemma length_with_bytes:
  "0 \<le> off \<Longrightarrow> off + int (length new) \<le> int (length arena) \<Longrightarrow> length (with_bytes arena off new) = length arena"
  by (simp add: with_bytes_def)

lemma write_bytes:
  assumes "0 \<le> off" and "off + int n \<le> int (length arena)" and "\<And>i. i < n \<Longrightarrow> f (int i) = Some (g i)"
  shows "cfor 0 (int n) 1 (\<lambda>i arena. do { v \<leftarrow> f i; wr arena (off + i) v }) arena =
    Some (with_bytes arena off (map g [0..<n]))" (is "?loop = _")
proof -
  have "ok ?loop (\<lambda>a. a = with_bytes arena off (map g [0..<n]))"
  proof (rule ok_cfor [where I = "\<lambda>i a. a = with_bytes arena off (map g [0..<nat i])"])
    fix i a assume i: "0 \<le> i" "i < int n" and a: "a = with_bytes arena off (map g [0..<nat i])"
    have read: "f i = Some (g (nat i))" using assms(3) [of "nat i"] i by simp
    have here: "length (take (nat off) arena @ map g [0..<nat i]) = nat (off + i)" using assms(1,2) i by (simp add: nat_add_distrib)
    have "drop (nat off + nat i) arena = arena ! (nat off + nat i) # drop (Suc (nat off + nat i)) arena"
      using assms(1,2) i by (intro Cons_nth_drop_Suc [symmetric]) linarith
    then have split: "a = (take (nat off) arena @ map g [0..<nat i]) @ arena ! (nat off + nat i) # drop (Suc (nat off + nat i)) arena"
      by (simp add: a with_bytes_def)
    have "a[nat (off + i) := g (nat i)] = (take (nat off) arena @ map g [0..<nat i]) @ g (nat i) # drop (Suc (nat off + nat i)) arena"
      unfolding split here [symmetric] by (rule list_update_length)
    also have "\<dots> = with_bytes arena off (map g [0..<nat (i + 1)])"
      using i by (simp add: with_bytes_def nat_add_distrib)
    finally have "a[nat (off + i) := g (nat i)] = with_bytes arena off (map g [0..<nat (i + 1)])" .
    moreover have "length a = length arena" using assms(1,2) i by (simp add: a with_bytes_def)
    ultimately show "ok (do { v \<leftarrow> f i; wr a (off + i) v }) (\<lambda>a. a = with_bytes arena off (map g [0..<nat (i + 1)]))"
      using assms(1,2) i by (simp add: ok_simps read)
  qed (auto simp: with_bytes_def)
  then show ?thesis by (simp add: ok_eq_iff)
qed

text \<open>
  C32. \<open>tflite_set_input_unsigned\<close> stores every byte of the image minus 128, as a signed byte, and
  changes nothing outside the input tensor.
\<close>
theorem set_input_unsigned_stores:
  assumes "input0 s = Some t" and "wf_tensor (tensor_arena s) t" and "unat (bytes t) \<le> length data"
  shows "tflite_set_input_unsigned pt data s = Some (report_input pt ''Set'' t
      (s\<lparr>tensor_arena := with_bytes (tensor_arena s) (data_at t) (map (\<lambda>d. d - 128) (take (unat (bytes t)) data))\<rparr>)) \<and>
    map sint (map (\<lambda>d. d - 128) (take (unat (bytes t)) data)) = map (\<lambda>d. uint d - 128) (take (unat (bytes t)) data)"
proof
  let ?n = "unat (bytes t)"
  have n: "uint (bytes t) = int ?n" by (rule uint_nat)
  have each_byte: "(\<lambda>i arena. do { d \<leftarrow> rd data i; wr arena (data_at t + i) (word_of_int (uint d - 128)) }) =
    (\<lambda>i arena. do { v \<leftarrow> map_option (\<lambda>d. d - 128) (rd data i); wr arena (data_at t + i) v })"
    by (intro ext) (auto simp: rd_def)
  have image: "map (\<lambda>i. data ! i - 128) [0..<?n] = map (\<lambda>d. d - 128) (take ?n data)"
    using assms(3) by (intro nth_equalityI) simp_all
  have "cfor 0 (int ?n) 1 (\<lambda>i arena. do { v \<leftarrow> map_option (\<lambda>d. d - 128) (rd data i); wr arena (data_at t + i) v }) (tensor_arena s) =
    Some (with_bytes (tensor_arena s) (data_at t) (map (\<lambda>i. data ! i - 128) [0..<?n]))"
  proof (rule write_bytes)
    show "0 \<le> data_at t" "data_at t + int ?n \<le> int (length (tensor_arena s))"
      using assms(2) unfolding wf_tensor_def uint_nat by blast+
    fix i assume "i < ?n"
    then have "i < length data" using assms(3) by (rule less_le_trans)
    then show "map_option (\<lambda>d. d - 128) (rd data (int i)) = Some (data ! i - 128)" by (simp add: rd_def)
  qed
  then have "cfor 0 (uint (bytes t)) 1 (\<lambda>i arena. do {
      d \<leftarrow> rd data i; wr arena (data_at t + i) (word_of_int (uint d - 128)) }) (tensor_arena s) =
    Some (with_bytes (tensor_arena s) (data_at t) (map (\<lambda>d. d - 128) (take ?n data)))"
    unfolding each_byte n image .
  then show "tflite_set_input_unsigned pt data s = Some (report_input pt ''Set'' t
      (s\<lparr>tensor_arena := with_bytes (tensor_arena s) (data_at t) (map (\<lambda>d. d - 128) (take ?n data))\<rparr>))"
    using assms(1) by (simp add: tflite_set_input_unsigned_def)
  have "sint (d - 128) = uint d - 128" for d :: i8
  proof -
    have "d - 128 = word_of_int (uint d - 128)" by simp
    then show ?thesis using uint_lt2p [of d] by (simp only:) (intro sint8_of_int; simp)
  qed
  then show "map sint (map (\<lambda>d. d - 128) (take ?n data)) = map (\<lambda>d. uint d - 128) (take ?n data)" by simp
qed

section \<open>Frames\<close>

text \<open>What the routines of the console, the counters and the log leave alone: every field beyond the counters'.\<close>

named_theorems frames \<open>routines that change the console and the counters only\<close>

lemma cfor_keeps:
  "cfor a n k f s = Some t \<Longrightarrow> P s \<Longrightarrow> (\<And>i s t. f i s = Some t \<Longrightarrow> P s \<Longrightarrow> P t) \<Longrightarrow> P t"
proof (induction a n k f s rule: cfor.induct)
  case (1 i n k f s)
  show ?case
  proof (cases "i < n \<and> 0 < k")
    case True
    with "1.prems"(1) obtain s' where s': "f i s = Some s'" "cfor (i + k) n k f s' = Some t"
      by (subst (asm) cfor.simps) (auto split: option.splits)
    show ?thesis
      by (rule "1.IH" [OF True s'(1) s'(2) "1.prems"(3) [OF s'(1) "1.prems"(2)] "1.prems"(3)])
  next
    case False
    with "1.prems"(1,2) show ?thesis by (subst (asm) cfor.simps) auto
  qed
qed

lemma print_more [simp]: "perf.more (print str s) = perf.more s"
  by (simp add: print_def)

lemma puts_more [simp]: "perf.more (puts str s) = perf.more s"
  by (simp add: puts_def)

lemma putsnonl_more [frames]: "putsnonl str s = Some t \<Longrightarrow> perf.more t = perf.more s"
  by (induction str s rule: putsnonl.induct) (auto split: if_splits)

lemma MicroPrintf_more [frames]: "MicroPrintf ps s = Some t \<Longrightarrow> perf.more t = perf.more s"
  by (auto simp: MicroPrintf_def DebugLog_def Let_def split: bind_splits dest!: frames)

lemma csr_more [simp]: "perf.more (snd (csrr env a s)) = perf.more s" "perf.more (csrw env a v s) = perf.more s"
  by (simp_all add: csrr_def csrw_def run_cpu_def Let_def)

lemma csrr_more [frames]: "csrr env a s = (v, t) \<Longrightarrow> perf.more t = perf.more s"
  using csr_more(1) [of env a s] by simp

lemma mcycle64_more [frames]:
  fixes s t :: "'a perf_scheme"
  shows "perf_get_mcycle64 env s = Some (v, t) \<Longrightarrow> perf.more t = perf.more s"
proof -
  have "perf.more (snd r) = perf.more s" if "perf_get_mcycle64 env s = Some r" for r
  proof (rule perf_get_mcycle64.raw_induct [where P = "\<lambda>env s r. perf.more (snd r) = perf.more s", OF _ that])
    fix f :: "csr_env \<Rightarrow> 'a perf_scheme \<Rightarrow> (i64 \<times> 'a perf_scheme) option"
      and env and s :: "'a perf_scheme" and r
    assume IH: "\<And>env s r. f env s = Some r \<Longrightarrow> perf.more (snd r) = perf.more s"
    obtain h s1 l s2 h' s3 where csrs: "csrr env mcycleh s = (h, s1)" "csrr env mcycle s1 = (l, s2)" "csrr env mcycleh s2 = (h', s3)"
      by (meson surj_pair)
    assume "(let (cycle_high, s) = csrr env mcycleh s; (cycle_low, s) = csrr env mcycle s;
        (cycle_high_2, s) = csrr env mcycleh s
      in if cycle_high \<noteq> cycle_high_2 then f env s
         else Some (push_bit 32 (ucast cycle_high) OR ucast cycle_low, s)) = Some r"
    then have "f env s3 = Some r \<or> snd r = s3" by (auto simp: csrs split: if_splits)
    moreover have "perf.more s3 = perf.more s" using csrs [THEN csrr_more] by simp
    ultimately show "perf.more (snd r) = perf.more s" using IH [of env s3 r] by auto
  qed
  then show "perf_get_mcycle64 env s = Some (v, t) \<Longrightarrow> perf.more t = perf.more s" by fastforce
qed

lemma counters_more [frames]:
  "perf_zero_start_counts cfg s = Some t \<Longrightarrow> perf.more t = perf.more s"
  "perf_set_counter_enable cfg env i en s = Some t \<Longrightarrow> perf.more t = perf.more s"
  "perf_disable_counter cfg env i s = Some t \<Longrightarrow> perf.more t = perf.more s"
  "perf_get_counter cfg env i s = (v, t) \<Longrightarrow> perf.more t = perf.more s"
proof -
  show "perf_zero_start_counts cfg s = Some t \<Longrightarrow> perf.more t = perf.more s"
    unfolding perf_zero_start_counts_def
    by (erule cfor_keeps [where P = "\<lambda>u. perf.more u = perf.more s"]) (auto split: bind_splits)
  have enable: "perf_set_counter_enable cfg env i en s = Some t \<Longrightarrow> perf.more t = perf.more s" for en
    by (auto simp: perf_set_counter_enable_def split: if_splits bind_splits option.splits)
  then show "perf_set_counter_enable cfg env i en s = Some t \<Longrightarrow> perf.more t = perf.more s"
    "perf_disable_counter cfg env i s = Some t \<Longrightarrow> perf.more t = perf.more s"
    by (simp_all add: perf_disable_counter_def)
  show "perf_get_counter cfg env i s = (v, t) \<Longrightarrow> perf.more t = perf.more s"
    by (auto simp: perf_get_counter_def split: if_splits option.splits dest!: frames)
qed

lemma set_counter_more [simp]: "perf.more (perf_set_counter cfg env i v s) = perf.more s"
  by (simp add: perf_set_counter_def split: option.split)

lemma reset_more [frames]: "perf_reset_all_counters cfg env s = Some t \<Longrightarrow> perf.more t = perf.more s"
proof -
  assume "perf_reset_all_counters cfg env s = Some t"
  then obtain u where u: "cfor 0 (NUM_PERF_COUNTERS cfg) 1 (\<lambda>i s. do {
       s \<leftarrow> perf_disable_counter cfg env i s;
       Some (perf_set_counter cfg env i 0 s) }) s = Some u" "perf_zero_start_counts cfg u = Some t"
    by (auto simp: perf_reset_all_counters_def split: bind_splits)
  have "perf.more u = perf.more s"
    using u(1) by (rule cfor_keeps [where P = "\<lambda>u. perf.more u = perf.more s"]) (auto split: bind_splits dest!: frames)
  with frames(5) show ?thesis using u(2) counters_more(1) by fastforce
qed

lemma print_value_more [simp]:
  "perf.more (perf_print_human n s) = perf.more s" "perf.more (perf_print_value n s) = perf.more s"
  "perf.more (print_counter_row i cycles starts s) = perf.more s"
  by (simp_all add: perf_print_human_def perf_print_value_def print_counter_row_def Let_def)

lemma print_all_more [frames]: "perf_print_all_counters cfg env s = Some t \<Longrightarrow> perf.more t = perf.more s"
proof (cases "NUM_PERF_COUNTERS cfg = 0")
  case False
  assume "perf_print_all_counters cfg env s = Some t"
  with False obtain u where u: "cfor 0 (NUM_PERF_COUNTERS cfg) 1 (perf_disable_counter cfg env) s = Some u"
    and v: "cfor 0 (NUM_PERF_COUNTERS cfg) 1 (\<lambda>i s. do {
          let (cycles, s) = perf_get_counter cfg env i s;
          starts \<leftarrow> perf_get_start_count i s;
          let cycles = cycles - starts * 3;
          Some (print_counter_row i cycles starts s) })
      (print (''---------+--------+--------+---------+--------------'' @ [LF])
        (print ('' Counter |  Total | Starts | Average |     Raw'' @ [LF]) u)) = Some t"
    by (auto simp: perf_print_all_counters_def split: bind_splits)
  have "perf.more u = perf.more s"
    using u by (rule cfor_keeps [where P = "\<lambda>u. perf.more u = perf.more s"]) (auto dest!: frames)
  moreover have "perf.more t = perf.more u"
    using v by (rule cfor_keeps [where P = "\<lambda>t. perf.more t = perf.more u"])
      (auto simp: Let_def split: bind_splits prod.splits dest!: frames)
  ultimately show ?thesis by simp
qed (auto simp: perf_print_all_counters_def)

lemma LogCsv_more [frames]: "LogCsv p s = Some t \<Longrightarrow> perf.more t = perf.more s"
proof -
  assume "LogCsv p s = Some t"
  then obtain u where u: "perf.more u = perf.more s" and t: "cfor 0 (num_events p) 1 (\<lambda>i s. do {
       ticks \<leftarrow> event_ticks p i;
       tag \<leftarrow> rd (tags p) i;
       MicroPrintf [Int32 (word_of_int i), Lit '','', Str tag, Lit '','', Int32 (word_of_int ticks)] s }) u = Some t"
    by (auto simp: LogCsv_def split: bind_splits dest: frames)
  have "perf.more t = perf.more u"
    using t by (rule cfor_keeps [where P = "\<lambda>t. perf.more t = perf.more u"]) (auto split: bind_splits dest!: frames)
  with u show ?thesis by simp
qed

lemma ticks_more [frames]: "GetCurrentTimeTicks env s = Some (v, t) \<Longrightarrow> perf.more t = perf.more s"
  by (auto simp: GetCurrentTimeTicks_def split: bind_splits dest!: frames)

lemma events_more [frames]:
  "ProgressProfiler_BeginEvent hide env tag (p, s) = Some (h, q, t) \<Longrightarrow> perf.more t = perf.more s"
  "EndEvent nd env h (p, s) = Some (q, t) \<Longrightarrow> perf.more t = perf.more s"
  by (auto simp: ProgressProfiler_BeginEvent_def BeginEvent_def EndEvent_def Let_def split: bind_splits if_splits dest!: frames)

section \<open>Well-formed machines\<close>

definition tfl_part :: "'a tfl_state_scheme \<Rightarrow> MicroProfiler \<times> MicroInterpreter option \<times> i8 list" where
  "tfl_part s = (profiler s, interpreter s, tensor_arena s)"

lemma tfl_part_more: "perf.more s = perf.more t \<Longrightarrow> tfl_part s = tfl_part t"
  by (cases s; cases t) (simp add: tfl_part_def)

definition wf_tensors :: "int \<Rightarrow> TfLiteTensor list \<Rightarrow> bool" where
  "wf_tensors N ts \<longleftrightarrow> (\<forall>t\<in>set ts. 0 \<le> data_at t \<and> data_at t + uint (bytes t) \<le> N)"

definition wf_part :: "int \<Rightarrow> MicroProfiler \<times> MicroInterpreter option \<times> i8 list \<Rightarrow> bool" where
  "wf_part N = (\<lambda>(p, ip, arena). wf_profiler p \<and> int (length arena) = N \<and>
     (case ip of None \<Rightarrow> True | Some ip \<Rightarrow> wf_tensors N (input_tensors ip) \<and> wf_tensors N (output_tensors ip)))"

text \<open>The profiler has its arrays, the arena its size, and every tensor lies inside the arena.\<close>

definition wf_tfl :: "int \<Rightarrow> 'a tfl_state_scheme \<Rightarrow> bool" where
  "wf_tfl N s \<longleftrightarrow> wf_part N (tfl_part s)"

text \<open>
  What is asked of the planner and the operators: they keep a machine well-formed, and the planner
  places tensors inside the arena.
\<close>

definition planner_ok :: "int \<Rightarrow> 'a tfl_state_scheme tflm \<Rightarrow> bool" where
  "planner_ok N lib \<longleftrightarrow>
     (\<forall>m n s a t. wf_tfl N s \<and> allocate lib m n s = Some (a, t) \<longrightarrow>
        wf_tfl N t \<and> wf_tensors N (inputs a) \<and> wf_tensors N (outputs a)) \<and>
     (\<forall>m node s r t. node \<in> set (operators lib m) \<and> wf_tfl N s \<and> op_invoke node s = Some (r, t) \<longrightarrow> wf_tfl N t) \<and>
     (\<forall>ip s t. wf_tfl N s \<and> destroy lib ip s = Some t \<longrightarrow> wf_tfl N t)"

inductive tfl_call :: "port \<Rightarrow> 'a tfl_state_scheme tflm \<Rightarrow> 'a tfl_state_scheme \<Rightarrow> 'a tfl_state_scheme \<Rightarrow> bool"
  for pt :: port and lib :: "'a tfl_state_scheme tflm" where
  load: "tflite_load_model lib m len s = Some t \<Longrightarrow> tfl_call pt lib s t"
| zeros: "tflite_set_input_zeros pt s = Some t \<Longrightarrow> tfl_call pt lib s t"
| zeros_float: "tflite_set_input_zeros_float pt s = Some t \<Longrightarrow> tfl_call pt lib s t"
| bytes: "tflite_set_input pt data s = Some t \<Longrightarrow> tfl_call pt lib s t"
| bytes_unsigned: "tflite_set_input_unsigned pt data s = Some t \<Longrightarrow> tfl_call pt lib s t"
| bytes_float: "tflite_set_input_float pt data s = Some t \<Longrightarrow> tfl_call pt lib s t"
| random: "tflite_randomize_input pt seed s = Some t \<Longrightarrow> tfl_call pt lib s t"
| grid: "tflite_set_grid_input pt s = Some t \<Longrightarrow> tfl_call pt lib s t"
| classify: "tflite_classify pt lib s = Some t \<Longrightarrow> tfl_call pt lib s t"

lemma wf_same: "wf_tfl N s \<Longrightarrow> tfl_part t = tfl_part s \<Longrightarrow> wf_tfl N t"
  by (simp add: wf_tfl_def)

lemma wf_more: "perf.more t = perf.more s \<Longrightarrow> wf_tfl N t = wf_tfl N s"
  by (simp add: wf_tfl_def tfl_part_more [of t s])

lemma wf_print [simp]: "wf_tfl N (print str s) = wf_tfl N s" "wf_tfl N (puts str s) = wf_tfl N s"
  "wf_tfl N (perf_print_value n s) = wf_tfl N s"
  by (rule wf_more, simp)+

lemma wf_arena: "wf_tfl N (s\<lparr>tensor_arena := a\<rparr>) \<longleftrightarrow> (wf_part N (profiler s, interpreter s, a))"
  by (simp add: wf_tfl_def tfl_part_def)

lemma wf_tflD: "wf_tfl N s \<Longrightarrow> wf_profiler (profiler s) \<and> int (length (tensor_arena s)) = N"
  by (simp add: wf_tfl_def tfl_part_def wf_part_def)

lemma wf_set_arena: "wf_tfl N s \<Longrightarrow> length a = length (tensor_arena s) \<Longrightarrow> wf_tfl N (s\<lparr>tensor_arena := a\<rparr>)"
  by (simp add: wf_tfl_def tfl_part_def wf_part_def)

lemma wf_set_profiler: "wf_tfl N s \<Longrightarrow> wf_profiler p \<Longrightarrow> wf_tfl N (s\<lparr>profiler := p\<rparr>)"
  by (simp add: wf_tfl_def tfl_part_def wf_part_def)

lemma wf_set_interpreter:
  "wf_tfl N s \<Longrightarrow> wf_tensors N (input_tensors ip) \<Longrightarrow> wf_tensors N (output_tensors ip) \<Longrightarrow> wf_tfl N (s\<lparr>interpreter := Some ip\<rparr>)"
  "wf_tfl N s \<Longrightarrow> wf_tfl N (s\<lparr>interpreter := None\<rparr>)"
  by (simp_all add: wf_tfl_def tfl_part_def wf_part_def)

lemma memcpy_length: "memcpy dst off src n = Some dst' \<Longrightarrow> length dst' = length dst"
  by (auto simp: memcpy_def split: if_splits)

lemma wr_length: "wr xs i v = Some ys \<Longrightarrow> length ys = length xs"
  by (auto simp: wr_def split: if_splits)

lemma cfor_length:
  "cfor a n k f xs = Some ys \<Longrightarrow> (\<And>i us vs. f i us = Some vs \<Longrightarrow> length vs = length us) \<Longrightarrow> length ys = length xs"
  by (erule cfor_keeps [where P = "\<lambda>zs. length zs = length xs"]) auto

lemma wf_events:
  "wf_profiler p \<Longrightarrow> ProgressProfiler_BeginEvent hide env tag (p, s) = Some (h, q, t) \<Longrightarrow> wf_profiler q"
  "wf_profiler p \<Longrightarrow> EndEvent nd env h (p, s) = Some (q, t) \<Longrightarrow> wf_profiler q"
  by (auto simp: ProgressProfiler_BeginEvent_def BeginEvent_def EndEvent_def Let_def wf_profiler_def wr_def kMaxEvents_def
    split: bind_splits if_splits)

lemmas wf_frames = frames [THEN wf_more, THEN iffD2]

lemma wf_Begin:
  "ProgressProfiler_BeginEvent hide env tag (profiler s, s) = Some (h, p, t) \<Longrightarrow> wf_tfl N s \<Longrightarrow> wf_tfl N (t\<lparr>profiler := p\<rparr>)"
  by (rule wf_set_profiler) (auto intro: events_more(1) [THEN wf_more, THEN iffD2] wf_events(1) dest: wf_tflD)

lemma wf_End: "EndEvent nd env h (profiler s, s) = Some (p, t) \<Longrightarrow> wf_tfl N s \<Longrightarrow> wf_tfl N (t\<lparr>profiler := p\<rparr>)"
  by (rule wf_set_profiler) (auto intro: events_more(2) [THEN wf_more, THEN iffD2] wf_events(2) dest: wf_tflD)

text \<open>One node: its event, the operator, the message of a failure, the end of the event.\<close>

lemma InvokeSubgraph_node:
  assumes "InvokeSubgraph pt (node # nodes) i s = Some (r, t)"
  obtains h p s1 st s2 s3 q s4 where
    "ProgressProfiler_BeginEvent (HIDE_DOTS pt) (cpu_clock pt) (op_name node) (profiler s, s) = Some (h, p, s1)"
    "op_invoke node (s1\<lparr>profiler := p\<rparr>) = Some (st, s2)"
    "(if st = kTfLiteError
       then MicroPrintf [Lit ''Node '', Str (op_name node), Lit '' (number '', Int32 (word_of_int i),
              Lit '') failed to invoke with status '', Int32 1] s2 else Some s2) = Some s3"
    "EndEvent (NDEBUG pt) (cpu_clock pt) h (profiler s3, s3) = Some (q, s4)"
    "(if st \<noteq> kTfLiteOk then Some (st, s4\<lparr>profiler := q\<rparr>) else InvokeSubgraph pt nodes (i + 1) (s4\<lparr>profiler := q\<rparr>)) = Some (r, t)"
  using assms by (auto simp: Let_def split: bind_splits)

lemma wf_InvokeSubgraph:
  assumes "InvokeSubgraph pt nodes i s = Some (r, t)" and "wf_tfl N s"
    and "\<And>node s r t. node \<in> set nodes \<Longrightarrow> wf_tfl N s \<Longrightarrow> op_invoke node s = Some (r, t) \<Longrightarrow> wf_tfl N t"
  shows "wf_tfl N t"
  using assms
proof (induction nodes arbitrary: i s)
  case (Cons node nodes)
  from Cons.prems(1) show ?case
  proof (rule InvokeSubgraph_node)
    fix h p s1 st s2 s3 q s4
    assume b: "ProgressProfiler_BeginEvent (HIDE_DOTS pt) (cpu_clock pt) (op_name node) (profiler s, s) = Some (h, p, s1)"
      and o: "op_invoke node (s1\<lparr>profiler := p\<rparr>) = Some (st, s2)"
      and m: "(if st = kTfLiteError
       then MicroPrintf [Lit ''Node '', Str (op_name node), Lit '' (number '', Int32 (word_of_int i),
              Lit '') failed to invoke with status '', Int32 1] s2 else Some s2) = Some s3"
      and e: "EndEvent (NDEBUG pt) (cpu_clock pt) h (profiler s3, s3) = Some (q, s4)"
      and rest: "(if st \<noteq> kTfLiteOk then Some (st, s4\<lparr>profiler := q\<rparr>)
        else InvokeSubgraph pt nodes (i + 1) (s4\<lparr>profiler := q\<rparr>)) = Some (r, t)"
    have "wf_tfl N s2" using Cons.prems(3) [OF _ wf_Begin [OF b Cons.prems(2)] o] by simp
    then have "wf_tfl N s3" using m by (auto split: if_splits intro: MicroPrintf_more [THEN wf_more, THEN iffD2])
    then have s4: "wf_tfl N (s4\<lparr>profiler := q\<rparr>)" by (rule wf_End [OF e])
    show ?thesis
    proof (cases "st = kTfLiteOk")
      case True
      then have "InvokeSubgraph pt nodes (i + 1) (s4\<lparr>profiler := q\<rparr>) = Some (r, t)" using rest by simp
      then show ?thesis using Cons.IH s4 Cons.prems(3) by (meson list.set_intros(2))
    next
      case False
      then show ?thesis using rest s4 by simp
    qed
  qed
qed simp

lemma wf_allocated:
  assumes "planner_ok N lib" and "wf_tfl N s" and "AllocateTensors lib ip s = Some (st, ip', t)"
  shows "wf_tfl N (t\<lparr>interpreter := Some ip'\<rparr>)"
proof -
  obtain a where a: "allocate lib (model ip) (attempts ip) s = Some (a, t)"
    "input_tensors ip' = inputs a" "output_tensors ip' = outputs a"
    using assms(3) by (auto simp: AllocateTensors_def Let_def split: bind_splits)
  then have "wf_tfl N t \<and> wf_tensors N (inputs a) \<and> wf_tensors N (outputs a)"
    using assms(1,2) unfolding planner_ok_def by blast
  with a show ?thesis by (simp add: wf_set_interpreter)
qed

lemma wf_Invoke:
  assumes "planner_ok N lib" and "wf_tfl N s" and "Invoke pt lib s = Some (r, t)"
  shows "wf_tfl N t"
proof -
  obtain ip where ip: "interpreter s = Some ip" using assms(3) by (auto simp: Invoke_def split: bind_splits)
  have keep: "wf_tfl N (s\<lparr>interpreter := Some ip\<rparr>)" using assms(2) ip by (simp add: wf_tfl_def tfl_part_def)
  show ?thesis
  proof (cases "initialized_ok ip")
    case False
    then obtain u where "MicroPrintf [Lit (''Invoke() called after initialization failed'' @ [LF])] s = Some u" "t = u"
      using assms(3) ip by (auto simp: Invoke_def split: bind_splits)
    then show ?thesis using assms(2) MicroPrintf_more [THEN wf_more, THEN iffD2] by blast
  next
    case True
    then obtain st ip' s1 where s1: "(if tensors_allocated ip then Some (kTfLiteOk, ip, s) else AllocateTensors lib ip s) = Some (st, ip', s1)"
      and rest: "(if st \<noteq> kTfLiteOk then Some (st, s1\<lparr>interpreter := Some ip'\<rparr>)
        else InvokeSubgraph pt (operators lib (model ip')) 0 (s1\<lparr>interpreter := Some ip'\<rparr>)) = Some (r, t)"
      using assms(3) ip by (auto simp: Invoke_def Let_def split: bind_splits if_splits)
    have ready: "wf_tfl N (s1\<lparr>interpreter := Some ip'\<rparr>)"
      using s1 keep wf_allocated [OF assms(1,2)] by (auto split: if_splits)
    show ?thesis
    proof (cases "st = kTfLiteOk")
      case True
      then have "InvokeSubgraph pt (operators lib (model ip')) 0 (s1\<lparr>interpreter := Some ip'\<rparr>) = Some (r, t)" using rest by simp
      then show ?thesis using ready
      proof (rule wf_InvokeSubgraph)
        show "wf_tfl N t" if "node \<in> set (operators lib (model ip'))" "wf_tfl N s" "op_invoke node s = Some (r, t)" for node s r t
          using that assms(1) unfolding planner_ok_def by blast
      qed
    qed (use rest ready in simp)
  qed
qed

lemma wf_tfl_init: "tflite_init s = Some t \<Longrightarrow> wf_tfl N s \<Longrightarrow> wf_tfl N t"
proof -
  assume s: "tflite_init s = Some t" "wf_tfl N s"
  show "wf_tfl N t"
  proof (cases "tfl_initialized s")
    case False
    then obtain u where u: "MicroPrintf [Lit ''Error_reporter OK!''] (s\<lparr>tfl_initialized := True\<rparr>) = Some u"
      "t = u\<lparr>profiler := ClearEvents (profiler u)\<rparr>" using s(1) by (auto simp: tflite_init_def Let_def split: bind_splits)
    have "wf_tfl N (s\<lparr>tfl_initialized := True\<rparr>)" using s(2) by (simp add: wf_tfl_def tfl_part_def)
    then have "wf_tfl N u" using MicroPrintf_more [OF u(1), THEN wf_more] by simp
    then show ?thesis unfolding u(2) by (intro wf_set_profiler) (auto dest: wf_tflD recorded_clear)
  qed (use s in \<open>simp add: tflite_init_def\<close>)
qed

lemma bindE: "Option.bind m f = Some y \<Longrightarrow> (\<And>x. m = Some x \<Longrightarrow> f x = Some y \<Longrightarrow> P) \<Longrightarrow> P"
  by (cases m) auto

lemma report_dims_more [frames]: "report_dims input s = Some t \<Longrightarrow> perf.more t = perf.more s"
  unfolding report_dims_def Let_def
proof (elim bindE)
  fix u assume u: "cfor 0 (int (length (dims input))) 1 (print_dim input)
      (print (''Input: '' @ dec (sint (bytes input)) @ '' bytes, '' @ dec (int (length (dims input))) @ '' dims:'') s) = Some u"
    and t: "Some (puts [LF] u) = Some t"
  have "perf.more u = perf.more s"
    using u by (rule cfor_keeps [where P = "\<lambda>u. perf.more u = perf.more s"]) (auto simp: print_dim_def split: bind_splits)
  then show "perf.more t = perf.more s" using t by auto
qed

lemma report_cycles_more [frames]: "report_cycles pt n s = Some t \<Longrightarrow> perf.more t = perf.more s"
  unfolding report_cycles_def Let_def
proof (elim bindE)
  fix u assume u: "(if NPROFILE pt then Some s
      else LogCsv (profiler (print [LF] s)) (print [LF] s) \<bind> perf_print_all_counters (PERF_CSRS pt) (cpu_clock pt)) = Some u"
    and t: "Some (print ('' cycles total'' @ [LF]) (perf_print_value n u)) = Some t"
  have "perf.more u = perf.more s"
    using u by (auto split: if_splits elim!: bindE dest!: LogCsv_more print_all_more)
  then show "perf.more t = perf.more s" using t by auto
qed

lemma wf_drop:
  assumes "planner_ok N lib" and "wf_tfl N s" and "drop_interpreter lib s = Some t"
  shows "wf_tfl N t"
proof (cases "interpreter s")
  case (Some old)
  then obtain u where u: "destroy lib old s = Some u" "t = u\<lparr>interpreter := None\<rparr>"
    using assms(3) by (auto simp: drop_interpreter_def elim!: bindE)
  have "wf_tfl N u" using assms(1,2) u(1) unfolding planner_ok_def by blast
  then show ?thesis by (simp add: u(2) wf_set_interpreter(2))
qed (use assms in \<open>simp add: drop_interpreter_def\<close>)

lemma wf_load:
  assumes "planner_ok N lib" and "wf_tfl N s" and "tflite_load_model lib m len s = Some t"
  shows "wf_tfl N t"
proof -
  obtain s1 s2 st ip s3 where s1: "tflite_init s = Some s1" and s2: "drop_interpreter lib s1 = Some s2"
    and s3: "AllocateTensors lib (new_interpreter m) s2 = Some (st, ip, s3)"
    using assms(3) unfolding tflite_load_model_def tflite_preload_def by (auto split: bind_splits)
  let ?s3 = "s3\<lparr>interpreter := Some ip\<rparr>"
  have w3: "wf_tfl N ?s3"
    using wf_allocated [OF assms(1) _ s3] wf_drop [OF assms(1) _ s2] wf_tfl_init [OF s1 assms(2)] by blast
  show ?thesis
  proof (cases "st = kTfLiteOk")
    case False
    then have "MicroPrintf [Lit ''AllocateTensors() failed''] ?s3 = Some t"
      using assms(3) s1 s2 s3 by (simp add: tflite_load_model_def tflite_preload_def Let_def)
    from MicroPrintf_more [OF this, THEN wf_more] show ?thesis using w3 by simp
  next
    case True
    then obtain input where "report_dims input ?s3 = Some t"
      using assms(3) s1 s2 s3
      by (auto simp: tflite_load_model_def tflite_preload_def tflite_postload_def Let_def split: bind_splits)
    from report_dims_more [OF this, THEN wf_more] show ?thesis using w3 by simp
  qed
qed

lemma wf_classify:
  assumes "planner_ok N lib" and "wf_tfl N s" and "tflite_classify pt lib s = Some t"
  shows "wf_tfl N t"
proof -
  let ?s = "s\<lparr>profiler := ClearEvents (profiler s)\<rparr>"
  obtain s1 start s2 st s3 stop s4 where s1: "perf_reset_all_counters (PERF_CSRS pt) (cpu_clock pt) ?s = Some s1"
    and s2: "perf_get_mcycle64 (cpu_clock pt) s1 = Some (start, s2)" and s3: "Invoke pt lib s2 = Some (st, s3)"
    and s4: "perf_get_mcycle64 (cpu_clock pt) (if st \<noteq> kTfLiteOk then puts ''Invoke failed.'' s3 else s3) = Some (stop, s4)"
    and t: "report_cycles pt (stop - start) s4 = Some t"
    using assms(3) unfolding tflite_classify_def Let_def by (auto elim!: bindE)
  have "wf_tfl N ?s" using assms(2) by (intro wf_set_profiler) (auto dest: wf_tflD recorded_clear)
  then have "wf_tfl N s2" by (simp only: wf_more [OF reset_more [OF s1]] wf_more [OF mcycle64_more [OF s2]])
  then have "wf_tfl N s3" by (rule wf_Invoke [OF assms(1) _ s3])
  then have "wf_tfl N (if st \<noteq> kTfLiteOk then puts ''Invoke failed.'' s3 else s3)" by simp
  then show ?thesis by (simp only: wf_more [OF report_cycles_more [OF t]] wf_more [OF mcycle64_more [OF s4]])
qed

lemma wf_set_input:
  assumes "wf_tfl N s" and "a = Some arena" and "\<And>b. a = Some b \<Longrightarrow> length b = length (tensor_arena s)"
  shows "wf_tfl N (report_input pt done t (s\<lparr>tensor_arena := arena\<rparr>))"
  using wf_set_arena [OF assms(1), of arena] assms(2,3) by (simp add: report_input_def)

lemma wf_grid:
  assumes "tflite_set_grid_input pt s = Some t" and "wf_tfl N s"
  shows "wf_tfl N t"
  using assms(1) unfolding tflite_set_grid_input_def
proof (elim bindE)
  fix input height width arena
  assume i: "cfor 0 (uint height) 1 (\<lambda>y. cfor 0 (uint width) 1 (\<lambda>x.
      set_grid_byte (data_at input) width (word_of_int y) (word_of_int x))) (tensor_arena s) = Some arena"
    and t: "Some (report_input pt ''Set'' input (s\<lparr>tensor_arena := arena\<rparr>)) = Some t"
  have "length arena = length (tensor_arena s)"
    using i by (rule cfor_length) (erule cfor_length, auto simp: set_grid_byte_def dest!: wr_length)
  then have "wf_tfl N (report_input pt ''Set'' input (s\<lparr>tensor_arena := arena\<rparr>))"
    by (intro wf_set_input [OF assms(2)]) auto
  then show "wf_tfl N t" using t by simp
qed


section \<open>A model that does not fit\<close>


section \<open>The events of a classification\<close>

text \<open>
  A machine on which the clock answers and every node succeeds, described by a property \<open>J\<close> of
  its states that clock and nodes keep; nodes do not profile on their own.
\<close>

definition steady :: "('a tfl_state_scheme \<Rightarrow> bool) \<Rightarrow> port \<Rightarrow> 'a tfl_state_scheme node list \<Rightarrow> bool" where
  "steady J pt nodes \<longleftrightarrow>
     (\<forall>s. J s \<longrightarrow> (\<exists>now t. GetCurrentTimeTicks (cpu_clock pt) s = Some (now, t) \<and> - (2 ^ 31) < sint now \<and> J t)) \<and>
     (\<forall>s p. J s \<longrightarrow> J (s\<lparr>profiler := p\<rparr>)) \<and> (\<forall>s. J s \<longrightarrow> J (print ''.'' s)) \<and>
     (\<forall>node\<in>set nodes. \<forall>s. J s \<longrightarrow> (\<exists>t. op_invoke node s = Some (kTfLiteOk, t) \<and> profiler t = profiler s \<and> J t))"

lemma profiler_more: "perf.more s = perf.more t \<Longrightarrow> profiler s = profiler t"
  using tfl_part_more [of s t] by (simp add: tfl_part_def)

lemma InvokeSubgraph_records:
  assumes "steady J pt nodes" and "J s" and "wf_profiler (profiler s)"
  shows "\<exists>t es. InvokeSubgraph pt nodes i s = Some (kTfLiteOk, t) \<and> J t \<and> wf_profiler (profiler t) \<and>
    recorded (profiler t) = fold push_event es (recorded (profiler s)) \<and> map fst es = map op_name nodes"
  using assms
proof (induction nodes arbitrary: s i)
  case Nil
  then show ?case by (auto intro: exI [of _ "[]"])
next
  case (Cons node nodes)
  let ?s = "if HIDE_DOTS pt then s else print ''.'' s"
  have J: "J ?s" using Cons.prems(1,2) unfolding steady_def by simp
  then obtain t0 s1 where t0: "GetCurrentTimeTicks (cpu_clock pt) ?s = Some (t0, s1)" "- (2 ^ 31) < sint t0" "J s1"
    using Cons.prems(1) unfolding steady_def by blast
  let ?p = "profiler s"
  have b: "ProgressProfiler_BeginEvent (HIDE_DOTS pt) (cpu_clock pt) (op_name node) (profiler s, s) =
      Some (open_slot ?p, begun (op_name node) t0 ?p, s1)"
    using BeginEvent_begun [OF Cons.prems(3) t0(1,2)] by (simp add: ProgressProfiler_BeginEvent_def)
  obtain s2 where s2: "op_invoke node (s1\<lparr>profiler := begun (op_name node) t0 ?p\<rparr>) = Some (kTfLiteOk, s2)"
    "profiler s2 = begun (op_name node) t0 ?p" "J s2"
  proof -
    have "J (s1\<lparr>profiler := begun (op_name node) t0 ?p\<rparr>)" using Cons.prems(1) t0(3) unfolding steady_def by blast
    then obtain u where "op_invoke node (s1\<lparr>profiler := begun (op_name node) t0 ?p\<rparr>) = Some (kTfLiteOk, u)"
      "profiler u = profiler (s1\<lparr>profiler := begun (op_name node) t0 ?p\<rparr>)" "J u"
      using Cons.prems(1) unfolding steady_def by (meson list.set_intros(1))
    then show thesis using that [of u] by simp
  qed
  obtain t1 s3 where t1: "GetCurrentTimeTicks (cpu_clock pt) s2 = Some (t1, s3)" "J s3"
    using Cons.prems(1) s2(3) unfolding steady_def by blast
  define q where "q = (let b = begun (op_name node) t0 ?p in b\<lparr>end_ticks := (end_ticks b)[nat (open_slot ?p) := t1]\<rparr>)"
  have e: "EndEvent (NDEBUG pt) (cpu_clock pt) (open_slot ?p) (profiler s2, s2) = Some (q, s3)"
    using EndEvent_closed [OF Cons.prems(3) t1(1), of "NDEBUG pt" ?p "op_name node" t0] open_slot_bounds [OF Cons.prems(3)]
    by (simp add: s2(2) q_def)
  have q: "wf_profiler q" "recorded q = push_event (op_name node, t0, t1) (recorded ?p)"
    using event_recorded [OF Cons.prems(3)] by (simp_all add: q_def Let_def)
  have "steady J pt nodes" using Cons.prems(1) unfolding steady_def by simp
  moreover have "J (s3\<lparr>profiler := q\<rparr>)" using Cons.prems(1) t1(2) unfolding steady_def by blast
  ultimately obtain t es where t: "InvokeSubgraph pt nodes (i + 1) (s3\<lparr>profiler := q\<rparr>) = Some (kTfLiteOk, t)" "J t"
    "wf_profiler (profiler t)" "recorded (profiler t) = fold push_event es (recorded q)" "map fst es = map op_name nodes"
    using Cons.IH [of "s3\<lparr>profiler := q\<rparr>" "i + 1"] q(1) by auto
  have "InvokeSubgraph pt (node # nodes) i s = Some (kTfLiteOk, t)"
    by (simp add: b s2(1) e t(1))
  with t q(2) show ?case by (intro exI [of _ t] exI [of _ "(op_name node, t0, t1) # es"]) simp
qed

text \<open>
  C31. Running a graph from a cleared profiler succeeds when its nodes do, and the profiler then reports
  the nodes in their order, but of more than 1024 only those from the last multiple of 1024 on.
\<close>
theorem profile_of_graph:
  assumes "steady J pt nodes" and "J s" and "wf_profiler (profiler s)"
  shows "\<exists>t. InvokeSubgraph pt nodes i (s\<lparr>profiler := ClearEvents (profiler s)\<rparr>) = Some (kTfLiteOk, t) \<and>
    map fst (recorded (profiler t)) = drop (1024 * ((length nodes - 1) div 1024)) (map op_name nodes)"
proof -
  let ?s = "s\<lparr>profiler := ClearEvents (profiler s)\<rparr>"
  have c: "recorded (profiler ?s) = []" "wf_profiler (profiler ?s)" using recorded_clear [OF assms(3)] by simp_all
  moreover have "J ?s" using assms(1,2) unfolding steady_def by blast
  ultimately obtain t es where t: "InvokeSubgraph pt nodes i ?s = Some (kTfLiteOk, t)"
    "recorded (profiler t) = fold push_event es []" "map fst es = map op_name nodes"
    using InvokeSubgraph_records [OF assms(1), of ?s i] by auto
  have "length es = length nodes" using t(3) by (metis length_map)
  then have "map fst (recorded (profiler t)) = drop (1024 * ((length nodes - 1) div 1024)) (map op_name nodes)"
    by (simp add: t(2) fold_push flip: t(3) drop_map)
  with t(1) show ?thesis by blast
qed

section \<open>A machine\<close>

definition example_profiler :: MicroProfiler where
  "example_profiler = \<lparr>tags = replicate 1024 [], start_ticks = replicate 1024 0, end_ticks = replicate 1024 0, num_events = 0\<rparr>"

definition example_tfl :: tfl_state where
  "example_tfl = \<lparr>cin = [], cout = [], csr = (\<lambda>_. 0), accesses = 0, CFU_start_counts = replicate 8 0, counter_num = 0,
     fb_mem = [], vtg_enable = False, dma_enable = False, dotfont_initilized = False,
     df_info = \<lparr>font_width = 0, font_height = 0, font_length = 0, font_counts = 0, f_basis = [], font_data = []\<rparr>,
     msg_x = 0, msg_color = 0, tfl_initialized = True, profiler = example_profiler,
     interpreter = Some \<lparr>model = [], initialized_ok = True, tensors_allocated = True, attempts = 1,
       input_tensors = [\<lparr>dims = [1, 2], data_at = 1, bytes = 2\<rparr>], output_tensors = [\<lparr>dims = [1, 1], data_at = 3, bytes = 1\<rparr>]\<rparr>,
     tensor_arena = [0, 0, 0, 0]\<rparr>"

definition example_port :: port where
  "example_port = \<lparr>NDEBUG = True, PERF_CSRS = False, HIDE_DOTS = False, NPROFILE = True, cpu_clock = (\<lambda>_ r. r), arena_address = 0x40000000\<rparr>"

text \<open>The one operator adds one to every byte of the arena; no other model fits.\<close>

definition example_node :: "'a tfl_state_scheme node" where
  "example_node = \<lparr>op_name = ''ADD'', op_invoke = (\<lambda>s. Some (kTfLiteOk, s\<lparr>tensor_arena := map (\<lambda>b. b + 1) (tensor_arena s)\<rparr>))\<rparr>"

definition example_lib :: "'a tfl_state_scheme tflm" where
  "example_lib = \<lparr>allocate = (\<lambda>m n s. Some (\<lparr>status = kTfLiteError, started = False, inputs = [], outputs = []\<rparr>, s)),
     operators = (\<lambda>m. [example_node]), destroy = (\<lambda>ip s. Some s)\<rparr>"

lemma wf_example_profiler: "wf_profiler example_profiler"
  by (simp add: example_profiler_def wf_profiler_def)

lemma set_input_unsigned_stores_witness:
  "tflite_set_input_unsigned example_port [0, 255] example_tfl = Some (report_input example_port ''Set''
      \<lparr>dims = [1, 2], data_at = 1, bytes = 2\<rparr> (example_tfl\<lparr>tensor_arena := [0, - 128, 127, 0]\<rparr>)) \<and>
    map sint [- 128, 127 :: i8] = [- 128, 127]"
  using set_input_unsigned_stores [of example_tfl "\<lparr>dims = [1, 2], data_at = 1, bytes = 2\<rparr>" "[0, 255]" example_port]
  by (simp add: input0_def rd_def example_tfl_def wf_tensor_def with_bytes_def)


lemma example_ticks: "csr s = (\<lambda>_. 0) \<Longrightarrow> GetCurrentTimeTicks (\<lambda>_ r. r) s = Some (0, s\<lparr>accesses := accesses s + 3\<rparr>)"
  by (simp add: GetCurrentTimeTicks_def perf_get_mcycle64.simps csrr_def run_cpu_def numeral_3_eq_3)

lemma example_steady: "steady (\<lambda>s. csr s = (\<lambda>_. 0)) example_port (replicate n example_node)"
  by (auto simp: steady_def example_port_def example_node_def example_ticks print_def)

text \<open>A graph of 1025 nodes is reported as one node.\<close>

lemma profile_of_graph_witness:
  "\<exists>t. InvokeSubgraph example_port (replicate 1025 example_node) 0
      (example_tfl\<lparr>profiler := ClearEvents (profiler example_tfl)\<rparr>) = Some (kTfLiteOk, t) \<and>
    map fst (recorded (profiler t)) = [''ADD'']"
proof -
  have "csr example_tfl = (\<lambda>_. 0)" "wf_profiler (profiler example_tfl)"
    by (simp_all add: example_tfl_def wf_example_profiler)
  from profile_of_graph [OF example_steady this, of 1025 0] show ?thesis
    by (simp add: example_node_def)
qed

lemma example_planner: "planner_ok 4 example_lib"
  unfolding planner_ok_def
proof (intro conjI allI impI)
  fix m n ip r and node and s t :: "'a tfl_state_scheme" and a
  show "wf_tfl 4 t" if "wf_tfl 4 s \<and> allocate example_lib m n s = Some (a, t)" using that by (auto simp: example_lib_def)
  show "wf_tensors 4 (inputs a)" if "wf_tfl 4 s \<and> allocate example_lib m n s = Some (a, t)"
    using that by (auto simp: example_lib_def wf_tensors_def)
  show "wf_tensors 4 (outputs a)" if "wf_tfl 4 s \<and> allocate example_lib m n s = Some (a, t)"
    using that by (auto simp: example_lib_def wf_tensors_def)
  show "wf_tfl 4 t" if "node \<in> set (operators example_lib m) \<and> wf_tfl 4 s \<and> op_invoke node s = Some (r, t)"
    using that by (auto simp: example_lib_def example_node_def intro!: wf_set_arena)
  show "wf_tfl 4 t" if "wf_tfl 4 s \<and> destroy example_lib ip s = Some t" using that by (auto simp: example_lib_def)
qed

lemma example_tfl_wf: "wf_tfl 4 example_tfl"
  by (simp add: wf_tfl_def tfl_part_def wf_part_def example_tfl_def wf_example_profiler wf_tensors_def)


end
