(* ===== verification/Model_Facts.thy ===== *)
theory Model_Facts
  imports Tiny_Models Tflite_Facts
begin

text \<open>
  What the test programs of the models establish: the menu of models is unambiguous for every
  build, predictions and reductions are the functions they claim to be, a golden test passes
  exactly when the results are the expected ones, and what a framebuffer does to the test of MNIST.
\<close>

section \<open>The menu of the models\<close>

lemma number_items_selection:
  "map selection (number_items k xs) = map (\<lambda>i. char_of (k + int i + 0x31)) [0..<length xs]"
proof (induction k xs rule: number_items.induct)
  case (2 k str f xs)
  have "map (\<lambda>i. char_of (k + 1 + int i + 0x31)) [0..<length xs] = map (\<lambda>i. char_of (k + int i + 0x31)) (map Suc [0..<length xs])"
    by (simp add: algebra_simps)
  with 2 show ?case
    by (simp add: MENU_ITEM_def STARTING_SEL_CHAR_def upt_conv_Cons map_Suc_upt [symmetric] del: upt_Suc map_map)
qed simp

lemma included_models_length: "length (included_models b w) \<le> 10"
  by (simp add: included_models_def)

lemma selection_chars:
  "n \<le> 10 \<Longrightarrow> map (\<lambda>i. char_of (0 + int i + 0x31)) [0..<n] = take n ''123456789:''"
proof -
  assume n: "n \<le> 10"
  have "map (\<lambda>i. char_of (0 + int i + 0x31)) [0..<10] = ''123456789:''" by code_simp
  then have "take n (map (\<lambda>i. char_of (0 + int i + 0x31)) [0..<10]) = take n ''123456789:''" by simp
  then show ?thesis using n by (simp add: take_map)
qed

text \<open>
  For every build the items of the menu of models have different characters, none of them the
  exit's or the sentinel's, so that every included model can be selected.
\<close>
theorem models_menu_unambiguous:
  "wf_menu (MODELS_MENU b w) \<and> distinct (map selection (items (MODELS_MENU b w))) \<and>
    map selection (items (MODELS_MENU b w)) =
      (if included_models b w = [] then ''!'' else take (length (included_models b w)) ''123456789:'') @ [CHR ''x'', CHR 0x00]"
proof -
  let ?n = "length (included_models b w)"
  have sel: "map selection (items (MODELS_MENU b w)) = (if included_models b w = [] then ''!'' else take ?n ''123456789:'') @ [CHR ''x'', CHR 0x00]"
    using selection_chars [OF included_models_length [of b w]]
    by (simp add: MODELS_MENU_def number_items_selection MENU_END_def MENU_SENTINEL_def MENU_ITEM_def)
  have "distinct (take ?n ''123456789:'')" by (rule distinct_take) simp
  moreover have "set (take ?n ''123456789:'') \<subseteq> set ''123456789:''" by (rule set_take_subset)
  ultimately have "distinct (map selection (items (MODELS_MENU b w)))" unfolding sel by auto
  moreover have "wf_menu (MODELS_MENU b w)"
    by (auto simp: wf_menu_def MODELS_MENU_def MENU_END_def MENU_SENTINEL_def)
  ultimately show ?thesis using sel by blast
qed

text \<open>
  \<open>INCLUDE_ALL_TFLM_EXAMPLES\<close> alone puts four models into the menu and leaves the arena empty.
\<close>
theorem examples_without_arena:
  assumes "ALL_TFLM_EXAMPLES b" and "True \<notin> set (included b)"
  shows "map description (take 4 (items (MODELS_MENU b w))) =
      [''Person Detection int8 model'', ''Micro Speech'', ''Magic Wand'', ''mnist_nn model''] \<and> kTensorArenaSize b = 0"
proof -
  have "included_models b w = [(''Person Detection int8 model'', pdti8_menu w), (''Micro Speech'', micro_speech_menu w),
      (''Magic Wand'', magic_wand_menu w), (''mnist_nn model'', mnist_nn_menu w)]"
    using assms by (simp add: included_models_def included_def)
  then have "map description (take 4 (items (MODELS_MENU b w))) =
      [''Person Detection int8 model'', ''Micro Speech'', ''Magic Wand'', ''mnist_nn model'']"
    by (simp add: MODELS_MENU_def MENU_ITEM_def)
  moreover have "kTensorArenaSize b = 0" using arena_fits [of b] assms(2) by blast
  ultimately show ?thesis by blast
qed

section \<open>Predictions\<close>

lemma output_byte_eq: "output_byte k s = do { t \<leftarrow> output0 s; rd (tensor_arena s) (data_at t + k) }"
  by (cases "output0 s") (simp_all add: output_byte_def tflite_get_output_def)

text \<open>
  \<open>mnist_nn_classify\<close> predicts the first digit among those with the highest score.
\<close>
theorem mnist_predict_first_maximum:
  assumes "output0 s = Some t" and "wf_tensor (tensor_arena s) t" and "10 \<le> uint (bytes t)"
  shows "ok (mnist_predict s) (\<lambda>d. 0 \<le> d \<and> d < 10 \<and>
    (\<forall>k\<in>{0..<10}. sint (tensor_arena s ! nat (data_at t + k)) \<le> sint (tensor_arena s ! nat (data_at t + d))) \<and>
    (\<forall>k\<in>{0..<d}. sint (tensor_arena s ! nat (data_at t + k)) < sint (tensor_arena s ! nat (data_at t + d))))"
proof -
  let ?v = "\<lambda>k. sint (tensor_arena s ! nat (data_at t + k))"
  have read: "output_byte k s = Some (tensor_arena s ! nat (data_at t + k))" if "0 \<le> k" "k < 10" for k
    using that assms by (simp add: output_byte_eq rd_def wf_tensor_def)
  define I where "I i = (\<lambda>(score, d). (i = 0 \<longrightarrow> score = - 300) \<and> (0 < i \<longrightarrow> 0 \<le> d \<and> d < i \<and> score = ?v d \<and>
    (\<forall>k\<in>{0..<i}. ?v k \<le> score) \<and> (\<forall>k\<in>{0..<d}. ?v k < score)))" for i :: int
  have low: "- 300 < ?v k" for k using sint_greater_eq [of "tensor_arena s ! nat (data_at t + k)"] by simp
  have "ok (cfor 0 10 1 (\<lambda>i (pred_score, pred_idx). do {
       v \<leftarrow> output_byte i s;
       Some (if sint v > pred_score then (sint v, i) else (pred_score, pred_idx)) }) (- 300, - 1)) (I 10)"
  proof (rule ok_cfor [where I = I])
    show "I 0 (- 300, - 1)" by (simp add: I_def)
    fix i p assume i: "0 \<le> i" "i < (10 :: int)" and p: "I i p"
    obtain score d where pd: "p = (score, d)" by (cases p)
    have up: "{0..<i + 1} = insert i {0..<i}" using i by auto
    have first: "d' = i" if "?v i > score" "d' = i" for d' using that by simp
    show "ok ((\<lambda>(pred_score, pred_idx). do {
       v \<leftarrow> output_byte i s;
       Some (if sint v > pred_score then (sint v, i) else (pred_score, pred_idx)) }) p) (I (i + 1))"
    proof (cases "?v i > score")
      case True
      have "\<forall>k\<in>{0..<i}. ?v k < ?v i" using p i True by (auto simp: I_def pd)
      then show ?thesis using True i by (auto simp: pd read ok_simps I_def up)
    next
      case False
      then have "0 < i" using low [of i] p i by (cases "i = 0") (auto simp: I_def pd)
      then show ?thesis using False p i by (auto simp: pd read ok_simps I_def up)
    qed
  qed (auto dest: antisym)
  then show ?thesis
    unfolding mnist_predict_def ok_bind by (rule ok_mono) (auto simp: ok_Some I_def)
qed

text \<open>
  \<open>uint32_xor_reduction\<close> is the exclusive or of the sign-extended bytes, each shifted to the place of
  its position modulo four.
\<close>
theorem xor_reduction_correct:
  assumes "0 \<le> output" and "output + uint len \<le> int (length (tensor_arena s))"
  shows "uint32_xor_reduction output len s = Some (fold (\<lambda>i x. x XOR push_bit (8 * (i mod 4)) (scast (tensor_arena s ! (nat output + i))))
    [0..<unat len] 0)"
proof -
  let ?g = "\<lambda>i x. x XOR push_bit (8 * (i mod 4)) (scast (tensor_arena s ! (nat output + i))) :: i32"
  have lane: "unat ((of_nat n :: i8) AND 3) = n mod 4" for n
  proof -
    have "(of_nat n :: i8) AND 3 = of_nat n mod 4"
      using take_bit_eq_mask [of 2 "of_nat n :: i8"] by (simp add: take_bit_eq_mod mask_eq_exp_minus_1)
    also have "unat \<dots> = n mod 4" by (simp add: unat_mod unat_of_nat mod_mod_cancel)
    finally show ?thesis .
  qed
  have loop: "cfor 0 (int m) 1 (\<lambda>i (x, j). do {
       b \<leftarrow> rd (tensor_arena s) (output + i);
       Some (x XOR push_bit (8 * unat (j AND 3)) (scast b), j + 1) }) (0 :: i32, 0 :: i8) =
     Some (fold ?g [0..<m] 0, of_nat m)" if m: "output + int m \<le> int (length (tensor_arena s))" for m
    unfolding ok_eq_iff [symmetric]
  proof (rule ok_cfor [where I = "\<lambda>i p. p = (fold ?g [0..<nat i] 0, of_nat (nat i))"])
    fix i p assume i: "0 \<le> i" "i < int m" and p: "p = (fold ?g [0..<nat i] 0, (of_nat (nat i) :: i8))"
    have read: "rd (tensor_arena s) (output + i) = Some (tensor_arena s ! (nat output + nat i))"
      using assms(1) i m by (simp add: rd_def nat_add_distrib)
    have step: "nat (i + 1) = Suc (nat i)" using i(1) by simp
    have suc: "(of_nat (Suc (nat i)) :: i8) = of_nat (nat i) + 1" by simp
    show "ok ((\<lambda>(x, j). do {
       b \<leftarrow> rd (tensor_arena s) (output + i);
       Some (x XOR push_bit (8 * unat (j AND 3)) (scast b), j + 1) }) p)
      (\<lambda>p. p = (fold ?g [0..<nat (i + 1)] 0, of_nat (nat (i + 1))))"
      unfolding step by (simp add: p read ok_bind ok_Some lane suc del: of_nat_Suc)
  qed auto
  have n: "uint len = int (unat len)" by (rule uint_nat)
  show ?thesis unfolding uint32_xor_reduction_def n
    by (subst loop) (use assms(2) n in \<open>simp_all only: bind.bind_lunit prod.case\<close>)
qed

section \<open>Golden tests\<close>

text \<open>
  C34. The golden tests of pdti8, once the three classifications have returned \<open>r0\<close>, \<open>r1\<close> and \<open>r2\<close>, end with
  \<open>OK\<close> if these are the expected results and with \<open>FAIL\<close> otherwise.
\<close>
theorem pdti8_golden_verdict:
  assumes "tflite_set_input_zeros (the_port w) s = Some s1" and "pdti8_classify w s1 = Some (r0, s2)"
    and "tflite_set_input (the_port w) (blob w ''g_no_person_data'') s2 = Some s3" and "pdti8_classify w s3 = Some (r1, s4)"
    and "show_on_screen (screen w) ''Classify Not Person'' 96 1 (blob w ''g_no_person_data'') (result_message r1 50) s4 = Some s5"
    and "tflite_set_input (the_port w) (blob w ''g_person_data'') s5 = Some s6" and "pdti8_classify w s6 = Some (r2, s7)"
    and "show_on_screen (screen w) ''Classify Person'' 96 1 (blob w ''g_person_data'') (result_message r2 226) s7 = Some s8"
  shows "\<exists>log. pdti8_golden_tests w s =
    Some (puts (if r0 = - 144 \<and> r1 = 50 \<and> r2 = 226 then ''OK   Golden tests passed'' else ''FAIL Golden tests failed'') (print log s8))"
proof -
  have golden: "pdti8_golden_results ! 1 = 50" "pdti8_golden_results ! 2 = 226" by (simp_all add: pdti8_golden_results_def)
  obtain log where loop: "golden_loop pdti8_compare 0 (zip [r0, r1, r2] pdti8_golden_results) False s8 =
      Some (\<not> (r0 = - 144 \<and> r1 = 50 \<and> r2 = 226), print log s8)"
  proof
    show "golden_loop pdti8_compare 0 (zip [r0, r1, r2] pdti8_golden_results) False s8 =
      Some (\<not> (r0 = - 144 \<and> r1 = 50 \<and> r2 = 226), print
        ((if r0 \<noteq> - 144 then golden_failed 0 (dec r0) (dec (- 144)) else []) @
         (if r1 \<noteq> 50 then golden_failed 1 (dec r1) (dec 50) else []) @
         (if r2 \<noteq> 226 then golden_failed 2 (dec r2) (dec 226) else [])) s8)"
      by (simp add: pdti8_golden_results_def pdti8_compare_def print_def)
  qed
  have "pdti8_golden_tests w s = Some (golden_verdict (\<not> (r0 = - 144 \<and> r1 = 50 \<and> r2 = 226)) (print log s8))"
    unfolding pdti8_golden_tests_def golden
    by (simp only: assms loop bind.bind_lunit prod.case)
  then show ?thesis by (intro exI [of _ log]) (simp add: golden_verdict_def)
qed

section \<open>MNIST on a framebuffer\<close>

lemma cfor_fails_at:
  assumes "a \<le> j" and "j < n" and "\<And>s. f j s = None"
  shows "cfor a n 1 f s = None"
  using assms(1)
proof (induction "nat (j - a)" arbitrary: a s)
  case 0
  then have "a = j" by simp
  then show ?case using assms(2,3) by (simp add: cfor_step)
next
  case (Suc k)
  then have "cfor (a + 1) n 1 f t = None" for t by (intro Suc.hyps) auto
  then show ?case using Suc.prems Suc.hyps(2) assms(2) by (cases "f a s") (simp_all add: cfor_step)
qed

lemma cfor_second_fails:
  assumes "a + 1 < n" and "\<And>t. f a s = Some t \<Longrightarrow> f (a + 1) t = None"
  shows "cfor a n 1 f s = None"
  using assms by (cases "f a s") (simp_all add: cfor_step)

lemma bind_None: "m = None \<Longrightarrow> Option.bind m f = None"
  by simp

lemma bind_fails: "(\<And>x. f x = None) \<Longrightarrow> Option.bind m f = None"
  by (cases m) auto

text \<open>The second row of 160 pixels of three bytes ends beyond 784 bytes.\<close>

lemma picture_too_small:
  assumes "length data = 784"
  shows "fb_draw_buffer W 0 50 160 160 (Some data) 3 fb = None"
proof -
  let ?row = "\<lambda>src_ptr dst_ptr. cfor 0 (uint (160 :: i32)) 1 (\<lambda>i fb. do {
         let (s0, s1, s2) = (3 * i, 3 * i + 1, 3 * i + 2);
         v0 \<leftarrow> rd data (src_ptr + s0);
         fb \<leftarrow> wr_byte fb (dst_ptr + 4 * i) v0;
         v1 \<leftarrow> rd data (src_ptr + s1);
         fb \<leftarrow> wr_byte fb (dst_ptr + 4 * i + 1) v1;
         v2 \<leftarrow> rd data (src_ptr + s2);
         wr_byte fb (dst_ptr + 4 * i + 2) v2 })"
  have second: "?row 480 dst_ptr fb = None" for dst_ptr fb
    by (rule cfor_fails_at [where j = 159]) (simp_all add: rd_def assms)
  have "buffer_rows (\<lambda>i. (3 * i, 3 * i + 1, 3 * i + 2)) W 160 160 data 3 dst fb = None" for dst
    unfolding buffer_rows_def
  proof (rule bind_None, rule cfor_second_fails)
    fix t :: "(int \<times> int) \<times> i32 list"
    assume first: "(\<lambda>((src_ptr, dst_ptr), fb). do {
       fb \<leftarrow> ?row src_ptr dst_ptr fb;
       Some ((src_ptr + uint (3 * 160 :: i32), dst_ptr + 4 * uint W), fb) }) ((0, dst), fb) = Some t"
    then obtain dst' fb' where "t = ((480, dst'), fb')" by (auto elim!: bindE)
    then show "(\<lambda>((src_ptr, dst_ptr), fb). do {
       fb \<leftarrow> ?row src_ptr dst_ptr fb;
       Some ((src_ptr + uint (3 * 160 :: i32), dst_ptr + 4 * uint W), fb) }) t = None"
      by (simp only: prod.case second bind.bind_lzero)
  qed simp
  then show ?thesis by (simp add: fb_draw_buffer_def)
qed


section \<open>The loaded HPS model\<close>

text \<open>
  Whichever model is initialized, when the call returns the interpreter holds it and \<open>loaded_model\<close>
  is its column in the table of expected results.
\<close>
theorem hps_init_consistent:
  assumes "hps_init str name k w s = Some t"
  shows "loaded_model t = k \<and> (\<exists>ip. interpreter t = Some ip \<and> model ip = blob w name)"
proof -
  obtain u where u: "load_blob w name (puts str s) = Some u" "t = u\<lparr>loaded_model := k\<rparr>"
    using assms by (auto simp: hps_init_def elim!: bindE)
  obtain s1 s2 st ip s3 where ip: "AllocateTensors (the_lib w) (new_interpreter (blob w name)) s2 = Some (st, ip, s3)"
    and rest: "(if st \<noteq> kTfLiteOk then MicroPrintf [Lit ''AllocateTensors() failed''] (s3\<lparr>interpreter := Some ip\<rparr>)
      else do { input \<leftarrow> input0 (s3\<lparr>interpreter := Some ip\<rparr>); s \<leftarrow> report_dims input (s3\<lparr>interpreter := Some ip\<rparr>); Some (tflite_postload s) }) = Some u"
    using u(1) unfolding load_blob_def tflite_load_model_def tflite_preload_def Let_def by (auto elim!: bindE)
  have "perf.more u = perf.more (s3\<lparr>interpreter := Some ip\<rparr>)"
    using rest by (auto simp: tflite_postload_def split: if_splits elim!: bindE dest!: MicroPrintf_more report_dims_more)
  then have "interpreter u = Some ip" using tfl_part_more by (fastforce simp: tfl_part_def)
  moreover have "model ip = blob w name"
    using ip by (auto simp: AllocateTensors_def new_interpreter_def Let_def elim!: bindE)
  ultimately show ?thesis by (simp add: u(2))
qed

section \<open>Witnesses\<close>

definition only_examples :: build where
  "only_examples = \<lparr>MODEL_PDTI8 = False, MODEL_MICRO_SPEECH = False, MODEL_MAGIC_WAND = False, MODEL_MNV2 = False,
     MODEL_HPS = False, TINY_ANOMD = False, TINY_IMGC = False, TINY_KWS = False, TINY_VWW = False, MODEL_MNIST_NN = False,
     ALL_TFLM_EXAMPLES = True\<rparr>"

text \<open>A model without operators whose input and output are the same two bytes.\<close>

definition idle_lib :: "'a tfl_state_scheme tflm" where
  "idle_lib = \<lparr>allocate = (\<lambda>m n s. Some (\<lparr>status = kTfLiteOk, started = True,
       inputs = [\<lparr>dims = [1, 2], data_at = 0, bytes = 2\<rparr>], outputs = [\<lparr>dims = [1, 2], data_at = 0, bytes = 2\<rparr>]\<rparr>, s)),
     operators = (\<lambda>m. []), destroy = (\<lambda>ip s. Some s)\<rparr>"

definition example_site :: "'a tfl_state_scheme site" where
  "example_site = \<lparr>the_port = example_port, the_lib = idle_lib,
     blob = (\<lambda>name. if name = ''g_no_person_data'' then [0, 50] else if name = ''g_person_data'' then [- 100, 126] else []),
     screen = None\<rparr>"

definition example_model :: model_state where
  "example_model = tfl_state.extend (example_tfl\<lparr>interpreter := Some \<lparr>model = [], initialized_ok = True, tensors_allocated = True,
       attempts = 1, input_tensors = [\<lparr>dims = [1, 2], data_at = 0, bytes = 2\<rparr>], output_tensors = [\<lparr>dims = [1, 2], data_at = 0, bytes = 2\<rparr>]\<rparr>,
     tensor_arena := [3, 4]\<rparr>) (model_state.fields 0)"

lemma examples_without_arena_witness:
  "map description (take 4 (items (MODELS_MENU only_examples (example_site :: model_state site)))) =
      [''Person Detection int8 model'', ''Micro Speech'', ''Magic Wand'', ''mnist_nn model''] \<and> kTensorArenaSize only_examples = 0"
  by (rule examples_without_arena) (simp_all add: only_examples_def included_def)

lemma mnist_predict_first_maximum_witness:
  "let s = example_tfl\<lparr>tensor_arena := [- 128, 3, 7, 7, 0, 0, 0, 0, 0, 0], interpreter := Some \<lparr>model = [], initialized_ok = True,
       tensors_allocated = True, attempts = 1, input_tensors = [], output_tensors = [\<lparr>dims = [1, 10], data_at = 0, bytes = 10\<rparr>]\<rparr>\<rparr>
   in ok (mnist_predict s) (\<lambda>d. d = 2)"
proof -
  let ?a = "[- 128, 3, 7, 7, 0, 0, 0, 0, 0, 0] :: i8 list"
  let ?s = "example_tfl\<lparr>tensor_arena := ?a, interpreter := Some \<lparr>model = [], initialized_ok = True,
       tensors_allocated = True, attempts = 1, input_tensors = [], output_tensors = [\<lparr>dims = [1, 10], data_at = 0, bytes = 10\<rparr>]\<rparr>\<rparr>"
  have p: "ok (mnist_predict ?s) (\<lambda>d. 0 \<le> d \<and> d < 10 \<and> (\<forall>k\<in>{0..<10}. sint (?a ! nat (0 + k)) \<le> sint (?a ! nat (0 + d))) \<and>
      (\<forall>k\<in>{0..<d}. sint (?a ! nat (0 + k)) < sint (?a ! nat (0 + d))))"
    using mnist_predict_first_maximum [of ?s "\<lparr>dims = [1, 10], data_at = 0, bytes = 10\<rparr>"]
    by (simp add: output0_def rd_def wf_tensor_def)
  show ?thesis unfolding Let_def
  proof (rule ok_mono [OF p])
    fix d assume d: "0 \<le> d \<and> d < 10 \<and> (\<forall>k\<in>{0..<10}. sint (?a ! nat (0 + k)) \<le> sint (?a ! nat (0 + d))) \<and>
      (\<forall>k\<in>{0..<d}. sint (?a ! nat (0 + k)) < sint (?a ! nat (0 + d)))"
    then have b: "0 \<le> d" "d < 10" by blast+
    from d have "sint (?a ! nat (0 + 2)) \<le> sint (?a ! nat (0 + d))" by (elim conjE bspec) simp
    then have seven: "7 \<le> sint (?a ! nat d)" by simp
    moreover have "d = 0 \<or> d = 1 \<or> d = 2 \<or> d = 3 \<or> d = 4 \<or> d = 5 \<or> d = 6 \<or> d = 7 \<or> d = 8 \<or> d = 9"
      using b by arith
    ultimately have "d = 2 \<or> d = 3" by auto
    moreover have "d \<noteq> 3"
    proof
      assume "d = 3"
      with d have "\<forall>k\<in>{0..<3}. sint (?a ! nat (0 + k)) < sint (?a ! nat (0 + 3))" by blast
      then have "sint (?a ! nat (0 + 2)) < sint (?a ! nat (0 + 3))" by (rule bspec) simp
      then show False by simp
    qed
    ultimately show "d = 2" by blast
  qed
qed

lemma xor_reduction_correct_witness:
  "uint32_xor_reduction 0 5 (example_tfl\<lparr>tensor_arena := [1, 2, 3, 4, - 1]\<rparr>) = Some 0xFBFCFDFE"
proof -
  have "[0..<5] = [0, 1, 2, 3, 4 :: nat]" by (simp add: upt_rec)
  then show ?thesis using xor_reduction_correct [of 0 5 "example_tfl\<lparr>tensor_arena := [1, 2, 3, 4, - 1]\<rparr>"] by simp
qed


lemma example_cycles: "csr s = (\<lambda>_. 0) \<Longrightarrow> perf_get_mcycle64 (\<lambda>_ r. r) s = Some (0, s\<lparr>accesses := accesses s + 3\<rparr>)"
  by (simp add: perf_get_mcycle64.simps csrr_def run_cpu_def numeral_3_eq_3)

lemma example_classify:
  assumes "csr s = (\<lambda>_. 0)" and "interpreter s = Some ip" and "initialized_ok ip" and "tensors_allocated ip"
  shows "\<exists>t. tflite_classify example_port idle_lib s = Some t \<and> csr t = (\<lambda>_. 0) \<and> interpreter t = Some ip \<and>
    tensor_arena t = tensor_arena s"
proof -
  have "perf_reset_all_counters False (\<lambda>_ r. r) u = Some u" for u :: "'a tfl_state_scheme"
    by (simp add: perf_reset_all_counters_def perf_zero_start_counts_def NUM_PERF_COUNTERS_def cfor_done)
  then show ?thesis using assms
    by (simp add: tflite_classify_def example_port_def example_cycles Invoke_def idle_lib_def report_cycles_def
      perf_print_value_def perf_print_human_def print_def)
qed

lemma hps_init_consistent_witness:
  "\<exists>t. hps_init ''Loading'' ''g_person_data'' 3 example_site example_model = Some t \<and> loaded_model t = 3 \<and>
     (\<exists>ip. interpreter t = Some ip \<and> model ip = [- 100, 126])"
proof -
  have "\<exists>t. hps_init ''Loading'' ''g_person_data'' 3 example_site example_model = Some t"
    by (simp add: hps_init_def load_blob_def tflite_load_model_def tflite_init_def example_model_def example_tfl_def
      tfl_state.defs model_state.defs puts_def print_def drop_interpreter_def example_site_def idle_lib_def AllocateTensors_def
      tflite_preload_def tflite_postload_def input0_def rd_def report_dims_def cfor_step cfor_done print_dim_def new_interpreter_def)
  then show ?thesis using hps_init_consistent [of "''Loading''" "''g_person_data''" 3 example_site example_model]
    by (auto simp: example_site_def)
qed

definition two_bytes :: MicroInterpreter where
  "two_bytes = \<lparr>model = [], initialized_ok = True, tensors_allocated = True, attempts = 1,
     input_tensors = [\<lparr>dims = [1, 2], data_at = 0, bytes = 2\<rparr>], output_tensors = [\<lparr>dims = [1, 2], data_at = 0, bytes = 2\<rparr>]\<rparr>"

definition ready :: "i8 list \<Rightarrow> 'a tfl_state_scheme \<Rightarrow> bool" where
  "ready arena s \<longleftrightarrow> csr s = (\<lambda>_. 0) \<and> interpreter s = Some two_bytes \<and> tensor_arena s = arena"

lemma ready_print [simp]: "ready arena (print str s) = ready arena s"
  by (simp add: ready_def print_def)

lemma example_inputs:
  fixes s :: "'a tfl_state_scheme"
  assumes "ready [u, v] s"
  shows "\<exists>t. tflite_set_input_zeros (the_port (example_site :: 'a tfl_state_scheme site)) s = Some t \<and> ready [0, 0] t"
    and "\<exists>t. tflite_set_input (the_port (example_site :: 'a tfl_state_scheme site)) (blob (example_site :: 'a tfl_state_scheme site) ''g_no_person_data'') s = Some t \<and> ready [0, 50] t"
    and "\<exists>t. tflite_set_input (the_port (example_site :: 'a tfl_state_scheme site)) (blob (example_site :: 'a tfl_state_scheme site) ''g_person_data'') s = Some t \<and> ready [- 100, 126] t"
proof -
  have i: "input0 s = Some \<lparr>dims = [1, 2], data_at = 0, bytes = 2\<rparr>" "tensor_arena s = [u, v]"
    using assms by (simp_all add: ready_def input0_def two_bytes_def rd_def)
  have two: "memcpy [u, v] 0 [a, b] 2 = Some [a, b]" "replicate 2 a = [a, a]" for a b :: i8
    by (simp_all add: memcpy_def numeral_2_eq_2)
  show "\<exists>t. tflite_set_input_zeros (the_port (example_site :: 'a tfl_state_scheme site)) s = Some t \<and> ready [0, 0] t"
    "\<exists>t. tflite_set_input (the_port (example_site :: 'a tfl_state_scheme site)) (blob (example_site :: 'a tfl_state_scheme site) ''g_no_person_data'') s = Some t \<and> ready [0, 50] t"
    "\<exists>t. tflite_set_input (the_port (example_site :: 'a tfl_state_scheme site)) (blob (example_site :: 'a tfl_state_scheme site) ''g_person_data'') s = Some t \<and> ready [- 100, 126] t"
    using assms by (simp_all add: tflite_set_input_zeros_def tflite_set_input_def i two report_input_def example_site_def
      ready_def print_def)
qed

lemma example_pdti8:
  assumes "ready [u, v] s"
  shows "\<exists>t. pdti8_classify example_site s = Some (sint v - sint u, t) \<and> ready [u, v] t"
proof -
  obtain t where t: "tflite_classify example_port idle_lib (print (''Running pdti8'' @ [LF]) s) = Some t" "csr t = (\<lambda>_. 0)"
    "interpreter t = Some two_bytes" "tensor_arena t = [u, v]"
    using example_classify [of "print (''Running pdti8'' @ [LF]) s" two_bytes] assms
    by (auto simp: ready_def print_def two_bytes_def)
  then have "output_byte 0 t = Some u" "output_byte 1 t = Some v"
    by (simp_all add: output_byte_eq output0_def two_bytes_def rd_def)
  with t show ?thesis by (auto simp: pdti8_classify_def example_site_def ready_def)
qed

lemma pdti8_golden_verdict_witness:
  "\<exists>log t. pdti8_golden_tests example_site (example_tfl\<lparr>interpreter := Some two_bytes, tensor_arena := [3, 4]\<rparr>) =
     Some (puts ''FAIL Golden tests failed'' (print log t))"
proof -
  let ?w = "example_site :: tfl_state site"
  let ?s = "example_tfl\<lparr>interpreter := Some two_bytes, tensor_arena := [3, 4]\<rparr>"
  have "ready [3, 4] ?s" by (simp add: ready_def example_tfl_def)
  then obtain s1 where s1: "tflite_set_input_zeros (the_port ?w) ?s = Some s1" "ready [0, 0] s1"
    using example_inputs(1) by blast
  obtain s2 where s2: "pdti8_classify ?w s1 = Some (0, s2)" "ready [0, 0] s2" using example_pdti8 [OF s1(2)] by auto
  obtain s3 where s3: "tflite_set_input (the_port ?w) (blob ?w ''g_no_person_data'') s2 = Some s3" "ready [0, 50] s3"
    using example_inputs(2) [OF s2(2)] by blast
  obtain s4 where s4: "pdti8_classify ?w s3 = Some (50, s4)" "ready [0, 50] s4" using example_pdti8 [OF s3(2)] by auto
  obtain s6 where s6: "tflite_set_input (the_port ?w) (blob ?w ''g_person_data'') s4 = Some s6" "ready [- 100, 126] s6"
    using example_inputs(3) [OF s4(2)] by blast
  obtain s7 where s7: "pdti8_classify ?w s6 = Some (226, s7)" using example_pdti8 [OF s6(2)] by auto
  have none: "show_on_screen (screen ?w) caption n ch data msg s = Some s" for caption n ch data msg and s :: tfl_state
    by (simp add: show_on_screen_def example_site_def)
  from pdti8_golden_verdict [OF s1(1) s2(1) s3(1) s4(1) none s6(1) s7 none] show ?thesis by auto
qed

end
