(* ===== verification/Trap.thy ===== *)
theory Trap
  imports Console "HOL-Library.Signed_Division"
begin

text \<open>
  Traps: \<open>common/src/base.c\<close> and \<open>instruction_handler.cc\<close>, which emulates the divisions on a CPU
  without a divider, and its tests. The integer routines of the compiler's library
  (\<open>__divdi3\<close> ...) are the record \<open>lib\<close>, an argument; so are \<open>uart_isr\<close> and, for the tests,
  what the CPU computes for an instruction.
\<close>

section \<open>State\<close>

text \<open>\<open>reg_base\<close> are the 32 saved registers, the last one first.\<close>

record cpu =
  reg_base :: "i32 list"
  mcause :: i32
  mtval :: i32
  mepc :: i32
  irq_pending :: i32
  irq_mask :: i32
  irq_enabled :: bool

record library =
  divdi3 :: "i64 \<Rightarrow> i64 \<Rightarrow> i64"
  udivdi3 :: "i64 \<Rightarrow> i64 \<Rightarrow> i64"
  moddi3 :: "i64 \<Rightarrow> i64 \<Rightarrow> i64"
  umoddi3 :: "i64 \<Rightarrow> i64 \<Rightarrow> i64"

section \<open>The handler of illegal instructions\<close>

definition reg_offset :: "i32 \<Rightarrow> int" where
  "reg_offset reg = 31 - uint reg"

definition field :: "nat \<Rightarrow> i32 \<Rightarrow> i32 \<Rightarrow> i32" where
  "field n m instruction = drop_bit n instruction AND m"

definition div_instruction_handler :: "library \<Rightarrow> i32 \<Rightarrow> i32 list \<Rightarrow> i32 list option" where
  "div_instruction_handler lib instruction regs = do {
     let funct3 = field 12 0x7 instruction;
     let rd_offset = reg_offset (field 7 0x1f instruction);
     src1 \<leftarrow> rd regs (reg_offset (field 15 0x1f instruction));
     src2 \<leftarrow> rd regs (reg_offset (field 20 0x1f instruction));
     if funct3 = 0x4 then
       wr regs rd_offset (if src2 \<noteq> 0 then ucast (divdi3 lib (scast src1) (scast src2)) else - 1)
     else if funct3 = 0x5 then
       wr regs rd_offset (if src2 \<noteq> 0 then ucast (udivdi3 lib (ucast src1) (ucast src2)) else - 1)
     else if funct3 = 0x6 then wr regs rd_offset (ucast (moddi3 lib (scast src1) (scast src2)))
     else if funct3 = 0x7 then wr regs rd_offset (ucast (umoddi3 lib (ucast src1) (ucast src2)))
     else Some regs }"

definition instruction_handler :: "library \<Rightarrow> cpu \<Rightarrow> cpu option" where
  "instruction_handler lib s = (
     let instruction = mtval s; pc = mepc s
     in if instruction AND 0x7F = 0x33 then do {
          regs \<leftarrow> div_instruction_handler lib instruction (reg_base s);
          Some (s\<lparr>reg_base := regs, mepc := pc + 4\<rparr>) }
        else Some s)"

text \<open>\<open>base.c\<close>. The number of the UART's interrupt and the code of the cause are constants of the SoC's headers.\<close>

definition isr :: "nat \<Rightarrow> (cpu \<Rightarrow> cpu) \<Rightarrow> cpu \<Rightarrow> cpu" where
  "isr UART_INTERRUPT uart_isr s = (
     let irqs = irq_pending s AND irq_mask s
     in if irqs AND push_bit UART_INTERRUPT 1 \<noteq> 0 then uart_isr s else s)"

definition trap_handler :: "library \<Rightarrow> i32 \<Rightarrow> nat \<Rightarrow> (cpu \<Rightarrow> cpu) \<Rightarrow> cpu \<Rightarrow> cpu option" where
  "trap_handler lib CAUSE_ILLEGAL_INSTRUCTION UART_INTERRUPT uart_isr s =
     (if mcause s = CAUSE_ILLEGAL_INSTRUCTION then instruction_handler lib s else Some (isr UART_INTERRUPT uart_isr s))"

definition init_runtime :: "(cpu \<Rightarrow> cpu) \<Rightarrow> cpu \<Rightarrow> cpu" where
  "init_runtime uart_init s = uart_init (s\<lparr>irq_mask := 0, irq_enabled := True\<rparr>)"

section \<open>Its tests\<close>

text \<open>\<open>ASM_R_TEST\<close>: what the CPU computes for the instruction, against the expected value.\<close>

definition asm_test ::
  "(string \<Rightarrow> i32 \<Rightarrow> i32 \<Rightarrow> i32) \<Rightarrow> string \<Rightarrow> i32 \<Rightarrow> i32 \<Rightarrow> i32 \<Rightarrow> bool \<times> 'a console_scheme \<Rightarrow> bool \<times> 'a console_scheme" where
  "asm_test exec inst src1 src2 expected = (\<lambda>(all_passed, s).
     let actual = exec inst src1 src2
     in (all_passed \<and> actual = expected,
         if actual \<noteq> expected
         then print (''Failed: '' @ inst @ '' '' @ dec (uint src1) @ '', '' @ dec (uint src2) @ '': expected '' @
           dec (uint expected) @ '' but got '' @ dec (uint actual) @ ''.'' @ [LF]) s
         else s))"

definition do_div_tests :: "(string \<Rightarrow> i32 \<Rightarrow> i32 \<Rightarrow> i32) \<Rightarrow> 'a console_scheme \<Rightarrow> bool \<times> 'a console_scheme" where
  "do_div_tests exec s = (
     let st = asm_test exec ''div'' 10 3 3 (True, s);
         st = asm_test exec ''div'' 0 1 0 st;
         st = asm_test exec ''div'' 1 (- 1) (- 1) st;
         st = asm_test exec ''div'' 1 0 (- 1) st
     in asm_test exec ''div'' 0x80000000 (- 1) 0x80000000 st)"

definition do_divu_tests :: "(string \<Rightarrow> i32 \<Rightarrow> i32 \<Rightarrow> i32) \<Rightarrow> 'a console_scheme \<Rightarrow> bool \<times> 'a console_scheme" where
  "do_divu_tests exec s = (
     let st = asm_test exec ''divu'' 10 3 3 (True, s);
         st = asm_test exec ''divu'' 0 1 0 st;
         st = asm_test exec ''divu'' 1 (- 1) 0 st
     in asm_test exec ''divu'' 1 0 (- 1) st)"

definition do_rem_tests :: "(string \<Rightarrow> i32 \<Rightarrow> i32 \<Rightarrow> i32) \<Rightarrow> 'a console_scheme \<Rightarrow> bool \<times> 'a console_scheme" where
  "do_rem_tests exec s = (
     let st = asm_test exec ''rem'' 13 4 1 (True, s);
         st = asm_test exec ''rem'' 0 4 0 st;
         st = asm_test exec ''rem'' 4 (- 3) 1 st
     in asm_test exec ''rem'' 9 0 9 st)"

definition do_remu_tests :: "(string \<Rightarrow> i32 \<Rightarrow> i32 \<Rightarrow> i32) \<Rightarrow> 'a console_scheme \<Rightarrow> bool \<times> 'a console_scheme" where
  "do_remu_tests exec s = (
     let st = asm_test exec ''remu'' 13 4 1 (True, s);
         st = asm_test exec ''remu'' 0 4 0 st;
         st = asm_test exec ''remu'' 4 (- 3) 4 st
     in asm_test exec ''remu'' 9 0 9 st)"

definition do_instruction_tests :: "(string \<Rightarrow> i32 \<Rightarrow> i32 \<Rightarrow> i32) \<Rightarrow> 'a console_scheme \<Rightarrow> 'a console_scheme" where
  "do_instruction_tests exec s = (
     let (p1, s) = do_div_tests exec s;
         (p2, s) = do_divu_tests exec s;
         (p3, s) = do_rem_tests exec s;
         (p4, s) = do_remu_tests exec s
     in if p1 \<and> p2 \<and> p3 \<and> p4 then puts ''OK   Instruction handler tests passed.'' s
        else puts ''FAIL Instruction handler tests failed.'' s)"

section \<open>RISC-V division\<close>

text \<open>The M extension: no trap on a division by zero, and the overflow wraps.\<close>

definition riscv_M :: "i32 \<Rightarrow> i32 \<Rightarrow> i32 \<Rightarrow> i32" where
  "riscv_M funct3 a b =
     (if funct3 = 4 then (if b = 0 then - 1 else word_of_int (sint a sdiv sint b))
      else if funct3 = 5 then (if b = 0 then - 1 else a div b)
      else if funct3 = 6 then (if b = 0 then a else word_of_int (sint a smod sint b))
      else (if b = 0 then a else a mod b))"

text \<open>What the library documents: quotient and remainder, truncated, for a divisor that is not zero.\<close>

definition lib_ok :: "library \<Rightarrow> bool" where
  "lib_ok lib \<longleftrightarrow> (\<forall>a b. b \<noteq> 0 \<longrightarrow>
     divdi3 lib a b = word_of_int (sint a sdiv sint b) \<and> udivdi3 lib a b = a div b \<and>
     moddi3 lib a b = word_of_int (sint a smod sint b) \<and> umoddi3 lib a b = a mod b)"

lemma scast_up: "sint (scast (a :: i32) :: i64) = sint a"
  by (simp add: sint_up_scast is_up)

lemma scast_up_zero: "scast (a :: i32) = (0 :: i64) \<longleftrightarrow> a = 0"
  using scast_up [of a] by (metis scast_0 signed_0 signed_word_eqI)

lemma uint_ucast_up: "uint (ucast (a :: i32) :: i64) = uint a"
proof -
  have "uint a < 2 ^ 64" using uint_lt2p [of a] by simp
  then show ?thesis by (simp add: unsigned_ucast_eq take_bit_int_eq_self)
qed

lemma ucast_up_zero: "ucast (a :: i32) = (0 :: i64) \<longleftrightarrow> a = 0"
  by (simp add: word_uint_eq_iff uint_ucast_up)

lemma ucast_word_of_int: "ucast (word_of_int n :: i64) = (word_of_int n :: i32)"
  by (rule bit_word_eqI) (simp add: bit_simps)

lemma take_bit_up: "take_bit 64 (uint (a :: i32)) = uint a"
  using uint_lt2p [of a] by (intro take_bit_int_eq_self) simp_all

lemma ucast_div_up: "ucast (ucast a div ucast b :: i64) = (a div b :: i32)"
proof (rule word_uint_eqI)
  have "take_bit 32 (uint (a div b)) = uint (a div b)"
    using uint_lt2p [of "a div b"] by (intro take_bit_int_eq_self) simp_all
  then show "uint (ucast (ucast a div ucast b :: i64) :: i32) = uint (a div b)"
    by (simp add: unsigned_ucast_eq uint_div_distrib take_bit_up)
qed

lemma ucast_mod_up: "ucast (ucast a mod ucast b :: i64) = (a mod b :: i32)"
proof (rule word_uint_eqI)
  have "take_bit 32 (uint (a mod b)) = uint (a mod b)"
    using uint_lt2p [of "a mod b"] by (intro take_bit_int_eq_self) simp_all
  then show "uint (ucast (ucast a mod ucast b :: i64) :: i32) = uint (a mod b)"
    by (simp add: unsigned_ucast_eq uint_mod_distrib take_bit_up)
qed

lemma field_bound: "uint (field n 0x1f i) \<le> 31"
proof -
  have "field n 0x1f i \<le> 0x1f" by (simp add: field_def word_and_le1)
  then show ?thesis by (simp add: word_le_def)
qed

lemma read_register:
  "length regs = 32 \<Longrightarrow> rd regs (reg_offset (field n 0x1f i)) = Some (regs ! nat (31 - uint (field n 0x1f i)))"
  using field_bound [of n i] uint_ge_0 [of "field n 0x1f i"]
  unfolding rd_def reg_offset_def by (subst if_P) (linarith | simp)+

lemma write_register:
  "length regs = 32 \<Longrightarrow> wr regs (reg_offset (field n 0x1f i)) v = Some (regs[nat (31 - uint (field n 0x1f i)) := v])"
  using field_bound [of n i] uint_ge_0 [of "field n 0x1f i"]
  unfolding wr_def reg_offset_def by (subst if_P) (linarith | simp)+

lemma div_handler_riscv:
  assumes "lib_ok lib" and "f = field 12 0x7 i" and "f \<in> {4, 5, 6, 7}"
    and "length regs = 32" and "b \<noteq> 0 \<or> f = 4 \<or> f = 5"
    and "rd regs (reg_offset (field 15 0x1f i)) = Some a" and "rd regs (reg_offset (field 20 0x1f i)) = Some b"
  shows "div_instruction_handler lib i regs = wr regs (reg_offset (field 7 0x1f i)) (riscv_M f a b)"
  using assms(1,3,5,6,7)
  by (auto simp: div_instruction_handler_def assms(2) [symmetric] riscv_M_def lib_ok_def
      scast_up_zero ucast_up_zero scast_up ucast_word_of_int ucast_div_up ucast_mod_up)


text \<open>A library that also copes with a division by zero, and \<open>rem x1, x2, x3\<close>.\<close>

definition some_lib :: library where
  "some_lib = \<lparr>divdi3 = \<lambda>a b. word_of_int (sint a sdiv sint b), udivdi3 = (div),
     moddi3 = \<lambda>a b. word_of_int (sint a smod sint b), umoddi3 = (mod)\<rparr>"

definition some_cpu :: "i32 \<Rightarrow> i32 \<Rightarrow> i32 \<Rightarrow> cpu" where
  "some_cpu i a b = \<lparr>reg_base = (replicate 32 0)[29 := a, 28 := b], mcause = 2, mtval = i, mepc = 0x100,
     irq_pending = 0, irq_mask = 0, irq_enabled = True\<rparr>"


text \<open>
  Every other illegal instruction: one of the opcode \<open>0x33\<close> that is no division, such as a
  multiplication, is skipped without effect, and one of another opcode returns with the program
  counter as it was, so that the same trap follows.
\<close>
theorem trap_skips_or_repeats:
  assumes "mcause s = illegal" and "length (reg_base s) = 32"
  shows "(mtval s AND 0x7F = 0x33 \<and> uint (field 12 0x7 (mtval s)) < 4 \<longrightarrow>
      trap_handler lib illegal n uart_isr s = Some (s\<lparr>mepc := mepc s + 4\<rparr>)) \<and>
    (mtval s AND 0x7F \<noteq> 0x33 \<longrightarrow> trap_handler lib illegal n uart_isr s = Some s)"
proof -
  have "\<exists>v. rd (reg_base s) (reg_offset (field k 0x1f (mtval s))) = Some v" for k
    using read_register [OF assms(2)] by blast
  then obtain a b where "rd (reg_base s) (reg_offset (field 15 0x1f (mtval s))) = Some a"
    "rd (reg_base s) (reg_offset (field 20 0x1f (mtval s))) = Some b" by blast
  moreover have "f \<noteq> 4 \<and> f \<noteq> 5 \<and> f \<noteq> 6 \<and> f \<noteq> 7" if "uint f < 4" for f :: i32
    using that by auto
  ultimately show ?thesis using assms(1)
    by (auto simp: trap_handler_def instruction_handler_def div_instruction_handler_def Let_def)
qed

lemma trap_skips_or_repeats_witness:
  "trap_handler some_lib 2 0 (\<lambda>s. s) (some_cpu 0x023100B3 6 7) = Some ((some_cpu 0x023100B3 6 7)\<lparr>mepc := 0x104\<rparr>) \<and>
   trap_handler some_lib 2 0 (\<lambda>s. s) (some_cpu 0xFFFFFFFF 6 7) = Some (some_cpu 0xFFFFFFFF 6 7)"
  using trap_skips_or_repeats [of "some_cpu 0x023100B3 6 7" 2 some_lib 0 "\<lambda>s. s"]
    trap_skips_or_repeats [of "some_cpu 0xFFFFFFFF 6 7" 2 some_lib 0 "\<lambda>s. s"]
  by (simp add: some_cpu_def field_def)

text \<open>The expected values of the tests are those of RISC-V.\<close>

definition riscv_exec :: "string \<Rightarrow> i32 \<Rightarrow> i32 \<Rightarrow> i32" where
  "riscv_exec inst = riscv_M (if inst = ''div'' then 4 else if inst = ''divu'' then 5 else if inst = ''rem'' then 6 else 7)"

text \<open>
  The seventeen tests of \<open>do_instruction_tests\<close> expect what RISC-V prescribes: on a CPU that
  conforms nothing is reported but the success.
\<close>
theorem instruction_tests_conform:
  "do_instruction_tests riscv_exec s = puts ''OK   Instruction handler tests passed.'' s"
proof -
  have "riscv_M 4 10 3 = 3" "riscv_M 4 0 1 = 0" "riscv_M 4 1 (- 1) = - 1" "riscv_M 4 1 0 = - 1"
    "riscv_M 4 0x80000000 (- 1) = 0x80000000" "riscv_M 5 10 3 = 3" "riscv_M 5 0 1 = 0" "riscv_M 5 1 (- 1) = 0"
    "riscv_M 5 1 0 = - 1" "riscv_M 6 13 4 = 1" "riscv_M 6 0 4 = 0" "riscv_M 6 4 (- 3) = 1" "riscv_M 6 9 0 = 9"
    "riscv_M 7 13 4 = 1" "riscv_M 7 0 4 = 0" "riscv_M 7 4 (- 3) = 4" "riscv_M 7 9 0 = 9"
    by code_simp+
  then show ?thesis
    by (simp add: do_instruction_tests_def do_div_tests_def do_divu_tests_def do_rem_tests_def do_remu_tests_def
        asm_test_def riscv_exec_def)
qed

end
