(* ===== verification/Flash.thy ===== *)
theory Flash
  imports Perf Bytes
begin

text \<open>
  The debugging menu of the SPI flash, \<open>common/src/spiflash.c\<close>. The flash is a list of bytes at the
  address \<open>SPIFLASH_BASE\<close>; its size and address are constants of the SoC's headers, here arguments.
  Other arguments are the form that \<open>printf\<close> gives a pointer (\<open>fmt_p\<close>), the CRC of the library
  (\<open>crc32\<close>), the register of the clock divisor and, for the volatile reads of the access test,
  what the bus returns at the time of the read (\<open>bus\<close>). \<open>size_t\<close> has 32 bits.
\<close>

section \<open>The dump\<close>

definition dump_line :: "(i32 \<Rightarrow> string) \<Rightarrow> i32 \<Rightarrow> i8 list \<Rightarrow> i32 \<Rightarrow> 'a console_scheme \<Rightarrow> 'a console_scheme option" where
  "dump_line fmt_p SPIFLASH_BASE flash line_offset s = do {
     let s = print ([LF] @ ''0x'' @ fmt_p (SPIFLASH_BASE + line_offset) @ ''  '') s;
     s \<leftarrow> cfor 0 16 1 (\<lambda>i s. do {
       b \<leftarrow> rd flash (uint (line_offset + word_of_int i));
       Some (print (zeros 2 (hex (uint b)) @ '' '') s) }) s;
     let s = print ''   '' s;
     cfor 0 16 1 (\<lambda>i s. do {
       b \<leftarrow> rd flash (uint (line_offset + word_of_int i));
       Some (print [if b < 0x20 \<or> b > 0x7e then CHR ''.'' else char_of (uint b)] s) }) s }"

text \<open>The \<open>do ... while\<close> loop; the result of a size below one line is that it reads past the flash.\<close>

partial_function (option) dump_lines ::
  "(i32 \<Rightarrow> string) \<Rightarrow> i32 \<Rightarrow> i32 \<Rightarrow> i8 list \<Rightarrow> i32 \<Rightarrow> 'a console_scheme \<Rightarrow> 'a console_scheme option" where
  "dump_lines fmt_p SPIFLASH_BASE SPIFLASH_SIZE flash line_offset s = do {
     s \<leftarrow> dump_line fmt_p SPIFLASH_BASE flash line_offset s;
     let line_offset = line_offset + 16;
     (go, s) \<leftarrow> (if line_offset mod (16 * 24) = 0 then do {
         let s = print ([LF, LF] @ ''Continue? (y/n) '') s;
         (c, s) \<leftarrow> readchar s;
         if c \<noteq> CHR ''y'' then Some (False, s) else Some (True, print [LF] s) }
       else Some (True, s));
     if go \<and> line_offset \<le> SPIFLASH_SIZE - 16
     then dump_lines fmt_p SPIFLASH_BASE SPIFLASH_SIZE flash line_offset s else Some s }"

definition dump_spiflash :: "(i32 \<Rightarrow> string) \<Rightarrow> i32 \<Rightarrow> i32 \<Rightarrow> i8 list \<Rightarrow> 'a console_scheme \<Rightarrow> 'a console_scheme option" where
  "dump_spiflash fmt_p SPIFLASH_BASE SPIFLASH_SIZE flash = dump_lines fmt_p SPIFLASH_BASE SPIFLASH_SIZE flash 0"

section \<open>Checksum, access test, clock divisor\<close>

abbreviation CHECKSUM_REGION_OFFSET :: int where "CHECKSUM_REGION_OFFSET \<equiv> 4 * 1024 * 1024"
abbreviation CHECKSUM_REGION_LENGTH :: int where "CHECKSUM_REGION_LENGTH \<equiv> 256 * 1024"

definition checksum_spiflash :: "(i8 list \<Rightarrow> i32) \<Rightarrow> i8 list \<Rightarrow> 'a console_scheme \<Rightarrow> 'a console_scheme option" where
  "checksum_spiflash crc32 flash s =
     (let s = print (''Computing CRC32 of SPI flash region 0x'' @ zeros 8 (hex CHECKSUM_REGION_OFFSET) @ ''-0x'' @
        zeros 8 (hex (CHECKSUM_REGION_OFFSET + CHECKSUM_REGION_LENGTH)) @ '': '') s
      in if CHECKSUM_REGION_OFFSET + CHECKSUM_REGION_LENGTH \<le> int (length flash)
         then Some (print (zeros 8 (hex (uint (crc32 (take (nat CHECKSUM_REGION_LENGTH) (drop (nat CHECKSUM_REGION_OFFSET) flash)))))
           @ [LF, LF]) s)
         else None)"

definition volatile_read :: "(nat \<Rightarrow> i32 \<Rightarrow> i32) \<Rightarrow> csr_env \<Rightarrow> i32 \<Rightarrow> 'a perf_scheme \<Rightarrow> i32 \<times> 'a perf_scheme" where
  "volatile_read bus env a s = (let s = run_cpu env s in (bus (accesses s) a, s))"

definition test_spiflash_nonsequential_access ::
  "(nat \<Rightarrow> i32 \<Rightarrow> i32) \<Rightarrow> csr_env \<Rightarrow> i32 \<Rightarrow> 'a perf_scheme \<Rightarrow> 'a perf_scheme option" where
  "test_spiflash_nonsequential_access bus env SPIFLASH_BASE s = (
     let (start, s) = perf_get_mcycle env s;
         (val, s) = volatile_read bus env SPIFLASH_BASE s;
         (_, s) = volatile_read bus env (SPIFLASH_BASE + 1024) s;
         (val2, s) = volatile_read bus env SPIFLASH_BASE s;
         (stop, s) = perf_get_mcycle env s;
         s = print (''Spent '' @ dec (uint (stop - start)) @ '' cycles'' @ [LF]) s;
         show = (\<lambda>rel verdict. zeros 8 (hex (uint val)) @ rel @ zeros 8 (hex (uint val2)) @ verdict @ [LF])
     in Some (if val = 0xff \<or> val2 = 0xff then print (show '' == '' ''  SEEMS SUPICIOUS'') s
        else if val = val2 then print (show '' == '' ''  OK'') s
        else print (show '' != '' ''  NOT OK'') s))"

definition do_set_spiflash_div :: "nat \<Rightarrow> csr_env \<Rightarrow> 'a perf_scheme \<Rightarrow> 'a perf_scheme option" where
  "do_set_spiflash_div DIVISOR env s = do {
     let (d, s) = csrr env DIVISOR s;
     let s = print (''Current clock divisor: '' @ dec (sint d) @ [LF]) s;
     let s = print (''Enter clock divisor (0-9):'' @ [LF]) s;
     (c, s) \<leftarrow> readchar s;
     let s = print [c] s;
     if of_char c < (48 :: int) then Some s
     else if of_char c > (57 :: int) then Some s
     else do {
       let s = csrw env DIVISOR (word_of_int (of_char c - 48)) s;
       let (d, s) = csrr env DIVISOR s;
       Some (print (''New clock divisor: '' @ dec (sint d) @ [LF]) s) } }"

definition FLASH_MENU ::
  "bool \<Rightarrow> nat \<Rightarrow> (i32 \<Rightarrow> string) \<Rightarrow> (i8 list \<Rightarrow> i32) \<Rightarrow> (nat \<Rightarrow> i32 \<Rightarrow> i32) \<Rightarrow> csr_env \<Rightarrow> i32 \<Rightarrow> i32 \<Rightarrow> i8 list \<Rightarrow>
   'a perf_scheme Menu" where
  "FLASH_MENU phy DIVISOR fmt_p crc32 bus env SPIFLASH_BASE SPIFLASH_SIZE flash =
     \<lparr>title = ''SPI Flash Debugging Menu'', prompt = ''spiflash'',
      items =
        [MENU_ITEM (CHR ''d'') ''dump flash contents'' (dump_spiflash fmt_p SPIFLASH_BASE SPIFLASH_SIZE flash),
         MENU_ITEM (CHR ''c'') ''CRC32 checksum'' (checksum_spiflash crc32 flash),
         MENU_ITEM (CHR ''n'') ''non-sequential access test'' (test_spiflash_nonsequential_access bus env SPIFLASH_BASE)]
        @ (if phy then [MENU_ITEM (CHR ''s'') ''set clock divisor'' (do_set_spiflash_div DIVISOR env)] else [])
        @ MENU_END\<rparr>"

text \<open>\<open>None\<close>: a SoC without SPI flash.\<close>

definition spiflash_menu ::
  "bool \<Rightarrow> nat \<Rightarrow> (i32 \<Rightarrow> string) \<Rightarrow> (i8 list \<Rightarrow> i32) \<Rightarrow> (nat \<Rightarrow> i32 \<Rightarrow> i32) \<Rightarrow> csr_env \<Rightarrow> (i32 \<times> i32 \<times> i8 list) option \<Rightarrow>
   'a perf_scheme \<Rightarrow> 'a perf_scheme option" where
  "spiflash_menu phy DIVISOR fmt_p crc32 bus env soc s =
     (case soc of
        Some (SPIFLASH_BASE, SPIFLASH_SIZE, flash) \<Rightarrow>
          menu_run (FLASH_MENU phy DIVISOR fmt_p crc32 bus env SPIFLASH_BASE SPIFLASH_SIZE flash) s
      | None \<Rightarrow> Some s)"

section \<open>What the dump shows\<close>

text \<open>Line \<open>l\<close> of the dump, and the end of a page of 24 lines.\<close>

definition line_text :: "(i32 \<Rightarrow> string) \<Rightarrow> i32 \<Rightarrow> i8 list \<Rightarrow> int \<Rightarrow> string" where
  "line_text fmt_p base flash l = (let bs = take 16 (drop (nat (16 * l)) flash) in
     [LF] @ ''0x'' @ fmt_p (base + word_of_int (16 * l)) @ ''  '' @
     concat (map (\<lambda>b. zeros 2 (hex (uint b)) @ '' '') bs) @ ''   '' @
     map (\<lambda>b. if b < 0x20 \<or> b > 0x7e then CHR ''.'' else char_of (uint b)) bs)"

lemma print_bytes:
  assumes "0 \<le> off" and "off + 16 \<le> int (length flash)" and "off + 16 \<le> 2 ^ 32"
  shows "cfor 0 16 1 (\<lambda>i s. do { b \<leftarrow> rd flash (uint (word_of_int off + word_of_int i :: i32)); Some (print (f b) s) }) s
    = Some (print (concat (map f (take 16 (drop (nat off) flash)))) s)"
proof -
  have pos: "uint (word_of_int off + word_of_int i :: i32) = off + i" if "0 \<le> i" "i < 16" for i
  proof -
    have "word_of_int off + word_of_int i = (word_of_int (off + i) :: i32)" by simp
    moreover have "uint (word_of_int (off + i) :: i32) = off + i"
      using assms that unfolding uint_word_of_int by (intro mod_pos_pos_trivial) simp_all
    ultimately show ?thesis by (simp only:)
  qed
  let ?g = "\<lambda>i. f (flash ! nat (off + i))"
  have "ok (cfor 0 16 1 (\<lambda>i s. do { b \<leftarrow> rd flash (uint (word_of_int off + word_of_int i :: i32)); Some (print (f b) s) }) s)
    (\<lambda>t. t = print (concat (map f (take 16 (drop (nat off) flash)))) s)"
  proof (rule ok_cfor [where I = "\<lambda>i t. t = print (concat (map f (take (nat i) (drop (nat off) flash)))) s"])
    fix i t assume i: "0 \<le> i" "i < (16 :: int)" and t: "t = print (concat (map f (take (nat i) (drop (nat off) flash)))) s"
    have "nat (i + 1) = Suc (nat i)" "nat i < length (drop (nat off) flash)" using i assms by auto
    moreover have "flash ! nat (off + i) = drop (nat off) flash ! nat i" using i assms by (simp add: nat_add_distrib)
    ultimately show "ok (do { b \<leftarrow> rd flash (uint (word_of_int off + word_of_int i :: i32)); Some (print (f b) t) })
        (\<lambda>t. t = print (concat (map f (take (nat (i + 1)) (drop (nat off) flash)))) s)"
      using i assms by (simp add: ok_simps pos t print_print take_Suc_conv_app_nth)
  next
    fix i t assume "0 \<le> i" "(16 :: int) \<le> i" "i < 16 + 1 \<or> i = 0" and t: "t = print (concat (map f (take (nat i) (drop (nat off) flash)))) s"
    then have "i = 16" by auto
    with t show "t = print (concat (map f (take 16 (drop (nat off) flash)))) s" by simp
  qed (simp_all add: print_def)
  then show ?thesis by (simp add: ok_eq_iff)
qed

lemma dump_line_text:
  assumes "0 \<le> l" and "16 * (l + 1) \<le> int (length flash)" and "16 * (l + 1) \<le> 2 ^ 32"
  shows "dump_line fmt_p base flash (word_of_int (16 * l)) s = Some (print (line_text fmt_p base flash l) s)"
proof -
  have off: "0 \<le> 16 * l" "16 * l + 16 \<le> int (length flash)" "16 * l + 16 \<le> 2 ^ 32" using assms by auto
  have chars: "concat (map (\<lambda>b. [g b]) bs) = map g bs" for g :: "i8 \<Rightarrow> char" and bs by (induction bs) simp_all
  note bytes = print_bytes [OF off, where f = "\<lambda>b. zeros 2 (hex (uint b)) @ '' ''"]
    print_bytes [OF off, where f = "\<lambda>b. [if b < 0x20 \<or> b > 0x7e then CHR ''.'' else char_of (uint b)]"]
  show ?thesis
    unfolding dump_line_def bytes Let_def bind.bind_lunit chars line_text_def print_print append_assoc by (rule refl)
qed

text \<open>One iteration of the loop, with the line number in place of the offset.\<close>

lemma dump_lines_step:
  assumes n: "uint len = 16 * n" "int (length flash) = uint len" and l: "0 \<le> l" "l < n"
  shows "dump_lines fmt_p base len flash (word_of_int (16 * l)) s =
    (let s = print (line_text fmt_p base flash l) s
     in if 24 dvd (l + 1)
        then do {
          (c, s) \<leftarrow> readchar (print ([LF, LF] @ ''Continue? (y/n) '') s);
          if c \<noteq> CHR ''y'' then Some s
          else if l + 1 < n then dump_lines fmt_p base len flash (word_of_int (16 * (l + 1))) (print [LF] s)
          else Some (print [LF] s) }
        else if l + 1 < n then dump_lines fmt_p base len flash (word_of_int (16 * (l + 1))) s else Some s)"
proof -
  have size: "16 * n < 2 ^ 32" using uint_lt2p [of len] n(1) by simp
  have off: "uint (word_of_int (16 * k) :: i32) = 16 * k" if "0 \<le> k" "k \<le> n" for k
    using size that unfolding uint_word_of_int by (intro mod_pos_pos_trivial) simp_all
  have next_off: "word_of_int (16 * l) + 16 = (word_of_int (16 * (l + 1)) :: i32)" by simp
  have "16 \<le> len" using n l by (simp add: word_le_def)
  then have last: "uint (len - 16) = 16 * (n - 1)"
    using n by (simp add: uint_sub_lem [THEN iffD1] word_le_def)
  have more: "(word_of_int (16 * (l + 1)) :: i32) \<le> len - 16 \<longleftrightarrow> l + 1 < n"
    unfolding word_le_def last using off [of "l + 1"] l by auto
  have pages: "16 * m mod 384 = 0 \<longleftrightarrow> 24 dvd m" for m :: int
  proof -
    have "16 * m mod 384 = 16 * (m mod 24)" using mult_mod_right [of 16 m 24] by simp
    then show ?thesis by (simp add: dvd_eq_mod_eq_0)
  qed
  have "uint ((word_of_int (16 * (l + 1)) :: i32) mod 384) = 16 * (l + 1) mod 384"
    using off [of "l + 1"] l by (simp add: uint_mod_distrib)
  then have page: "(word_of_int (16 * (l + 1)) :: i32) mod (16 * 24) = 0 \<longleftrightarrow> 24 dvd (l + 1)"
    using pages [of "l + 1"] by (simp add: word_uint_eq_iff)
  have line: "dump_line fmt_p base flash (word_of_int (16 * l)) s = Some (print (line_text fmt_p base flash l) s)"
    using n l size by (intro dump_line_text) auto
  show ?thesis
    by (subst dump_lines.simps, unfold line bind.bind_lunit Let_def next_off more page)
      (cases "readchar (print ([LF, LF] @ ''Continue? (y/n) '') (print (line_text fmt_p base flash l) s))"; auto)
qed

lemma dump_lines_within_page:
  assumes n: "uint len = 16 * n" "int (length flash) = uint len" and "0 \<le> p" and "24 * (p + 1) \<le> n" and "m < 24"
  shows "dump_lines fmt_p base len flash (word_of_int (16 * (24 * p))) s =
    dump_lines fmt_p base len flash (word_of_int (16 * (24 * p + int m)))
      (print (concat (map (\<lambda>j. line_text fmt_p base flash (24 * p + int j)) [0..<m])) s)"
  using assms(5)
proof (induction m)
  case 0
  then show ?case by (simp add: print_def)
next
  case (Suc m)
  have "\<not> 24 dvd (24 * p + int m + 1)" using Suc.prems by presburger
  moreover have "0 \<le> 24 * p + int m" "24 * p + int m < n" "24 * p + int m + 1 < n"
    using Suc.prems assms(3,4) by auto
  ultimately have step: "dump_lines fmt_p base len flash (word_of_int (16 * (24 * p + int m))) t =
      dump_lines fmt_p base len flash (word_of_int (16 * (24 * p + int m + 1)))
        (print (line_text fmt_p base flash (24 * p + int m)) t)" for t :: "'a console_scheme"
    by (simp only: dump_lines_step [OF n] Let_def if_True if_False)
  have "dump_lines fmt_p base len flash (word_of_int (16 * (24 * p))) s =
      dump_lines fmt_p base len flash (word_of_int (16 * (24 * p + int m)))
        (print (concat (map (\<lambda>j. line_text fmt_p base flash (24 * p + int j)) [0..<m])) s)"
    using Suc by simp
  also note step
  also have "24 * p + int m + 1 = 24 * p + int (Suc m)" by simp
  finally show ?case by (simp only: print_print upt_Suc_append list.map map_append concat_append concat.simps append_Nil2 zero_le le0)
qed

definition page_text :: "(i32 \<Rightarrow> string) \<Rightarrow> i32 \<Rightarrow> i8 list \<Rightarrow> int \<Rightarrow> string" where
  "page_text fmt_p base flash p =
     concat (map (\<lambda>j. line_text fmt_p base flash (24 * p + int j)) [0..<24]) @ [LF, LF] @ ''Continue? (y/n) ''"

lemma dump_page:
  assumes n: "uint len = 16 * n" "int (length flash) = uint len" and "0 \<le> p" and "24 * (p + 1) \<le> n"
  shows "dump_lines fmt_p base len flash (word_of_int (16 * (24 * p))) s = do {
    (c, s) \<leftarrow> readchar (print (page_text fmt_p base flash p) s);
    if c \<noteq> CHR ''y'' then Some s
    else if 24 * (p + 1) < n then dump_lines fmt_p base len flash (word_of_int (16 * (24 * (p + 1)))) (print [LF] s)
    else Some (print [LF] s) }"
proof -
  have lines: "[0..<24] = [0..<23] @ [23]" by (simp add: upt_rec)
  have "24 dvd (24 * p + int 23 + 1)" "24 * p + int 23 + 1 = 24 * (p + 1)" by simp_all
  moreover have "0 \<le> 24 * p + int 23" "24 * p + int 23 < n" using assms(3,4) by auto
  ultimately have step: "dump_lines fmt_p base len flash (word_of_int (16 * (24 * p + int 23))) t = do {
      (c, s) \<leftarrow> readchar (print ([LF, LF] @ ''Continue? (y/n) '') (print (line_text fmt_p base flash (24 * p + int 23)) t));
      if c \<noteq> CHR ''y'' then Some s
      else if 24 * (p + 1) < n then dump_lines fmt_p base len flash (word_of_int (16 * (24 * (p + 1)))) (print [LF] s)
      else Some (print [LF] s) }" for t
    by (simp only: dump_lines_step [OF n] Let_def if_True if_False)
  have "23 < (24 :: nat)" by simp
  show ?thesis
    unfolding dump_lines_within_page [OF assms \<open>23 < 24\<close>] step
    by (simp only: page_text_def lines map_append list.map concat_append concat.simps append_assoc print_print append_Nil2)
qed

lemma dump_pages:
  assumes n: "uint len = 16 * n" "int (length flash) = uint len" and "0 \<le> p" and "24 * (p + int k + 1) \<le> n"
    and "cin s = replicate k (CHR ''y'') @ c # rest" and "c \<noteq> CHR ''y''"
  shows "dump_lines fmt_p base len flash (word_of_int (16 * (24 * p))) s = Some (s\<lparr>cin := rest,
    cout := cout s @ concat (map (\<lambda>q. page_text fmt_p base flash (p + int q) @ [LF]) [0..<k]) @ page_text fmt_p base flash (p + int k)\<rparr>)"
  using assms(3-5)
proof (induction k arbitrary: p s)
  case 0
  then have "24 * (p + 1) \<le> n" by simp
  show ?case unfolding dump_page [OF n 0(1) \<open>24 * (p + 1) \<le> n\<close>, of fmt_p base s]
    using 0 assms(6) by (simp add: readchar_def print_def)
next
  case (Suc k)
  let ?t = "print ([LF]) (print (page_text fmt_p base flash p) (s\<lparr>cin := replicate k (CHR ''y'') @ c # rest\<rparr>))"
  have upt: "[0..<Suc k] = 0 # map Suc [0..<k]" by (simp add: upt_conv_Cons map_Suc_upt del: upt_Suc)
  have "dump_lines fmt_p base len flash (word_of_int (16 * (24 * p))) s =
      dump_lines fmt_p base len flash (word_of_int (16 * (24 * (p + 1)))) ?t"
  proof -
    have "24 * (p + 1) \<le> n" "24 * (p + 1) < n" using Suc.prems(2) by simp_all
    then show ?thesis unfolding dump_page [OF n Suc.prems(1) \<open>24 * (p + 1) \<le> n\<close>, of fmt_p base s]
      using Suc.prems(3) by (simp add: readchar_def print_def)
  qed
  also have "\<dots> = Some (?t\<lparr>cin := rest, cout := cout ?t @
      concat (map (\<lambda>q. page_text fmt_p base flash (p + 1 + int q) @ [LF]) [0..<k]) @ page_text fmt_p base flash (p + 1 + int k)\<rparr>)"
    using Suc.prems by (intro Suc.IH) (auto simp: print_def)
  also have "\<dots> = Some (s\<lparr>cin := rest, cout := cout s @
      concat (map (\<lambda>q. page_text fmt_p base flash (p + int q) @ [LF]) [0..<Suc k]) @ page_text fmt_p base flash (p + int (Suc k))\<rparr>)"
    unfolding upt by (simp add: print_def comp_def add.assoc add.commute add.left_commute)
  finally show ?case .
qed

text \<open>
  The dump pauses after every 24 lines and goes on exactly while the user types 'y': with \<open>k\<close> times
  'y' before another key it shows \<open>k + 1\<close> pages, which are the first bytes of the flash, and takes
  those \<open>k + 1\<close> characters from the input.
\<close>
theorem dump_stops_where_told:
  assumes "uint len = 16 * n" and "int (length flash) = uint len" and "24 * (int k + 1) \<le> n"
    and "cin s = replicate k (CHR ''y'') @ c # rest" and "c \<noteq> CHR ''y''"
  shows "dump_spiflash fmt_p base len flash s = Some (s\<lparr>cin := rest,
    cout := cout s @ concat (map (\<lambda>q. page_text fmt_p base flash (int q) @ [LF]) [0..<k]) @ page_text fmt_p base flash (int k)\<rparr>)"
  using dump_pages [OF assms(1,2), of 0 k s c rest fmt_p base] assms(3-5) by (simp add: dump_spiflash_def)

lemma dump_stops_where_told_witness:
  "dump_spiflash (\<lambda>a. zeros 8 (hex (uint a))) 0x20000000 768 (replicate 768 65) \<lparr>cin = ''yn'', cout = []\<rparr> =
   Some \<lparr>cin = [], cout = page_text (\<lambda>a. zeros 8 (hex (uint a))) 0x20000000 (replicate 768 65) 0 @ [LF] @
     page_text (\<lambda>a. zeros 8 (hex (uint a))) 0x20000000 (replicate 768 65) 1\<rparr>"
proof -
  have "int (length (replicate 768 (65 :: i8))) = uint (768 :: i32)" by (simp only: length_replicate) simp
  from dump_stops_where_told [OF _ this, where n = 48 and k = 1 and c = "CHR ''n''" and rest = "[]" and s = "\<lparr>cin = ''yn'', cout = []\<rparr>"]
  show ?thesis by simp
qed

text \<open>
  Setting the divisor of the flash clock: a digit is written to the register and read back, any
  other key leaves the register as it was. The CPU does not change the register by itself.
\<close>
theorem divisor_set_by_digit:
  assumes "\<And>k r. env k r DIVISOR = r DIVISOR" and "cin s = c # rest"
  shows "\<exists>t. do_set_spiflash_div DIVISOR env s = Some t \<and> cin t = rest \<and>
    csr t DIVISOR = (if (of_char c :: int) \<in> {48..57} then word_of_int (of_char c - 48) else csr s DIVISOR)"
  using assms
  by (auto simp: do_set_spiflash_div_def csrr_def csrw_def run_cpu_def print_def readchar_def Let_def)

lemma divisor_set_by_digit_witness:
  "\<exists>t. do_set_spiflash_div 0x800 (\<lambda>k r. r) \<lparr>cin = ''7'', cout = [], csr = (\<lambda>a. 1), accesses = 0, CFU_start_counts = [], counter_num = 0\<rparr> = Some t \<and>
     cin t = [] \<and> csr t 0x800 = 7"
  by (rule divisor_set_by_digit [where c = "CHR ''7''" and rest = "[]", THEN ex_forward]) simp_all

end
