(* ===== verification/Benchmarks.thy ===== *)
theory Benchmarks
  imports Perf Bytes "HOL-Library.Signed_Division"
begin

text \<open>
  The memory benchmarks of \<open>common/src/benchmarks.c\<close>. The local array \<open>buf\<close> is not initialised
  by the code: its contents are an argument, and so are \<open>BUF_SIZE\<close>, the flash and the form that
  \<open>printf\<close> gives its address. \<open>int\<close> variables are \<open>int\<close>s whose overflow is \<open>None\<close> (\<open>int32\<close>); the
  flash benchmarks subtract the cycle counts as \<open>unsigned\<close>, the others as \<open>int\<close>.
\<close>

section \<open>The loops\<close>

text \<open>\<open>for (j = 0; j < n; j += step) acc += buf[j]\<close>\<close>

definition sum_loads :: "int \<Rightarrow> int \<Rightarrow> i32 list \<Rightarrow> int \<Rightarrow> int option" where
  "sum_loads n step buf = cfor 0 n step (\<lambda>j acc. do { v \<leftarrow> rd buf j; int32 (acc + sint v) })"

text \<open>\<open>rounds\<close> such loops, each followed by \<open>buf[i] = acc\<close>.\<close>

definition load_rounds :: "int \<Rightarrow> int \<Rightarrow> int \<Rightarrow> int \<Rightarrow> i32 list \<Rightarrow> int option" where
  "load_rounds rounds n step acc buf = do {
     (acc, buf) \<leftarrow> cfor 0 rounds 1 (\<lambda>i (acc, buf). do {
       acc \<leftarrow> sum_loads n step buf acc;
       buf \<leftarrow> wr buf i (word_of_int acc);
       Some (acc, buf) }) (acc, buf);
     Some acc }"

definition store_rounds :: "int \<Rightarrow> i32 list \<Rightarrow> int option" where
  "store_rounds BUF_SIZE buf = do {
     (acc, buf) \<leftarrow> cfor 0 8 1 (\<lambda>i (acc, buf). do {
       buf \<leftarrow> cfor 0 BUF_SIZE 1 (\<lambda>j buf. wr buf j (word_of_int i)) buf;
       v \<leftarrow> rd buf i;
       acc \<leftarrow> int32 (acc + sint v);
       Some (acc, buf) }) (0, buf);
     Some acc }"

definition increment_rounds :: "int \<Rightarrow> i32 list \<Rightarrow> int option" where
  "increment_rounds BUF_SIZE buf = do {
     (acc, buf) \<leftarrow> cfor 0 8 1 (\<lambda>i (acc, buf). do {
       buf \<leftarrow> cfor 0 BUF_SIZE 1 (\<lambda>j buf. do {
         v \<leftarrow> rd buf j;
         w \<leftarrow> int32 (sint v + i);
         wr buf j (word_of_int w) }) buf;
       v \<leftarrow> rd buf i;
       acc \<leftarrow> int32 (acc + sint v);
       Some (acc, buf) }) (0, buf);
     Some acc }"

definition flash_loads :: "int \<Rightarrow> i8 list \<Rightarrow> int option" where
  "flash_loads stride flash = cfor 0 (64 * 1024) 1 (\<lambda>j acc. do {
     v \<leftarrow> load32 flash (4 * (j * stride));
     int32 (acc + sint v) }) 0"

section \<open>The benchmarks\<close>

text \<open>The start, the loops, the end and the report of a benchmark that measures in \<open>int\<close>.\<close>

definition measured :: "csr_env \<Rightarrow> string \<Rightarrow> int \<Rightarrow> int option \<Rightarrow> 'a perf_scheme \<Rightarrow> 'a perf_scheme option" where
  "measured env what total_iters loops s = do {
     let (start_time, s) = perf_get_mcycle env s;
     acc \<leftarrow> loops;
     let (end_time, s) = perf_get_mcycle env s;
     d \<leftarrow> int32 (sint end_time - sint start_time);
     Some (print (''Val:'' @ dec acc @ ''  Cycles: '' @ dec d @ ''   Cycles/'' @ what @ '': '' @
       dec (d sdiv total_iters) @ [LF, LF, LF]) s) }"

definition measured_unsigned :: "csr_env \<Rightarrow> int option \<Rightarrow> 'a perf_scheme \<Rightarrow> 'a perf_scheme option" where
  "measured_unsigned env loops s = do {
     let (start_time, s) = perf_get_mcycle env s;
     acc \<leftarrow> loops;
     let (end_time, s) = perf_get_mcycle env s;
     let delta_cycles = end_time - start_time;
     Some (print (''Val:'' @ dec acc @ ''  Cycles: '' @ dec (uint delta_cycles) @ ''   Cycles/load: '' @
       dec (uint (delta_cycles div (64 * 1024))) @ [LF, LF, LF]) s) }"

definition do_loads_cached :: "bool \<Rightarrow> csr_env \<Rightarrow> int \<Rightarrow> i32 list \<Rightarrow> 'a perf_scheme \<Rightarrow> 'a perf_scheme option" where
  "do_loads_cached nd env BUF_SIZE buf s = do {
     let s = puts (''Hello, Cached Load!'' @ [LF]) s;
     dcheck nd (BUF_SIZE \<ge> 1024);
     acc \<leftarrow> sum_loads 1024 1 buf 0;
     measured env ''load'' (1024 * 1024) (load_rounds 1024 1024 1 acc buf) s }"

definition do_loads_strided :: "csr_env \<Rightarrow> int \<Rightarrow> i32 list \<Rightarrow> 'a perf_scheme \<Rightarrow> 'a perf_scheme option" where
  "do_loads_strided env BUF_SIZE buf s =
     measured env ''load'' (64 * BUF_SIZE sdiv 8) (load_rounds 64 BUF_SIZE 8 0 buf)
       (puts (''Hello, Strided Load!'' @ [LF]) s)"

definition do_flash_loads :: "csr_env \<Rightarrow> string \<Rightarrow> i32 \<Rightarrow> i8 list \<Rightarrow> 'a perf_scheme \<Rightarrow> 'a perf_scheme option" where
  "do_flash_loads env base SPIFLASH_SIZE flash s =
     measured_unsigned env (flash_loads 1 flash)
       (print (''Hello, Flash Load! (SPI flash at '' @ base @ '', size '' @ dec (uint SPIFLASH_SIZE div 1024) @ ''kB)'' @ [LF]) s)"

definition do_flash_loads_strided :: "csr_env \<Rightarrow> string \<Rightarrow> i32 \<Rightarrow> i8 list \<Rightarrow> 'a perf_scheme \<Rightarrow> 'a perf_scheme option" where
  "do_flash_loads_strided env base SPIFLASH_SIZE flash s =
     measured_unsigned env (flash_loads 2 flash)
       (print (''Hello, STRIDED Flash Load! (SPI flash at '' @ base @ '', size '' @ dec (uint SPIFLASH_SIZE div 1024) @ ''kB)'' @ [LF]) s)"

definition do_loads :: "csr_env \<Rightarrow> int \<Rightarrow> i32 list \<Rightarrow> 'a perf_scheme \<Rightarrow> 'a perf_scheme option" where
  "do_loads env BUF_SIZE buf s =
     measured env ''load'' (8 * BUF_SIZE) (load_rounds 8 BUF_SIZE 1 0 buf) (puts (''Hello, Load!'' @ [LF]) s)"

definition do_stores :: "csr_env \<Rightarrow> int \<Rightarrow> i32 list \<Rightarrow> 'a perf_scheme \<Rightarrow> 'a perf_scheme option" where
  "do_stores env BUF_SIZE buf s =
     measured env ''store'' (8 * BUF_SIZE) (store_rounds BUF_SIZE buf) (puts (''Hello, Store!'' @ [LF]) s)"

definition do_increment_mem :: "csr_env \<Rightarrow> int \<Rightarrow> i32 list \<Rightarrow> 'a perf_scheme \<Rightarrow> 'a perf_scheme option" where
  "do_increment_mem env BUF_SIZE buf s =
     measured env ''(load-add-store)'' (8 * BUF_SIZE) (increment_rounds BUF_SIZE buf)
       (puts (''Hello, Increment!'' @ [LF]) s)"

text \<open>The flash items exist when the SoC has a flash: its address as text, its size and contents.\<close>

definition BENCHMARKS_MENU ::
  "bool \<Rightarrow> csr_env \<Rightarrow> int \<Rightarrow> i32 list \<Rightarrow> (string \<times> i32 \<times> i8 list) option \<Rightarrow> 'a perf_scheme Menu" where
  "BENCHMARKS_MENU nd env BUF_SIZE buf soc_flash =
     \<lparr>title = ''Benchmarks Menu'', prompt = ''benchmark'',
      items =
        [MENU_ITEM (CHR ''l'') ''sequential loads benchmark (expect one miss per cache line, one every eight accesses)''
           (do_loads env BUF_SIZE buf)]
        @ (case soc_flash of
             Some (base, SPIFLASH_SIZE, flash) \<Rightarrow>
               [MENU_ITEM (CHR ''f'') ''flash sequential loads benchmark'' (do_flash_loads env base SPIFLASH_SIZE flash),
                MENU_ITEM (CHR ''g'') ''flash STRIDED loads benchmark'' (do_flash_loads_strided env base SPIFLASH_SIZE flash)]
           | None \<Rightarrow> [])
        @ [MENU_ITEM (CHR ''c'') ''cached loads benchmark (expect all hits)'' (do_loads_cached nd env BUF_SIZE buf),
           MENU_ITEM (CHR ''8'') ''strided loads benchmark (expect all misses)'' (do_loads_strided env BUF_SIZE buf),
           MENU_ITEM (CHR ''s'') ''sequential stores benchmark'' (do_stores env BUF_SIZE buf),
           MENU_ITEM (CHR ''i'') ''load-increment-store benchmark (expect misses)'' (do_increment_mem env BUF_SIZE buf)]
        @ MENU_END\<rparr>"

definition do_benchmarks_menu ::
  "bool \<Rightarrow> csr_env \<Rightarrow> int \<Rightarrow> i32 list \<Rightarrow> (string \<times> i32 \<times> i8 list) option \<Rightarrow> 'a perf_scheme \<Rightarrow> 'a perf_scheme option" where
  "do_benchmarks_menu nd env BUF_SIZE buf soc_flash = menu_run (BENCHMARKS_MENU nd env BUF_SIZE buf soc_flash)"

section \<open>What they compute\<close>

lemma eight: "{0..<8} = {0, 1, 2, 3, 4, 5, 6, 7 :: int}"
  by auto

lemma store_round:
  assumes "int (length buf) = BUF_SIZE"
  shows "cfor 0 BUF_SIZE 1 (\<lambda>j buf. wr buf j (w :: i32)) buf = Some (replicate (length buf) w)"
proof -
  have "ok (cfor 0 BUF_SIZE 1 (\<lambda>j buf. wr buf j w) buf)
    (wrote (\<Union>i\<in>{i. 0 \<le> i \<and> i < BUF_SIZE \<and> 1 dvd (i - 0)}. {i}) (\<lambda>_. w) buf)"
    using assms by (intro cfor_wrote_array) (auto simp: ok_simps wrote_update)
  then obtain t where t: "cfor 0 BUF_SIZE 1 (\<lambda>j buf. wr buf j w) buf = Some t"
    "wrote (\<Union>i\<in>{i. 0 \<le> i \<and> i < BUF_SIZE \<and> 1 dvd (i - 0)}. {i}) (\<lambda>_. w) buf t" by (rule okE)
  have "{0..<int (length buf)} \<subseteq> (\<Union>i\<in>{i. 0 \<le> i \<and> i < BUF_SIZE \<and> 1 dvd (i - 0)}. {i})" using assms by auto
  from wrote_all [OF t(2) this] t(1) show ?thesis by (simp add: map_replicate_const)
qed

lemma sint_small_int: "- (2 ^ 31) \<le> v \<Longrightarrow> v < 2 ^ 31 \<Longrightarrow> sint (word_of_int v :: i32) = v"
  by (rule sint32_of_int) simp_all

lemma store_rounds_value:
  assumes "int (length buf) = BUF_SIZE" and "8 \<le> BUF_SIZE"
  shows "store_rounds BUF_SIZE buf = Some 28"
proof -
  have "ok (cfor 0 8 1 (\<lambda>i (acc, buf). do {
       buf \<leftarrow> cfor 0 BUF_SIZE 1 (\<lambda>j buf. wr buf j (word_of_int i :: i32)) buf;
       v \<leftarrow> rd buf i;
       acc \<leftarrow> int32 (acc + sint v);
       Some (acc, buf) }) (0, buf)) (\<lambda>(acc, t). acc = 28)"
  proof (rule ok_cfor [where I = "\<lambda>i (acc, t). int (length t) = BUF_SIZE \<and> 2 * acc = i * (i - 1)"])
    fix i :: int and s :: "int \<times> i32 list"
    assume i: "0 \<le> i" "i < 8" and s: "case s of (acc, t) \<Rightarrow> int (length t) = BUF_SIZE \<and> 2 * acc = i * (i - 1)"
    obtain acc t where p: "s = (acc, t)" by (cases s)
    from i have "i = 0 \<or> i = 1 \<or> i = 2 \<or> i = 3 \<or> i = 4 \<or> i = 5 \<or> i = 6 \<or> i = 7" by auto
    then have acc: "0 \<le> acc" "acc \<le> 28" using s p by auto
    have "sint (word_of_int i :: i32) = i" using i by (intro sint_small_int) auto
    then show "ok ((\<lambda>(acc, buf). do {
       buf \<leftarrow> cfor 0 BUF_SIZE 1 (\<lambda>j buf. wr buf j (word_of_int i :: i32)) buf;
       v \<leftarrow> rd buf i;
       acc \<leftarrow> int32 (acc + sint v);
       Some (acc, buf) }) s) (\<lambda>(acc, t). int (length t) = BUF_SIZE \<and> 2 * acc = (i + 1) * (i + 1 - 1))"
      using s p i acc assms(2) by (auto simp: store_round ok_simps algebra_simps nat_less_iff)
  next
    fix i :: int and s :: "int \<times> i32 list"
    assume i: "8 \<le> i" "i < 8 + 1 \<or> i = 0" and s: "case s of (acc, t) \<Rightarrow> int (length t) = BUF_SIZE \<and> 2 * acc = i * (i - 1)"
    then have "i = 8" by auto
    with s show "case s of (acc, t) \<Rightarrow> acc = 28" by auto
  qed (use assms in auto)
  then show ?thesis by (auto simp: store_rounds_def ok_iff)
qed

text \<open>A round of increments on words that are far from overflow; \<open>c\<close> is what earlier rounds have added.\<close>

lemma increment_round:
  assumes "\<forall>x\<in>set xs. \<bar>x\<bar> \<le> 2 ^ 27" and "0 \<le> c" "c \<le> 100" "0 \<le> i" "i \<le> 100" and "int (length xs) = BUF_SIZE"
  shows "cfor 0 BUF_SIZE 1 (\<lambda>j buf. do { v \<leftarrow> rd buf j; w \<leftarrow> int32 (sint v + i); wr buf j (word_of_int w) })
      (map (\<lambda>x. word_of_int (x + c)) xs) = Some (map (\<lambda>x. word_of_int (x + (c + i))) xs :: i32 list)"
proof -
  let ?t = "\<lambda>j. map (\<lambda>x. word_of_int (x + (c + i))) (take (nat j) xs) @ map (\<lambda>x. word_of_int (x + c)) (drop (nat j) xs) :: i32 list"
  have "ok (cfor 0 BUF_SIZE 1 (\<lambda>j buf. do { v \<leftarrow> rd buf j; w \<leftarrow> int32 (sint v + i); wr buf j (word_of_int w) })
      (map (\<lambda>x. word_of_int (x + c)) xs)) (\<lambda>t. t = ?t BUF_SIZE)"
  proof (rule ok_cfor [where I = "\<lambda>j t. t = ?t j"])
    fix j t assume j: "0 \<le> j" "j < BUF_SIZE" and t: "t = ?t j"
    then have n: "nat j < length xs" using assms(6) by auto
    then have b: "\<bar>xs ! nat j\<bar> \<le> 2 ^ 27" using assms(1) by auto
    have d: "drop (nat j) xs = xs ! nat j # drop (nat (j + 1)) xs"
      and k: "take (nat (j + 1)) xs = take (nat j) xs @ [xs ! nat j]"
    proof -
      have "nat (j + 1) = Suc (nat j)" using j by simp
      then show "drop (nat j) xs = xs ! nat j # drop (nat (j + 1)) xs" "take (nat (j + 1)) xs = take (nat j) xs @ [xs ! nat j]"
        using n by (simp_all add: Cons_nth_drop_Suc take_Suc_conv_app_nth)
    qed
    have "t = map (\<lambda>x. word_of_int (x + (c + i))) (take (nat j) xs) @
        word_of_int (xs ! nat j + c) # map (\<lambda>x. word_of_int (x + c)) (drop (nat (j + 1)) xs)"
      unfolding t d by simp
    moreover have "sint (word_of_int (xs ! nat j + c) :: i32) = xs ! nat j + c"
      using b assms(2,3) by (intro sint_small_int) auto
    ultimately show "ok (do { v \<leftarrow> rd t j; w \<leftarrow> int32 (sint v + i); wr t j (word_of_int w) }) (\<lambda>t. t = ?t (j + 1))"
      using n j b assms(2-6) unfolding k by (auto simp: ok_simps nth_append list_update_append min_def add.assoc)
  qed (auto simp: assms(6) [symmetric])
  moreover have "?t BUF_SIZE = map (\<lambda>x. word_of_int (x + (c + i))) xs" using assms(6) by auto
  ultimately show ?thesis by (simp add: ok_eq_iff)
qed

lemma increment_rounds_value:
  assumes "\<forall>v\<in>set buf. \<bar>sint v\<bar> \<le> 2 ^ 27" and "int (length buf) = BUF_SIZE" and "8 \<le> BUF_SIZE"
  shows "increment_rounds BUF_SIZE buf = Some (84 + (\<Sum>i\<in>{0..<8}. sint (buf ! nat i)))"
proof -
  define xs where "xs = map sint buf"
  have xs: "\<forall>x\<in>set xs. \<bar>x\<bar> \<le> 2 ^ 27" "int (length xs) = BUF_SIZE" using assms by (simp_all add: xs_def)
  let ?c = "\<lambda>i :: int. i * (i - 1) div 2"
  let ?I = "\<lambda>i (acc, t). t = map (\<lambda>x. word_of_int (x + ?c i)) xs \<and>
    acc = (i * (i - 1) * (i + 1)) div 6 + (\<Sum>k\<in>{0..<i}. xs ! nat k)"
  have "ok (cfor 0 8 1 (\<lambda>i (acc, buf). do {
       buf \<leftarrow> cfor 0 BUF_SIZE 1 (\<lambda>j buf. do {
         v \<leftarrow> rd buf j;
         w \<leftarrow> int32 (sint v + i);
         wr buf j (word_of_int w) }) buf;
       v \<leftarrow> rd buf i;
       acc \<leftarrow> int32 (acc + sint v);
       Some (acc, buf) }) (0, buf)) (\<lambda>(acc, t). acc = 84 + (\<Sum>i\<in>{0..<8}. xs ! nat i))"
  proof (rule ok_cfor [where I = ?I])
    fix i :: int and s :: "int \<times> i32 list"
    assume i: "0 \<le> i" "i < 8" and s: "?I i s"
    obtain acc t where p: "s = (acc, t)" by (cases s)
    have cs: "i = 0 \<or> i = 1 \<or> i = 2 \<or> i = 3 \<or> i = 4 \<or> i = 5 \<or> i = 6 \<or> i = 7" using i by auto
    have "\<bar>\<Sum>k\<in>{0..<i}. xs ! nat k\<bar> \<le> (\<Sum>k\<in>{0..<i}. \<bar>xs ! nat k\<bar>)" by (rule sum_abs)
    also have "\<dots> \<le> (\<Sum>k\<in>{0..<i}. 2 ^ 27)"
      using xs assms(3) i by (intro sum_mono) (auto simp: nat_less_iff)
    finally have sum: "\<bar>\<Sum>k\<in>{0..<i}. xs ! nat k\<bar> \<le> 939524096" using i by simp
    have x: "\<bar>xs ! nat i\<bar> \<le> 134217728" using xs assms(3) i by (auto simp: nat_less_iff)
    have c: "0 \<le> ?c i" "?c i \<le> 100" "?c i + i = ?c (i + 1)" and d: "0 \<le> (i * (i - 1) * (i + 1)) div 6" "(i * (i - 1) * (i + 1)) div 6 \<le> 100"
      "((i + 1) * (i + 1 - 1) * (i + 1 + 1)) div 6 = (i * (i - 1) * (i + 1)) div 6 + ?c (i + 1)"
      and c': "0 \<le> ?c (i + 1)" "?c (i + 1) \<le> 100"
      using cs by auto
    have t: "t = map (\<lambda>x. word_of_int (x + ?c i)) xs" using s p by simp
    have round: "cfor 0 BUF_SIZE 1 (\<lambda>j buf. do { v \<leftarrow> rd buf j; w \<leftarrow> int32 (sint v + i); wr buf j (word_of_int w) }) t =
        Some (map (\<lambda>x. word_of_int (x + ?c (i + 1))) xs)"
      unfolding t using increment_round [OF xs(1) c(1,2) i(1) _ xs(2)] i c(3) by simp
    define A where "A = acc + (xs ! nat i + ?c (i + 1))"
    have rd: "rd (map (\<lambda>x. word_of_int (x + ?c (i + 1))) xs :: i32 list) i = Some (word_of_int (xs ! nat i + ?c (i + 1)))"
      using i xs(2) assms(3) by (simp add: rd_def nat_less_iff)
    have val: "sint (word_of_int (xs ! nat i + ?c (i + 1)) :: i32) = xs ! nat i + ?c (i + 1)"
      using x c' by (intro sint32_of_int) linarith+
    have acc: "acc = (i * (i - 1) * (i + 1)) div 6 + (\<Sum>k\<in>{0..<i}. xs ! nat k)" using s p by simp
    have "- 2147483648 \<le> A" "A < 2147483648" using acc sum x c' d(1,2) unfolding A_def by linarith+
    then have A: "int32 A = Some A" by (simp add: int32_def)
    have "{0..<i + 1} = insert i {0..<i}" using i by auto
    then have "A = ((i + 1) * (i + 1 - 1) * (i + 1 + 1)) div 6 + (\<Sum>k\<in>{0..<i + 1}. xs ! nat k)"
      unfolding A_def acc d(3) by simp
    then show "ok ((\<lambda>(acc, buf). do {
       buf \<leftarrow> cfor 0 BUF_SIZE 1 (\<lambda>j buf. do {
         v \<leftarrow> rd buf j;
         w \<leftarrow> int32 (sint v + i);
         wr buf j (word_of_int w) }) buf;
       v \<leftarrow> rd buf i;
       acc \<leftarrow> int32 (acc + sint v);
       Some (acc, buf) }) s) (?I (i + 1))"
      unfolding p prod.case round bind.bind_lunit rd val A_def [symmetric] A ok_Some by (intro conjI refl)
  next
    fix i :: int and s :: "int \<times> i32 list"
    assume i: "8 \<le> i" "i < 8 + 1 \<or> i = 0" and s: "?I i s"
    then have "i = 8" by auto
    with s show "case s of (acc, t) \<Rightarrow> acc = 84 + (\<Sum>i\<in>{0..<8}. xs ! nat i)" by auto
  qed (auto simp: xs_def comp_def)
  then have "increment_rounds BUF_SIZE buf = Some (84 + (\<Sum>i\<in>{0..<8}. xs ! nat i))"
    by (auto simp: increment_rounds_def ok_iff)
  also have "(\<Sum>i\<in>{0..<8}. xs ! nat i) = (\<Sum>i\<in>{0..<8}. sint (buf ! nat i))"
    using assms(2,3) by (intro sum.cong) (auto simp: xs_def nat_less_iff)
  finally show ?thesis .
qed

section \<open>What they report\<close>

text \<open>The run of a benchmark: two readings of the counter, and the loops between them.\<close>

lemma measured_report:
  assumes "loops = Some v" and "perf_get_mcycle env s = (t0, s0)" and "perf_get_mcycle env s0 = (t1, s1)"
  shows "measured env what n loops s =
    (if - (2 ^ 31) \<le> sint t1 - sint t0 \<and> sint t1 - sint t0 < 2 ^ 31
     then Some (print (''Val:'' @ dec v @ ''  Cycles: '' @ dec (sint t1 - sint t0) @ ''   Cycles/'' @ what @ '': '' @
       dec ((sint t1 - sint t0) sdiv n) @ [LF, LF, LF]) s1)
     else None)"
  using assms by (simp add: measured_def int32_def)

text \<open>
  The store and the increment benchmark, on any contents of their buffer: the value they print is
  28, or 84 and the first eight words of the buffer; they fail only where the difference of the
  cycle counts, taken as \<open>int\<close>, overflows.
\<close>
theorem benchmark_values:
  assumes "int (length buf) = BUF_SIZE" and "8 \<le> BUF_SIZE" and "\<forall>v\<in>set buf. \<bar>sint v\<bar> \<le> 2 ^ 27"
    and "perf_get_mcycle env (puts (''Hello, '' @ what @ ''!'' @ [LF]) s) = (t0, s0)" and "perf_get_mcycle env s0 = (t1, s1)"
    and "- (2 ^ 31) \<le> sint t1 - sint t0" and "sint t1 - sint t0 < 2 ^ 31"
  shows "(what = ''Store'' \<longrightarrow> do_stores env BUF_SIZE buf s =
      Some (print (''Val:28  Cycles: '' @ dec (sint t1 - sint t0) @ ''   Cycles/store: '' @
        dec ((sint t1 - sint t0) sdiv (8 * BUF_SIZE)) @ [LF, LF, LF]) s1)) \<and>
    (what = ''Increment'' \<longrightarrow> do_increment_mem env BUF_SIZE buf s =
      Some (print (''Val:'' @ dec (84 + (\<Sum>i\<in>{0..<8}. sint (buf ! nat i))) @ ''  Cycles: '' @ dec (sint t1 - sint t0) @
        ''   Cycles/(load-add-store): '' @ dec ((sint t1 - sint t0) sdiv (8 * BUF_SIZE)) @ [LF, LF, LF]) s1))"
proof -
  have "dec 28 = ''28''" by code_simp
  then show ?thesis using assms(4-7)
    measured_report [OF store_rounds_value [OF assms(1,2)] assms(4,5)]
    measured_report [OF increment_rounds_value [OF assms(3,1,2)] assms(4,5)]
    by (auto simp: do_stores_def do_increment_mem_def)
qed

lemma benchmark_values_witness:
  "do_stores (\<lambda>k r. r(mcycle := word_of_nat k)) 8 [1, 2, 3, 4, 5, 6, 7, 8]
     \<lparr>cin = [], cout = [], csr = (\<lambda>a. 0), accesses = 0, CFU_start_counts = [], counter_num = 0\<rparr> =
   Some (print (''Val:28  Cycles: 1   Cycles/store: 0'' @ [LF, LF, LF]) \<lparr>cin = [], cout = ''Hello, Store!'' @ [LF, LF],
     csr = (\<lambda>a. 0)(mcycle := 1), accesses = 2, CFU_start_counts = [], counter_num = 0\<rparr>)"
proof -
  have d: "dec 1 = ''1''" "dec 0 = ''0''" "1 sdiv 64 = (0 :: int)" by code_simp+
  let ?s = "\<lparr>cin = [], cout = [], csr = (\<lambda>a. 0), accesses = 0, CFU_start_counts = [], counter_num = 0\<rparr>"
  let ?p = "\<lparr>cin = [], cout = ''Hello, Store!'' @ [LF, LF], csr = (\<lambda>a. 0)(mcycle := 0), accesses = 1, CFU_start_counts = [], counter_num = 0\<rparr>"
  let ?q = "\<lparr>cin = [], cout = ''Hello, Store!'' @ [LF, LF], csr = (\<lambda>a. 0)(mcycle := 1), accesses = 2, CFU_start_counts = [], counter_num = 0\<rparr>"
  let ?env = "\<lambda>k r. r(mcycle := word_of_nat k :: i32)"
  have t: "perf_get_mcycle ?env (puts (''Hello, '' @ ''Store'' @ ''!'' @ [LF]) ?s) = (0, ?p)" "perf_get_mcycle ?env ?p = (1, ?q)"
    by (simp_all add: perf_get_mcycle_def csrr_def run_cpu_def puts_def print_def)
  from benchmark_values [OF _ _ _ t, where buf = "[1, 2, 3, 4, 5, 6, 7, 8]" and BUF_SIZE = 8]
  show ?thesis by (simp add: d)
qed

text \<open>When the counter passes \<open>2 ^ 31\<close> between the two readings, the subtraction of the benchmark overflows.\<close>

lemma measured_overflow:
  assumes "perf_get_mcycle env s = (t0, s0)" and "perf_get_mcycle env s0 = (t1, s1)" and "2 ^ 31 < sint t0 - sint t1"
  shows "measured env what n loops s = None"
  using assms by (auto simp: measured_def int32_def split: option.splits)

end
