(* ===== verification/Cfu_Tests.thy ===== *)
theory Cfu_Tests
  imports Menu Tile_Engine
begin

text \<open>
  The tests of the function unit: the switch between hardware and emulation of
  \<open>common/src/cfu.h\<close>, the emulations \<open>software_cfu\<close> of \<open>common/src\<close> and of the projects, the menu
  \<open>functional_cfu_tests.cc\<close> and the project menus. The custom instruction is an argument \<open>op\<close> that
  works on any state that extends the console; the locale \<open>answering\<close> is the contract of an
  instruction whose answer depends on its operands only, interpreted on the emulation and on the
  gateware of \<open>proj/accel\<close>.
\<close>

section \<open>Loops over words\<close>

text \<open>\<open>for (i = a; i < n; i += k)\<close> on \<open>uint32_t\<close>: the counter wraps around, so the loop need not end.\<close>

partial_function (option) wfor :: "i32 \<Rightarrow> i32 \<Rightarrow> i32 \<Rightarrow> (i32 \<Rightarrow> 's \<Rightarrow> 's option) \<Rightarrow> 's \<Rightarrow> 's option" where
  "wfor i n k f s = (if i < n then do { s \<leftarrow> f i s; wfor (i + k) n k f s } else Some s)"

fun each :: "('x \<Rightarrow> 's \<Rightarrow> 's option) \<Rightarrow> 'x list \<Rightarrow> 's \<Rightarrow> 's option" where
  "each f [] s = Some s"
| "each f (x # xs) s = do { s \<leftarrow> f x s; each f xs s }"

lemma each_append: "each f (xs @ ys) s = do { s \<leftarrow> each f xs s; each f ys s }"
  by (induction xs arbitrary: s) (auto split: bind_splits)

text \<open>The values the counter takes when the loop ends after \<open>m\<close> iterations.\<close>

definition counters :: "i32 \<Rightarrow> i32 \<Rightarrow> nat \<Rightarrow> i32 list" where
  "counters i k m = map (\<lambda>j. i + of_nat j * k) [0..<m]"

lemma wfor_each:
  assumes "\<forall>j<m. i + of_nat j * k < n" and "\<not> i + of_nat m * k < n"
  shows "wfor i n k f s = each f (counters i k m) s"
  using assms
proof (induction m arbitrary: i s)
  case 0
  then show ?case by (subst wfor.simps) (simp add: counters_def)
next
  case (Suc m)
  have "i < n" using Suc.prems(1) [rule_format, of 0] by simp
  have "\<forall>j<m. i + k + of_nat j * k < n"
  proof (intro allI impI)
    fix j assume "j < m"
    then show "i + k + of_nat j * k < n" using Suc.prems(1) [rule_format, of "Suc j"] by (simp add: algebra_simps)
  qed
  moreover have "\<not> i + k + of_nat m * k < n" using Suc.prems(2) by (simp add: algebra_simps)
  ultimately have rest: "wfor (i + k) n k f = each f (counters (i + k) k m)" by (intro ext Suc.IH)
  have "counters i k (Suc m) = i # counters (i + k) k m"
    by (simp add: counters_def upt_conv_Cons map_Suc_upt [symmetric] algebra_simps del: upt_Suc)
  with \<open>i < n\<close> show ?case by (subst wfor.simps) (simp add: rest)
qed

text \<open>A counter that does not wrap.\<close>

lemma wfor_each_int:
  assumes "int m * uint k + uint i < 2 ^ 32" and "uint n \<le> int m * uint k + uint i"
    and "m \<noteq> 0 \<longrightarrow> (int m - 1) * uint k + uint i < uint n"
  shows "wfor i n k f s = each f (counters i k m) s"
proof -
  have val: "uint (i + of_nat j * k) = int j * uint k + uint i" if "j \<le> m" for j
  proof -
    have le: "int j * uint k \<le> int m * uint k" using that by (intro mult_right_mono) auto
    have "int j * uint k + uint i < 2 ^ 32" using le assms(1) by linarith
    moreover have "i + of_nat j * k = word_of_int (int j * uint k + uint i)" by simp
    ultimately show ?thesis by (simp only: uint_word_of_int) (simp add: mod_pos_pos_trivial)
  qed
  show ?thesis
  proof (rule wfor_each)
    show "\<forall>j<m. i + of_nat j * k < n"
    proof (intro allI impI)
      fix j assume j: "j < m"
      then have "int j * uint k \<le> (int m - 1) * uint k" by (intro mult_right_mono) auto
      then show "i + of_nat j * k < n" using assms(3) j val [of j] by (simp add: word_less_def)
    qed
    show "\<not> i + of_nat m * k < n" using assms(2) val [of m] by (simp add: word_less_def)
  qed
qed

section \<open>The instruction\<close>

type_synonym 's instruction = "3 word \<Rightarrow> 7 word \<Rightarrow> i32 \<Rightarrow> i32 \<Rightarrow> 's \<Rightarrow> (i32 \<times> 's) option"

text \<open>The emulation of \<open>common/src/software_cfu.cc\<close>, and those of the projects.\<close>

definition software_cfu :: "3 word \<Rightarrow> 7 word \<Rightarrow> i32 \<Rightarrow> i32 \<Rightarrow> i32" where
  "software_cfu funct3 funct7 rs1 rs2 = 0"

definition accel_software_cfu :: "3 word \<Rightarrow> 7 word \<Rightarrow> i32 \<Rightarrow> i32 \<Rightarrow> i32" where
  "accel_software_cfu funct3 funct7 rs1 rs2 = (if funct3 = 0 then rs1 + rs2 else rs1)"

definition baseline_software_cfu :: "3 word \<Rightarrow> 7 word \<Rightarrow> i32 \<Rightarrow> i32 \<Rightarrow> i32" where
  "baseline_software_cfu funct3 funct7 rs1 rs2 = (if funct3 = 0 then rs1 + rs2 else rs1)"

definition renode_software_cfu :: "3 word \<Rightarrow> 7 word \<Rightarrow> i32 \<Rightarrow> i32 \<Rightarrow> i32" where
  "renode_software_cfu funct3 funct7 rs1 rs2 = (if funct3 = 0 then rs1 + rs2 else rs1)"

text \<open>\<open>cfu_op_sw\<close>, \<open>cfu_op_hw\<close> on a machine that has the unit, and the switch.\<close>

definition cfu_op_sw :: "(3 word \<Rightarrow> 7 word \<Rightarrow> i32 \<Rightarrow> i32 \<Rightarrow> i32) \<Rightarrow> 's instruction" where
  "cfu_op_sw sw funct3 funct7 rs1 rs2 s = Some (sw funct3 funct7 rs1 rs2, s)"

record machine = console +
  the_cfu :: cfu

definition cfu_op_hw :: "'a machine_scheme instruction" where
  "cfu_op_hw funct3 funct7 rs1 rs2 s = do {
     (r, u) \<leftarrow> cfu_op funct3 funct7 rs1 rs2 (the_cfu s);
     Some (r, s\<lparr>the_cfu := u\<rparr>) }"

definition cfu_op_switch :: "bool \<Rightarrow> 's instruction \<Rightarrow> 's instruction \<Rightarrow> 's instruction" where
  "cfu_op_switch CFU_SOFTWARE_DEFINED sw hw = (if CFU_SOFTWARE_DEFINED then sw else hw)"

section \<open>functional\_cfu\_tests.cc\<close>

abbreviation hex8 :: "i32 \<Rightarrow> string" where "hex8 w \<equiv> zeros 8 (hex (uint w))"

definition do_fixed_tests :: "'a console_scheme instruction \<Rightarrow> 'a console_scheme \<Rightarrow> 'a console_scheme option" where
  "do_fixed_tests op s = do {
     let s = puts ''CFU TEST for op0, 1 and 2:'' s;
     let s = puts ''arg0        arg1        op0         op1         op2'' s;
     wfor 0 0x50505 0x8103 (\<lambda>i s. do {
       let j = i XOR 0xffff;
       (v0, s) \<leftarrow> op 0 0 i j s;
       (v1, s) \<leftarrow> op 1 0 i j s;
       (v2, s) \<leftarrow> op 2 0 i j s;
       Some (print (''0x'' @ hex8 i @ '', 0x'' @ hex8 j @ '': 0x'' @ hex8 v0 @ '', 0x'' @ hex8 v1 @ '', 0x'' @ hex8 v2 @ [LF]) s) }) s }"

text \<open>One comparison; the state is \<open>count\<close> and the machine.\<close>

definition compare_one ::
  "'a console_scheme instruction \<Rightarrow> 'a console_scheme instruction \<Rightarrow> i32 \<Rightarrow> i32 \<Rightarrow> int \<times> 'a console_scheme \<Rightarrow>
   (int \<times> 'a console_scheme) option" where
  "compare_one hw sw i j = (\<lambda>(count, s). do {
     (hw0, s) \<leftarrow> hw 0 0 i j s;
     (hw1, s) \<leftarrow> hw 1 0 i j s;
     (hw2, s) \<leftarrow> hw 2 0 i j s;
     (sw0, s) \<leftarrow> sw 0 0 i j s;
     (sw1, s) \<leftarrow> sw 1 0 i j s;
     (sw2, s) \<leftarrow> sw 2 0 i j s;
     let s = (if hw0 \<noteq> sw0 \<or> hw1 \<noteq> sw1 \<or> hw2 \<noteq> sw2
       then print (''0x'' @ hex8 i @ '', 0x'' @ hex8 j @ '': 0x'' @ hex8 hw0 @ '':0x'' @ hex8 sw0 @ '', 0x'' @ hex8 hw1 @
         '':0x'' @ hex8 sw1 @ '', 0x'' @ hex8 hw2 @ '':0x'' @ hex8 sw2 @ '' <<=== MISMATCH!'' @ [LF])
         (puts ''arg0        arg1            fn0               fn1              fn2'' s)
       else s);
     count \<leftarrow> int32 (count + 1);
     Some (count, if count mod 0x10000 = 0 then print (''Ran '' @ dec count @ '' comparisons....'' @ [LF]) s else s) })"

definition do_compare_tests ::
  "'a console_scheme instruction \<Rightarrow> 'a console_scheme instruction \<Rightarrow> 'a console_scheme \<Rightarrow> 'a console_scheme option" where
  "do_compare_tests hw sw s = do {
     let s = puts ''CFU COMPARE TEST for op0, 1, and 2:'' s;
     (count, s) \<leftarrow> wfor 0 0xff000000 0x710005 (\<lambda>i. wfor 0 0xff000000 0xb100233 (compare_one hw sw i)) (0, s);
     Some (print (''Ran '' @ dec count @ '' comparisons.'' @ [LF]) s) }"

definition print_result :: "int \<Rightarrow> i32 \<Rightarrow> i32 \<Rightarrow> i32 \<Rightarrow> 'a console_scheme \<Rightarrow> 'a console_scheme" where
  "print_result n v0 v1 r = print (''cfu_op'' @ dec n @ ''('' @ hex8 v0 @ '', '' @ hex8 v1 @ '') = '' @ hex8 r @
     '' (hex), '' @ dec (sint r) @ '' (signed), '' @ dec (uint r) @ '' (unsigned)'' @ [LF])"

definition do_interactive_tests :: "'a console_scheme instruction \<Rightarrow> 'a console_scheme \<Rightarrow> 'a console_scheme option" where
  "do_interactive_tests op s = do {
     let s = puts ''CFU Interactive Test:'' s;
     (v0, s) \<leftarrow> read_val ''  First operand value  '' s;
     (v1, s) \<leftarrow> read_val ''  Second operand value '' s;
     each (\<lambda>k s. do {
       (r, s) \<leftarrow> op (word_of_int k) 0 v0 v1 s;
       Some (print_result k v0 v1 r s) }) [0, 1, 2, 3, 4, 5, 6, 7] s }"

definition CFU_TESTS_MENU ::
  "'a console_scheme instruction \<Rightarrow> 'a console_scheme instruction \<Rightarrow> 'a console_scheme instruction \<Rightarrow> 'a console_scheme Menu" where
  "CFU_TESTS_MENU op hw sw =
     \<lparr>title = ''Tests for Functional CFUs'', prompt = ''functional'',
      items =
        [MENU_ITEM (CHR ''f'') ''Run fixed CFU tests'' (do_fixed_tests op),
         MENU_ITEM (CHR ''c'') ''Run hw/sw compare tests'' (do_compare_tests hw sw),
         MENU_ITEM (CHR ''i'') ''Run interactive tests'' (do_interactive_tests op)]
        @ MENU_END\<rparr>"

definition do_functional_cfu_tests ::
  "'a console_scheme instruction \<Rightarrow> 'a console_scheme instruction \<Rightarrow> 'a console_scheme instruction \<Rightarrow>
   'a console_scheme \<Rightarrow> 'a console_scheme option" where
  "do_functional_cfu_tests op hw sw = menu_run (CFU_TESTS_MENU op hw sw)"

section \<open>The project menus\<close>

text \<open>\<open>common/src/proj_menu.cc\<close>, for projects without a menu of their own.\<close>

definition do_hello_world :: "'a console_scheme \<Rightarrow> 'a console_scheme option" where
  "do_hello_world s = Some (puts (''Hello, World!'' @ [LF]) s)"

definition COMMON_PROJ_MENU :: "'a console_scheme Menu" where
  "COMMON_PROJ_MENU = \<lparr>title = ''Project Menu'', prompt = ''project'',
     items = [MENU_ITEM (CHR ''h'') ''say Hello'' do_hello_world] @ MENU_END\<rparr>"

definition common_do_proj_menu :: "'a console_scheme \<Rightarrow> 'a console_scheme option" where
  "common_do_proj_menu = menu_run COMMON_PROJ_MENU"

text \<open>
  \<open>proj_menu.cc\<close> of \<open>proj/accel\<close>; those of \<open>proj/baseline\<close> and \<open>proj/example_renode\<close> are the same
  file. One exercise of the instruction; the state is \<open>(count, pass_count, fail_count)\<close> and the machine.
\<close>

definition proj_hello_world :: "'a console_scheme \<Rightarrow> 'a console_scheme option" where
  "proj_hello_world s = Some (puts (''Hello, World!!!'' @ [LF]) s)"

definition exercise_one ::
  "'a console_scheme instruction \<Rightarrow> i32 \<Rightarrow> i32 \<Rightarrow> (i32 \<times> i32 \<times> i32) \<times> 'a console_scheme \<Rightarrow>
   ((i32 \<times> i32 \<times> i32) \<times> 'a console_scheme) option" where
  "exercise_one op a b = (\<lambda>((count, pass_count, fail_count), s). do {
     (cfu, s) \<leftarrow> op 0 0 a b s;
     if cfu \<noteq> a + b
     then Some ((count + 1, pass_count, fail_count + 1),
       print (''['' @ blanks 4 (dec (sint count)) @ ''] a: '' @ hex8 a @ '' b:'' @ hex8 b @ '' a+b='' @ hex8 (a + b) @
         '' cfu='' @ hex8 cfu @ '' FAIL'' @ [CR, LF]) s)
     else Some ((count + 1, pass_count + 1, fail_count), s) })"

definition do_exercise_cfu_op0 :: "'a console_scheme instruction \<Rightarrow> 'a console_scheme \<Rightarrow> 'a console_scheme option" where
  "do_exercise_cfu_op0 op s = do {
     let s = puts ([CR, LF] @ ''Exercise CFU Op0 aka ADD'' @ [CR, LF]) s;
     ((count, pass_count, fail_count), s) \<leftarrow>
       wfor 0x00004567 0xF8000000 0x00212345 (\<lambda>a. wfor 0x0000ba98 0xFF000000 0x00770077 (exercise_one op a)) ((0, 0, 0), s);
     Some (print ([CR, LF] @ ''Performed '' @ dec (sint count) @ '' comparisons, '' @ dec (sint pass_count) @ '' pass, '' @
       dec (sint fail_count) @ '' fail'' @ [CR, LF]) s) }"

definition PROJ_MENU :: "'a console_scheme instruction \<Rightarrow> 'a console_scheme Menu" where
  "PROJ_MENU op = \<lparr>title = ''Project Menu'', prompt = ''project'',
     items = [MENU_ITEM (CHR ''0'') ''exercise cfu op0'' (do_exercise_cfu_op0 op),
       MENU_ITEM (CHR ''h'') ''say Hello'' proj_hello_world] @ MENU_END\<rparr>"

definition do_proj_menu :: "'a console_scheme instruction \<Rightarrow> 'a console_scheme \<Rightarrow> 'a console_scheme option" where
  "do_proj_menu op = menu_run (PROJ_MENU op)"

section \<open>Instructions that answer by their operands\<close>

lemma each_product: "each (\<lambda>x. each (g x) ys) xs s = each (\<lambda>(x, y). g x y) (List.product xs ys) s"
proof (induction xs arbitrary: s)
  case (Cons x xs)
  have "each (g x) zs s = each (\<lambda>(x, y). g x y) (map (Pair x) zs) s" for zs s
    by (induction zs arbitrary: s) (auto split: bind_splits)
  moreover have "each (\<lambda>x. each (g x) ys) xs = each (\<lambda>(x, y). g x y) (List.product xs ys)" by (intro ext Cons.IH)
  ultimately show ?case by (simp add: each_append)
qed simp

text \<open>
  The operands of the two tests. The inner counter of the comparison passes \<open>2 ^ 32\<close> many times
  before it meets a value of \<open>0xff000000\<close> or more, after 833 iterations.
\<close>

definition exercise_grid :: "(i32 \<times> i32) list" where
  "exercise_grid = List.product (counters 0x4567 0x212345 1916) (counters 0xba98 0x770077 549)"

definition compare_grid :: "(i32 \<times> i32) list" where
  "compare_grid = List.product (counters 0 0x710005 578) (counters 0 0xb100233 833)"

lemma length_grids: "length exercise_grid = 1051884" "length compare_grid = 481474"
  by (simp_all add: exercise_grid_def compare_grid_def counters_def)

lemma exercise_loops:
  "wfor 0x00004567 0xF8000000 0x00212345 (\<lambda>a. wfor 0x0000ba98 0xFF000000 0x00770077 (g a)) s =
   each (\<lambda>(a, b). g a b) exercise_grid s"
proof -
  have "wfor 0x0000ba98 0xFF000000 0x00770077 (g a) = each (g a) (counters 0xba98 0x770077 549)" for a
    by (intro ext wfor_each_int) simp_all
  moreover have "wfor 0x00004567 0xF8000000 0x00212345 h s = each h (counters 0x4567 0x212345 1916) s" for h
    by (intro wfor_each_int) simp_all
  ultimately show ?thesis by (simp only: exercise_grid_def each_product)
qed

function below :: "int \<Rightarrow> int \<Rightarrow> int \<Rightarrow> int \<Rightarrow> bool" where
  "below lim m x k = (if m \<le> 0 then True else x < lim \<and> (let y = x + k in below lim (m - 1) (if y < 2 ^ 32 then y else y - 2 ^ 32) k))"
  by pat_completeness auto
termination by (relation "measure (\<lambda>(lim, m, x, k). nat m)") auto

declare below.simps [simp del]

lemma below_all:
  assumes "below lim (int m) x k" and "0 \<le> x" "x < 2 ^ 32" "0 \<le> k" "k < 2 ^ 32" and "j < m"
  shows "(x + int j * k) mod 2 ^ 32 < lim"
  using assms
proof (induction m arbitrary: x j)
  case (Suc m)
  let ?y = "if x + k < 2 ^ 32 then x + k else x + k - 2 ^ 32"
  have here: "x < lim" and rest: "below lim (int m) ?y k"
    using Suc.prems(1) by (subst (asm) below.simps; simp add: Let_def)+
  show ?case
  proof (cases j)
    case 0
    then show ?thesis using here Suc.prems(2,3) by simp
  next
    case (Suc i)
    have "(?y + int i * k) mod 2 ^ 32 < lim" using rest Suc.prems Suc by (intro Suc.IH) auto
    moreover have "(x + int j * k) mod 2 ^ 32 = (?y + int i * k) mod 2 ^ 32"
    proof (cases "x + k < 2 ^ 32")
      case False
      have "x + int j * k = ?y + int i * k + 2 ^ 32" using False Suc by (simp add: algebra_simps)
      then show ?thesis by (simp only: mod_add_self2)
    qed (simp add: Suc algebra_simps)
    ultimately show ?thesis by simp
  qed
qed simp

lemma compare_wraps:
  "\<forall>j<833. (0 :: i32) + of_nat j * 0xb100233 < 0xff000000" "\<not> (0 :: i32) + of_nat 833 * 0xb100233 < 0xff000000"
proof -
  have val: "uint ((0 :: i32) + of_nat j * 0xb100233) = (0 + int j * 0xb100233) mod 2 ^ 32" for j
  proof -
    have "(0 :: i32) + of_nat j * 0xb100233 = word_of_int (0 + int j * 0xb100233)" by simp
    then show ?thesis by (simp only: uint_word_of_int) simp
  qed
  have "below 0xff000000 (int 833) 0 0xb100233" by code_simp
  from below_all [OF this] have "(0 + int j * 0xb100233) mod 2 ^ 32 < 0xff000000" if "j < 833" for j
    using that by simp
  then show "\<forall>j<833. (0 :: i32) + of_nat j * 0xb100233 < 0xff000000" unfolding word_less_def val by simp
  show "\<not> (0 :: i32) + of_nat 833 * 0xb100233 < 0xff000000" by simp
qed

lemma compare_loops:
  "wfor 0 0xff000000 0x710005 (\<lambda>i. wfor 0 0xff000000 0xb100233 (g i)) s = each (\<lambda>(i, j). g i j) compare_grid s"
proof -
  have "wfor 0 0xff000000 0xb100233 (g i) = each (g i) (counters 0 0xb100233 833)" for i
    by (intro ext wfor_each compare_wraps)
  moreover have "wfor 0 0xff000000 0x710005 h s = each h (counters 0 0x710005 578) s" for h
    by (intro wfor_each_int) simp_all
  ultimately show ?thesis by (simp only: compare_grid_def each_product)
qed

text \<open>Whether an answer \<open>f\<close> is the sum of the operands, and where two answers differ on the functions 0 to 2.\<close>

definition adds :: "(3 word \<Rightarrow> i32 \<Rightarrow> i32 \<Rightarrow> i32) \<Rightarrow> i32 \<times> i32 \<Rightarrow> bool" where
  "adds f p \<longleftrightarrow> f 0 (fst p) (snd p) = fst p + snd p"

definition differ :: "(3 word \<Rightarrow> i32 \<Rightarrow> i32 \<Rightarrow> i32) \<Rightarrow> (3 word \<Rightarrow> i32 \<Rightarrow> i32 \<Rightarrow> i32) \<Rightarrow> i32 \<times> i32 \<Rightarrow> bool" where
  "differ f g = (\<lambda>(i, j). f 0 i j \<noteq> g 0 i j \<or> f 1 i j \<noteq> g 1 i j \<or> f 2 i j \<noteq> g 2 i j)"

text \<open>What comparison number \<open>n\<close> prints.\<close>

definition compare_text :: "(3 word \<Rightarrow> i32 \<Rightarrow> i32 \<Rightarrow> i32) \<Rightarrow> (3 word \<Rightarrow> i32 \<Rightarrow> i32 \<Rightarrow> i32) \<Rightarrow> int \<Rightarrow> i32 \<times> i32 \<Rightarrow> string" where
  "compare_text f g n = (\<lambda>(i, j).
     (if differ f g (i, j)
      then ''arg0        arg1            fn0               fn1              fn2'' @ [LF] @
        ''0x'' @ hex8 i @ '', 0x'' @ hex8 j @ '': 0x'' @ hex8 (f 0 i j) @ '':0x'' @ hex8 (g 0 i j) @ '', 0x'' @
        hex8 (f 1 i j) @ '':0x'' @ hex8 (g 1 i j) @ '', 0x'' @ hex8 (f 2 i j) @ '':0x'' @ hex8 (g 2 i j) @ '' <<=== MISMATCH!'' @ [LF]
      else []) @
     (if n mod 0x10000 = 0 then ''Ran '' @ dec n @ '' comparisons....'' @ [LF] else []))"

text \<open>
  The contract: in a state that is \<open>ready\<close> the instruction returns \<open>f funct3 rs1 rs2\<close>, is ready
  again and leaves the console alone; printing does not disturb it.
\<close>

locale answering =
  fixes op :: "'a console_scheme instruction" and ready :: "'a console_scheme \<Rightarrow> bool"
    and f :: "3 word \<Rightarrow> i32 \<Rightarrow> i32 \<Rightarrow> i32"
  assumes answers: "ready s \<Longrightarrow> \<exists>t. op k 0 a b s = Some (f k a b, t) \<and> ready t \<and> cout t = cout s"
    and ready_print: "ready s \<Longrightarrow> ready (print str s)"
begin

lemma op_answer:
  assumes "ready s"
  obtains t where "op k 0 a b s = Some (f k a b, t)" "ready t" "cout t = cout s"
  using answers [OF assms] by blast

lemma exercise_each:
  assumes "ready s"
  shows "\<exists>t. each (\<lambda>(a, b). exercise_one op a b) ps ((c, p, q), s) =
    Some ((c + of_nat (length ps), p + of_nat (length (filter (adds f) ps)), q + of_nat (length (filter (\<lambda>x. \<not> adds f x) ps))), t) \<and> ready t"
  using assms
proof (induction ps arbitrary: c p q s)
  case (Cons x ps)
  obtain a b where x: "x = (a, b)" by (cases x)
  obtain t where t: "op 0 0 a b s = Some (f 0 a b, t)" "ready t" by (rule op_answer [OF Cons.prems])
  obtain u where u: "exercise_one op a b ((c, p, q), s) =
      Some ((c + 1, p + of_bool (adds f x), q + of_bool (\<not> adds f x)), u)" "ready u"
    using t ready_print [OF t(2)] by (cases "adds f x") (auto simp: x exercise_one_def adds_def)
  from Cons.IH [OF this(2), of "c + 1" "p + of_bool (adds f x)" "q + of_bool (\<not> adds f x)"] u(1)
  show ?case by (cases "adds f x") (simp_all add: x add.assoc)
qed auto

lemma exercise_result:
  assumes "ready s"
  shows "\<exists>t. do_exercise_cfu_op0 op s = Some (print ([CR, LF] @ ''Performed '' @ dec 1051884 @ '' comparisons, '' @
      dec (int (length (filter (adds f) exercise_grid))) @ '' pass, '' @
      dec (int (length (filter (\<lambda>x. \<not> adds f x) exercise_grid))) @ '' fail'' @ [CR, LF]) t)"
proof -
  have n: "sint (of_nat n :: i32) = int n" if "n \<le> 1051884" for n
    using that sint32_of_int [of "int n"] by simp
  have le: "length (filter P exercise_grid) \<le> 1051884" for P
    using length_filter_le [of P exercise_grid] by (simp add: length_grids)
  have s: "sint (1051884 :: i32) = 1051884" by simp
  obtain t where "each (\<lambda>(a, b). exercise_one op a b) exercise_grid ((0, 0, 0), puts ([CR, LF] @ ''Exercise CFU Op0 aka ADD'' @ [CR, LF]) s) =
      Some ((0 + of_nat (length exercise_grid), 0 + of_nat (length (filter (adds f) exercise_grid)),
        0 + of_nat (length (filter (\<lambda>x. \<not> adds f x) exercise_grid))), t)"
    using exercise_each [OF ready_print [OF assms]] unfolding puts_def by blast
  then show ?thesis
    by (intro exI [of _ t]) (simp only: do_exercise_cfu_op0_def exercise_loops Let_def bind.bind_lunit prod.case
      add_0 n [OF le] length_grids of_nat_numeral s)
qed

end

text \<open>Two instructions side by side.\<close>

locale comparing = hw: answering hw ready f + sw: answering sw ready g
  for hw sw :: "'a console_scheme instruction" and ready and f g
begin

lemma compare_one_text:
  assumes "ready s" and "0 \<le> n" and "n < 2 ^ 31 - 1"
  shows "\<exists>t. compare_one hw sw i j (n, s) = Some (n + 1, t) \<and> ready t \<and> cout t = cout s @ compare_text f g (n + 1) (i, j)"
proof -
  obtain s0 where s0: "hw 0 0 i j s = Some (f 0 i j, s0)" "ready s0" "cout s0 = cout s" by (rule hw.op_answer [OF assms(1)])
  obtain s1 where s1: "hw 1 0 i j s0 = Some (f 1 i j, s1)" "ready s1" "cout s1 = cout s0" by (rule hw.op_answer [OF s0(2)])
  obtain s2 where s2: "hw 2 0 i j s1 = Some (f 2 i j, s2)" "ready s2" "cout s2 = cout s1" by (rule hw.op_answer [OF s1(2)])
  obtain s3 where s3: "sw 0 0 i j s2 = Some (g 0 i j, s3)" "ready s3" "cout s3 = cout s2" by (rule sw.op_answer [OF s2(2)])
  obtain s4 where s4: "sw 1 0 i j s3 = Some (g 1 i j, s4)" "ready s4" "cout s4 = cout s3" by (rule sw.op_answer [OF s3(2)])
  obtain s5 where s5: "sw 2 0 i j s4 = Some (g 2 i j, s5)" "ready s5" "cout s5 = cout s4" by (rule sw.op_answer [OF s4(2)])
  have cout: "cout (print str t) = cout t @ str" for str and t :: "'a console_scheme" by (simp add: print_def)
  have count: "int32 (n + 1) = Some (n + 1)" using assms by (simp add: int32_def)
  show ?thesis
    using s5(2) s0(3) s1(3) s2(3) s3(3) s4(3) s5(3)
    by (simp add: compare_one_def s0(1) s1(1) s2(1) s3(1) s4(1) s5(1) count compare_text_def Let_def cout puts_def
        hw.ready_print differ_def)
qed

lemma compare_each:
  assumes "ready s" and "0 \<le> n" and "n + int (length ps) < 2 ^ 31"
  shows "\<exists>t. each (\<lambda>(i, j). compare_one hw sw i j) ps (n, s) = Some (n + int (length ps), t) \<and> ready t \<and>
    cout t = cout s @ concat (map (\<lambda>(k, p). compare_text f g (n + 1 + int k) p) (enumerate 0 ps))"
  using assms
proof (induction ps arbitrary: n s)
  case (Cons p ps)
  obtain i j where p: "p = (i, j)" by (cases p)
  have "n < 2 ^ 31 - 1" using Cons.prems(3) by simp
  from compare_one_text [OF Cons.prems(1,2) this] obtain t where
    t: "compare_one hw sw i j (n, s) = Some (n + 1, t)" "ready t" "cout t = cout s @ compare_text f g (n + 1) (i, j)" by blast
  have "0 \<le> n + 1" "n + 1 + int (length ps) < 2 ^ 31" using Cons.prems(2,3) by auto
  from Cons.IH [OF t(2) this] obtain u where
    u: "each (\<lambda>(i, j). compare_one hw sw i j) ps (n + 1, t) = Some (n + 1 + int (length ps), u)" "ready u"
    "cout u = cout t @ concat (map (\<lambda>(k, p). compare_text f g (n + 1 + 1 + int k) p) (enumerate 0 ps))" by blast
  have "enumerate 0 (p # ps) = (0, p) # map (\<lambda>(k, p). (Suc k, p)) (enumerate 0 ps)"
    unfolding enumerate_simps enumerate_Suc_eq by (auto simp: apfst_def map_prod_def)
  with t u show ?case by (simp add: p comp_def case_prod_unfold algebra_simps)
qed simp

lemma compare_result:
  assumes "ready s"
  shows "\<exists>t. do_compare_tests hw sw s = Some t \<and> ready t \<and> cout t = cout s @ ''CFU COMPARE TEST for op0, 1, and 2:'' @ [LF] @
    concat (map (\<lambda>(k, p). compare_text f g (1 + int k) p) (enumerate 0 compare_grid)) @ ''Ran 481474 comparisons.'' @ [LF]"
proof -
  have d: "dec 481474 = ''481474''" by code_simp
  let ?s = "puts ''CFU COMPARE TEST for op0, 1, and 2:'' s"
  have "0 + int (length compare_grid) < 2 ^ 31" by (simp add: length_grids)
  from compare_each [OF hw.ready_print [OF assms] order_refl this] obtain t where
    t: "each (\<lambda>(i, j). compare_one hw sw i j) compare_grid (0, ?s) = Some (0 + int (length compare_grid), t)" "ready t"
    "cout t = cout ?s @ concat (map (\<lambda>(k, p). compare_text f g (0 + 1 + int k) p) (enumerate 0 compare_grid))"
    unfolding puts_def by blast
  have "do_compare_tests hw sw s = Some (print (''Ran '' @ dec 481474 @ '' comparisons.'' @ [LF]) t)"
    unfolding do_compare_tests_def compare_loops Let_def t(1) bind.bind_lunit prod.case length_grids by simp
  moreover have "cout ?s = cout s @ ''CFU COMPARE TEST for op0, 1, and 2:'' @ [LF]" by (simp add: puts_def print_def)
  ultimately show ?thesis
    using t(2,3) hw.ready_print [OF t(2)] by (intro exI [of _ "print (''Ran '' @ dec 481474 @ '' comparisons.'' @ [LF]) t"]) (simp add: print_def d)
qed

end

section \<open>The emulation and the gateware\<close>

text \<open>A machine whose function unit is idle.\<close>

definition machine_ready :: "'a machine_scheme \<Rightarrow> bool" where
  "machine_ready s \<longleftrightarrow> cfu_wf (the_cfu s)"

lemma gateware_answers:
  assumes "machine_ready s"
  shows "\<exists>t. cfu_op_hw k 0 a b s = Some (0, t) \<and> machine_ready t \<and> cout t = cout s"
proof -
  have wf: "cfu_wf (the_cfu s)" using assms by (simp add: machine_ready_def)
  have "func (command k 0 a b) = 0"
    by (rule bit_word_eqI) (auto simp: func_def command_def bit_simps dest: bit_imp_le_length)
  then have "output_0 (cfu_posedge (command k 0 a b) (the_cfu s)) = 0"
    using wf by (simp add: cfu_posedge_def next_output_0_def cfu_wf_lengths)
  moreover obtain r u where u: "cfu_op k 0 a b (the_cfu s) = Some (r, u)" "cfu_wf u"
    using wf_op [OF wf, of k 0 a b] by (auto simp: ok_iff)
  ultimately have "r = 0" by (auto simp: cfu_op_def Let_def split: if_splits)
  with u show ?thesis by (simp add: cfu_op_hw_def machine_ready_def)
qed

interpretation gateware: answering cfu_op_hw machine_ready "\<lambda>_ _ _. 0"
  by (unfold_locales, rule gateware_answers) (simp_all add: machine_ready_def print_def)

interpretation emulation: answering "cfu_op_sw accel_software_cfu" machine_ready "\<lambda>k. accel_software_cfu k 0"
  by unfold_locales (auto simp: cfu_op_sw_def machine_ready_def print_def)

interpretation accel_units: comparing cfu_op_hw "cfu_op_sw accel_software_cfu" machine_ready "\<lambda>_ _ _. 0" "\<lambda>k. accel_software_cfu k 0"
  by unfold_locales

lemma no_zero_sum:
  assumes "p \<in> set exercise_grid"
  shows "fst p + snd p \<noteq> 0"
proof
  assume z: "fst p + snd p = 0"
  obtain k l where k: "k < 1916" "l < 549" and p: "p = (0x4567 + of_nat k * 0x212345, 0xba98 + of_nat l * 0x770077)"
    using assms by (auto simp: exercise_grid_def counters_def)
  have "(word_of_int (65535 + 2171717 * int k + 7798903 * int l) :: i32) = 0" using z p by (simp add: algebra_simps)
  then have "(65535 + 2171717 * int k + 7798903 * int l) mod 2 ^ 32 = 0"
    by (simp only: word_uint_eq_iff uint_word_of_int) simp
  then obtain q where q: "65535 + 2171717 * int k + 7798903 * int l = 2 ^ 32 * q" by (auto simp: mod_eq_0_iff_dvd elim: dvdE)
  have "0 < 2 ^ 32 * q" "2 ^ 32 * q < 2 * 2 ^ 32" using k unfolding q [symmetric] by simp_all
  then have "q = 1" by simp
  with q have eq: "2171717 * int k + 7798903 * int l = 4294901761" by simp
  have "4685014 - int k = 7798903 * (4925904 * int l + 1371689 * int k - 2712724310)" using eq by (simp add: algebra_simps)
  then have "7798903 dvd 4685014 - int k" by (rule dvdI)
  moreover have "0 < 4685014 - int k" "4685014 - int k < 7798903" using k(1) by simp_all
  ultimately show False using zdvd_imp_le by fastforce
qed

lemma only_zero_agrees:
  assumes "p \<in> set compare_grid"
  shows "differ (\<lambda>_ _ _. 0) (\<lambda>k. accel_software_cfu k 0) p \<longleftrightarrow> p \<noteq> (0, 0)"
  by (cases p) (auto simp: differ_def accel_software_cfu_def)

text \<open>
  The exercise of the project menu, which checks that function 0 adds: the emulation passes all
  1051884 comparisons, the gateware of \<open>proj/accel\<close> fails every one, since it answers 0 and no pair
  of operands of the exercise adds up to 0.
\<close>
theorem exercise_passes_only_emulated:
  fixes s :: "'a machine_scheme"
  assumes "machine_ready s"
  shows "(\<exists>t. do_exercise_cfu_op0 (cfu_op_sw accel_software_cfu) s =
      Some (print ([CR, LF] @ ''Performed 1051884 comparisons, 1051884 pass, 0 fail'' @ [CR, LF]) t)) \<and>
    (\<exists>t. do_exercise_cfu_op0 cfu_op_hw s =
      Some (print ([CR, LF] @ ''Performed 1051884 comparisons, 0 pass, 1051884 fail'' @ [CR, LF]) t))"
proof -
  have d: "dec 1051884 = ''1051884''" "dec 0 = ''0''" by code_simp+
  have "filter (adds (\<lambda>k. accel_software_cfu k 0)) ps = ps" "filter (\<lambda>x. \<not> adds (\<lambda>k. accel_software_cfu k 0) x) ps = []" for ps
    by (simp_all add: adds_def accel_software_cfu_def)
  moreover have "\<not> adds (\<lambda>_ _ _. 0) p" if "p \<in> set exercise_grid" for p
    using no_zero_sum [OF that, symmetric] by (simp add: adds_def)
  then have "filter (adds (\<lambda>_ _ _. 0)) exercise_grid = []" "filter (\<lambda>x. \<not> adds (\<lambda>_ _ _. 0) x) exercise_grid = exercise_grid"
    by simp_all
  ultimately show ?thesis
    using emulation.exercise_result [OF assms] gateware.exercise_result [OF assms] by (simp add: length_grids d)
qed

definition example_machine :: machine where
  "example_machine = \<lparr>cin = [], cout = [], the_cfu = cfu_init\<rparr>"

lemma exercise_passes_only_emulated_witness:
  "\<exists>t. do_exercise_cfu_op0 cfu_op_hw example_machine =
     Some (print ([CR, LF] @ ''Performed 1051884 comparisons, 0 pass, 1051884 fail'' @ [CR, LF]) t)"
  by (rule exercise_passes_only_emulated [THEN conjunct2]) (simp add: machine_ready_def example_machine_def wf_init)

text \<open>
  C27. The comparison of hardware and emulation ends, although its inner counter wraps around: it makes
  481474 comparisons (833 for each of 578 first operands) and prints their number after every 65536.
  On the gateware of \<open>proj/accel\<close> it reports every pair of operands but \<open>(0, 0)\<close> as a mismatch: the
  emulation does not describe the unit.
\<close>
theorem compare_tests_report:
  fixes s :: "'a machine_scheme"
  assumes "machine_ready s"
  shows "(\<exists>t. do_compare_tests cfu_op_hw (cfu_op_sw accel_software_cfu) s = Some t \<and> machine_ready t \<and>
    cout t = cout s @ ''CFU COMPARE TEST for op0, 1, and 2:'' @ [LF] @
      concat (map (\<lambda>(k, p). compare_text (\<lambda>_ _ _. 0) (\<lambda>k. accel_software_cfu k 0) (1 + int k) p) (enumerate 0 compare_grid)) @
      ''Ran 481474 comparisons.'' @ [LF]) \<and>
    length compare_grid = 481474 \<and>
    (\<forall>p\<in>set compare_grid. differ (\<lambda>_ _ _. 0) (\<lambda>k. accel_software_cfu k 0) p \<longleftrightarrow> p \<noteq> (0, 0))"
  by (intro conjI ballI accel_units.compare_result [OF assms] length_grids(2)) (rule only_zero_agrees)

lemma compare_tests_report_witness:
  "\<exists>t. do_compare_tests cfu_op_hw (cfu_op_sw accel_software_cfu) example_machine = Some t \<and> machine_ready t"
proof -
  have "machine_ready example_machine" by (simp add: machine_ready_def example_machine_def wf_init)
  from compare_tests_report [OF this, THEN conjunct1] show ?thesis by blast
qed

end
