(* ===== verification/Playground.thy ===== *)
theory Playground
  imports Menu_Steps Soft_Float Model_Facts Trap Flash Benchmarks Cfu_Tests
begin

text \<open>
  The main program, \<open>common/src/main.c\<close> and \<open>tflite_unit_tests.cc\<close>: the menu that joins all the
  other components, over one state, the \<open>world\<close>. What a build and its SoC decide is the record
  \<open>firmware\<close>: the options, the test programs of the library, the function unit with its emulation,
  the flash, the buffer of the benchmarks and what the CPU computes for a division.
\<close>

section \<open>The machine and the build\<close>

record world = model_state +
  the_unit :: cfu
  the_cpu :: cpu
  sim_trace :: bool
  sim_finish :: bool

record 'w firmware =
  SKIP_TFLM :: bool
  PLATFORM_sim :: bool
  DIV_UNIMPLEMENTED :: bool
  the_build :: build
  the_site :: "'w site"
  conv_test :: "'w \<Rightarrow> (i32 \<times> 'w) option"
  depthwise_conv_test :: "'w \<Rightarrow> (i32 \<times> 'w) option"
  op_current :: "'w instruction"
  op_hardware :: "'w instruction"
  op_software :: "'w instruction"
  soc_flash :: "(i32 \<times> i32 \<times> i8 list) option"
  flash_phy :: bool
  DIVISOR :: nat
  flash_pointer :: "i32 \<Rightarrow> string"
  flash_crc32 :: "i8 list \<Rightarrow> i32"
  flash_bus :: "nat \<Rightarrow> i32 \<Rightarrow> i32"
  BUF_SIZE :: int
  bench_buf :: "i32 list"
  div_exec :: "string \<Rightarrow> i32 \<Rightarrow> i32 \<Rightarrow> i32"
  uart_init :: "cpu \<Rightarrow> cpu"

text \<open>The custom instruction of \<open>proj/accel\<close> on the unit of this machine.\<close>

definition unit_op_hw :: "'a world_scheme instruction" where
  "unit_op_hw funct3 funct7 rs1 rs2 s = do {
     (r, u) \<leftarrow> cfu_op funct3 funct7 rs1 rs2 (the_unit s);
     Some (r, s\<lparr>the_unit := u\<rparr>) }"

section \<open>tflite\_unit\_tests.cc\<close>

text \<open>The results of the two test programs are dropped.\<close>

definition tflite_do_tests :: "'a world_scheme firmware \<Rightarrow> 'a world_scheme \<Rightarrow> 'a world_scheme option" where
  "tflite_do_tests fw s = do {
     let s = puts ([LF] @ ''CONV TEST:'') s;
     (_, s) \<leftarrow> conv_test fw s;
     let s = puts ''DEPTHWISE_CONV TEST:'' s;
     (_, s) \<leftarrow> depthwise_conv_test fw s;
     Some s }"

section \<open>main.c\<close>

definition trace_sim :: "'a world_scheme \<Rightarrow> 'a world_scheme option" where
  "trace_sim s = Some ((puts ''Beginning trace'' s)\<lparr>sim_trace := True\<rparr>)"

text \<open>The register asks the simulation to end; until it does, the CPU goes on.\<close>

definition exit_sim :: "'a world_scheme \<Rightarrow> 'a world_scheme option" where
  "exit_sim s = Some ((puts ''Goodbye!'' s)\<lparr>sim_finish := True\<rparr>)"

abbreviation perf_of :: "'a world_scheme firmware \<Rightarrow> bool" where "perf_of fw \<equiv> PERF_CSRS (the_port (the_site fw))"

abbreviation clock_of :: "'a world_scheme firmware \<Rightarrow> csr_env" where "clock_of fw \<equiv> cpu_clock (the_port (the_site fw))"

definition run_spiflash_menu :: "'a world_scheme firmware \<Rightarrow> 'a world_scheme \<Rightarrow> 'a world_scheme option" where
  "run_spiflash_menu fw =
     spiflash_menu (flash_phy fw) (DIVISOR fw) (flash_pointer fw) (flash_crc32 fw) (flash_bus fw) (clock_of fw) (soc_flash fw)"

definition run_benchmarks_menu :: "'a world_scheme firmware \<Rightarrow> 'a world_scheme \<Rightarrow> 'a world_scheme option" where
  "run_benchmarks_menu fw = do_benchmarks_menu (NDEBUG (the_port (the_site fw))) (clock_of fw) (BUF_SIZE fw) (bench_buf fw)
     (map_option (\<lambda>(base, rest). (flash_pointer fw base, rest)) (soc_flash fw))"

definition MAIN_MENU :: "'a world_scheme firmware \<Rightarrow> 'a world_scheme Menu" where
  "MAIN_MENU fw = \<lparr>title = ''CFU Playground'', prompt = ''main'',
     items =
       (if SKIP_TFLM fw then [] else [MENU_ITEM (CHR ''1'') ''TfLM Models menu'' (models_menu (the_build fw) (the_site fw))]) @
       [MENU_ITEM (CHR ''2'') ''Functional CFU Tests''
          (do_functional_cfu_tests (op_current fw) (op_hardware fw) (op_software fw)),
        MENU_ITEM (CHR ''3'') ''Project menu'' (do_proj_menu (op_current fw)),
        MENU_ITEM (CHR ''4'') ''Performance Counter Tests'' (perf_test_menu (perf_of fw) (clock_of fw))] @
       (if SKIP_TFLM fw then [] else [MENU_ITEM (CHR ''5'') ''TFLite Unit Tests'' (tflite_do_tests fw)]) @
       [MENU_ITEM (CHR ''6'') ''Benchmarks'' (run_benchmarks_menu fw),
        MENU_ITEM (CHR ''7'') ''Util Tests'' do_util_tests_menu] @
       (case soc_flash fw of None \<Rightarrow> [] | Some _ \<Rightarrow> [MENU_ITEM (CHR ''8'') ''SPI Flash Debugging'' (run_spiflash_menu fw)]) @
       (if DIV_UNIMPLEMENTED fw
        then [MENU_ITEM (CHR ''I'') ''Illegal Instruction Tests (these *WILL* hang on Fomu!)''
                (\<lambda>s. Some (do_instruction_tests (div_exec fw) s))]
        else []) @
       (case screen (the_site fw) of
          None \<Rightarrow> []
        | Some b \<Rightarrow> [MENU_ITEM (CHR ''9'') ''Framebuffer Debugging''
            (framebuffer_menu (FB_WIDTH b) (FB_HEIGHT b) (FB_BASE_ADDR b) (BigFont b))]) @
       (if PLATFORM_sim fw
        then [MENU_ITEM (CHR ''t'') ''trace (only works in simulation)'' trace_sim,
              MENU_ITEM (CHR ''Q'') ''Exit (only works in simulation)'' exit_sim]
        else []) @
       [MENU_SENTINEL]\<rparr>"

text \<open>The state in which \<open>main\<close> calls \<open>menu_run\<close>, and \<open>main\<close> with its result.\<close>

definition main_start :: "'a world_scheme firmware \<Rightarrow> 'a world_scheme \<Rightarrow> 'a world_scheme" where
  "main_start fw s = print (''Hello, World!'' @ [LF]) (s\<lparr>the_cpu := init_runtime (uart_init fw) (the_cpu s)\<rparr>)"

definition main_program :: "'a world_scheme firmware \<Rightarrow> 'a world_scheme \<Rightarrow> (int \<times> 'a world_scheme) option" where
  "main_program fw s = do {
     s \<leftarrow> menu_run (MAIN_MENU fw) (main_start fw s);
     Some (0, s) }"

section \<open>The menus\<close>

definition unambiguous :: "'w Menu \<Rightarrow> bool" where
  "unambiguous m \<longleftrightarrow> wf_menu m \<and> distinct (map selection (items m))"

text \<open>
  Every menu of the program but the main one, as the firmware configures them: those of the models,
  those of the other components, and those that need a flash or a screen.
\<close>

definition model_menus :: "'a world_scheme site \<Rightarrow> 'a world_scheme Menu list" where
  "model_menus w =
     [PDTI8_MENU w, SPEECH_MENU w, WAND_MENU w, MNV2_MENU w, HPS_MENU w, ANOMD_MENU w, IMGC_MENU w, KWS_MENU w,
      VWW_MENU w, MNIST_MENU w]"

definition program_menus :: "'a world_scheme firmware \<Rightarrow> 'a world_scheme Menu list" where
  "program_menus fw =
     [MODELS_MENU (the_build fw) (the_site fw), CFU_TESTS_MENU (op_current fw) (op_hardware fw) (op_software fw),
      PROJ_MENU (op_current fw), COMMON_PROJ_MENU, PERF_MENU (perf_of fw) (clock_of fw), UTIL_MENU,
      BENCHMARKS_MENU (NDEBUG (the_port (the_site fw))) (clock_of fw) (BUF_SIZE fw) (bench_buf fw)
        (map_option (\<lambda>(base, rest). (flash_pointer fw base, rest)) (soc_flash fw))] @
     (case soc_flash fw of
        None \<Rightarrow> []
      | Some (base, n, flash) \<Rightarrow>
          [FLASH_MENU (flash_phy fw) (DIVISOR fw) (flash_pointer fw) (flash_crc32 fw) (flash_bus fw) (clock_of fw) base n flash]) @
     (case screen (the_site fw) of
        None \<Rightarrow> []
      | Some b \<Rightarrow> [FB_MENU (FB_WIDTH b) (FB_HEIGHT b) (FB_BASE_ADDR b) (BigFont b)])"

text \<open>A menu with different keys, none of them taken by \<open>MENU_END\<close>, which closes it.\<close>

definition standard :: "'w Menu \<Rightarrow> bool" where
  "standard m \<longleftrightarrow> (let ps = butlast (butlast (items m)); keys = map selection ps in
     items m = ps @ MENU_END \<and> length (title m) < 80 \<and> distinct keys \<and> CHR ''x'' \<notin> set keys \<and> CHR 0x00 \<notin> set keys)"

lemma find_exit:
  "CHR ''x'' \<notin> set (map selection ps) \<Longrightarrow> CHR 0x00 \<notin> set (map selection ps) \<Longrightarrow>
    find_item (CHR ''x'') (ps @ MENU_END) = Some (Some (hd MENU_END))"
  by (induction ps) (auto simp: MENU_END_def)

lemma standard_menu: "standard m \<Longrightarrow> unambiguous m \<and> exits m (CHR ''x'')"
proof -
  assume "standard m"
  then obtain ps where m: "items m = ps @ MENU_END" "length (title m) < 80" and
    keys: "distinct (map selection ps)" "CHR ''x'' \<notin> set (map selection ps)" "CHR 0x00 \<notin> set (map selection ps)"
    by (auto simp: standard_def Let_def)
  have "distinct (map selection (ps @ MENU_END))" using keys by (auto simp: MENU_END_def MENU_SENTINEL_def)
  moreover have "wf_menu m" using m by (auto simp: wf_menu_def MENU_END_def MENU_SENTINEL_def)
  moreover have "exits m (CHR ''x'')" using find_exit [OF keys(2,3)] m by (auto simp: exits_def MENU_END_def)
  ultimately show ?thesis using m by (simp add: unambiguous_def)
qed

lemma standard_models: "standard (MODELS_MENU b w)"
proof -
  let ?ps = "butlast (butlast (items (MODELS_MENU b w)))"
  let ?keys = "if included_models b w = [] then ''!'' else take (length (included_models b w)) ''123456789:''"
  have "map selection (items (MODELS_MENU b w)) = ?keys @ [CHR ''x'', CHR 0x00]"
    and "distinct (map selection (items (MODELS_MENU b w)))"
    using models_menu_unambiguous by blast+
  moreover from this have "map selection ?ps = ?keys" by (simp only: map_butlast) (simp add: butlast_append)
  moreover have "items (MODELS_MENU b w) = ?ps @ MENU_END"
    by (simp add: MODELS_MENU_def MENU_END_def butlast_append)
  ultimately show ?thesis unfolding standard_def Let_def by (auto simp: MODELS_MENU_def)
qed

lemmas menu_parts = standard_def MENU_ITEM_def MENU_END_def MENU_SENTINEL_def

lemma standard_pdti8: "standard (PDTI8_MENU w)"
  by (simp add: menu_parts PDTI8_MENU_def)

lemma standard_speech: "standard (SPEECH_MENU w)"
  by (simp add: menu_parts SPEECH_MENU_def)

lemma standard_wand: "standard (WAND_MENU w)"
  by (simp add: menu_parts WAND_MENU_def)

lemma standard_mnv2: "standard (MNV2_MENU w)"
  by (simp add: menu_parts MNV2_MENU_def)

lemma standard_hps: "standard (HPS_MENU w)"
  by (simp add: menu_parts HPS_MENU_def)

lemma standard_anomd: "standard (ANOMD_MENU w)"
  by (simp add: menu_parts ANOMD_MENU_def)

lemma standard_imgc: "standard (IMGC_MENU w)"
  by (simp add: menu_parts IMGC_MENU_def)

lemma standard_kws: "standard (KWS_MENU w)"
  by (simp add: menu_parts KWS_MENU_def)

lemma standard_vww: "standard (VWW_MENU w)"
  by (simp add: menu_parts VWW_MENU_def)

lemma standard_mnist: "standard (MNIST_MENU w)"
  by (simp add: menu_parts MNIST_MENU_def)

lemma standard_model_menus: "list_all standard (model_menus w)"
  unfolding model_menus_def list.pred_inject
  by (intro conjI list.pred_inject(1) standard_pdti8 standard_speech standard_wand standard_mnv2 standard_hps standard_anomd standard_imgc
    standard_kws standard_vww standard_mnist)

lemma standard_cfu_tests: "standard (CFU_TESTS_MENU op hw sw)"
  by (simp add: menu_parts CFU_TESTS_MENU_def)

lemma standard_proj: "standard (PROJ_MENU op)" "standard COMMON_PROJ_MENU"
  by (simp_all add: menu_parts PROJ_MENU_def COMMON_PROJ_MENU_def)

lemma standard_perf: "standard (PERF_MENU cfg env)"
  by (simp add: menu_parts PERF_MENU_def)

lemma standard_util: "standard UTIL_MENU"
  by (simp add: menu_parts UTIL_MENU_def)

lemma standard_benchmarks: "standard (BENCHMARKS_MENU nd env n buf flash)"
proof (cases flash)
  case (Some f)
  then show ?thesis by (cases f) (simp add: menu_parts BENCHMARKS_MENU_def)
qed (simp add: menu_parts BENCHMARKS_MENU_def)

lemma standard_flash: "standard (FLASH_MENU phy DIV fmt_p crc bus env base n flash)"
  by (cases phy) (simp_all add: menu_parts FLASH_MENU_def)

lemma standard_fb: "standard (FB_MENU W H base font)"
  by (simp add: menu_parts FB_MENU_def)

lemma standard_program_menus: "list_all standard (program_menus fw)"
  by (auto simp: program_menus_def standard_models standard_cfu_tests standard_proj standard_perf standard_util
    standard_benchmarks standard_flash standard_fb split: option.split)

lemma main_keys: "map selection (items (MAIN_MENU fw)) =
    (if SKIP_TFLM fw then [] else ''1'') @ ''234'' @ (if SKIP_TFLM fw then [] else ''5'') @ ''67'' @
    (if soc_flash fw = None then [] else ''8'') @ (if DIV_UNIMPLEMENTED fw then ''I'' else []) @
    (if screen (the_site fw) = None then [] else ''9'') @ (if PLATFORM_sim fw then ''tQ'' else []) @ [CHR 0x00]"
  by (simp add: MAIN_MENU_def MENU_ITEM_def MENU_SENTINEL_def split: option.split)

lemma wf_main_menu: "wf_menu (MAIN_MENU fw)"
  by (simp add: wf_menu_def MAIN_MENU_def MENU_SENTINEL_def)

text \<open>
  C38. In every configuration a key selects at most one item of a menu, every menu can be shown, and
  every menu but the main one is left with the key x.
\<close>
theorem every_menu_unambiguous:
  "unambiguous (MAIN_MENU fw) \<and>
   list_all (\<lambda>m. unambiguous m \<and> exits m (CHR ''x'')) (model_menus (the_site fw) @ program_menus fw)"
proof
  show "unambiguous (MAIN_MENU fw)" unfolding unambiguous_def main_keys by (simp add: wf_main_menu)
  have "list_all standard (model_menus (the_site fw) @ program_menus fw)"
    by (simp add: standard_model_menus standard_program_menus)
  then show "list_all (\<lambda>m. unambiguous m \<and> exits m (CHR ''x'')) (model_menus (the_site fw) @ program_menus fw)"
    by (rule list.pred_mono_strong) (rule standard_menu)
qed

text \<open>
  C40. \<open>main\<close> never returns to the start-up code, whatever the user types and whatever the items do: its
  menu has no item that exits.
\<close>
theorem main_never_returns: "main_program fw s = None"
proof -
  have "\<forall>p\<in>set (items (MAIN_MENU fw)). \<not> exit p"
    by (auto simp: MAIN_MENU_def MENU_ITEM_def MENU_SENTINEL_def split: option.splits)
  then show ?thesis by (simp add: main_program_def no_exit_no_return)
qed

section \<open>Sessions\<close>

text \<open>The items a key selects.\<close>

lemma main_item_sim:
  assumes "PLATFORM_sim fw"
  shows "find_item (CHR ''t'') (items (MAIN_MENU fw)) = Some (Some (MENU_ITEM (CHR ''t'') ''trace (only works in simulation)'' trace_sim))"
    and "find_item (CHR ''Q'') (items (MAIN_MENU fw)) = Some (Some (MENU_ITEM (CHR ''Q'') ''Exit (only works in simulation)'' exit_sim))"
  using assms by (simp_all add: MAIN_MENU_def MENU_ITEM_def split: option.split)

lemma main_item_project:
  "find_item (CHR ''3'') (items (MAIN_MENU fw)) = Some (Some (MENU_ITEM (CHR ''3'') ''Project menu'' (do_proj_menu (op_current fw))))"
  by (simp add: MAIN_MENU_def MENU_ITEM_def)

text \<open>A key whose item prints a line and then sets some register.\<close>

lemma key_sets:
  fixes s :: "'a console_scheme"
  assumes "wf_menu m" and "cin s = c # cs" and "c \<noteq> LF" "c \<noteq> CR"
    and "find_item c (items m) = Some (Some (MENU_ITEM c text f))"
    and f: "\<And>w. f w = Some (g (puts line w))"
    and frame: "\<And>w i u. g (w\<lparr>cin := i, cout := u\<rparr>) = (g w)\<lparr>cin := i, cout := u\<rparr>"
  shows "\<exists>out. menu_round m s = Some (Inl ((g s)\<lparr>cin := cs, cout := cout s @ out\<rparr>))"
proof -
  obtain out where "menu_round m s = map_option (\<lambda>t. Inl (puts ''---'' t))
      (f (s\<lparr>cin := cs, cout := cout s @ out @ [c, LF, LF] @ ''Running '' @ text @ [LF]\<rparr>))"
    using menu_round_key [OF assms(1-5), of f] by (auto simp: MENU_ITEM_def)
  moreover have "puts line (s\<lparr>cin := cs, cout := u\<rparr>) = s\<lparr>cin := cs, cout := u @ line @ [LF]\<rparr>" for u
    by (simp add: puts_def print_def)
  ultimately show ?thesis
    by (intro exI [of _ "out @ [c, LF, LF] @ ''Running '' @ text @ [LF] @ line @ [LF] @ ''---'' @ [LF]"])
      (simp add: f frame puts_def print_def)
qed

text \<open>
  In a simulation the keys t and Q set the two registers, nothing else but the console changes, and
  the program asks for the next key.
\<close>
theorem simulation_keys:
  assumes "PLATFORM_sim fw" and "cin s = ''tQ'' @ rest"
  shows "\<exists>out. menu_prompt (MAIN_MENU fw) s (s\<lparr>cin := rest, cout := cout s @ out, sim_trace := True, sim_finish := True\<rparr>)"
proof -
  obtain out where t: "menu_round (MAIN_MENU fw) s =
      Some (Inl ((s\<lparr>sim_trace := True\<rparr>)\<lparr>cin := CHR ''Q'' # rest, cout := cout s @ out\<rparr>))"
    using key_sets [OF wf_main_menu _ _ _ main_item_sim(1) [OF assms(1)], of s "CHR ''Q'' # rest" "\<lambda>w. w\<lparr>sim_trace := True\<rparr>"]
      assms(2) by (auto simp: trace_sim_def)
  let ?s = "(s\<lparr>sim_trace := True\<rparr>)\<lparr>cin := CHR ''Q'' # rest, cout := cout s @ out\<rparr>"
  obtain out' where "menu_round (MAIN_MENU fw) ?s = Some (Inl ((?s\<lparr>sim_finish := True\<rparr>)\<lparr>cin := rest, cout := cout ?s @ out'\<rparr>))"
    using key_sets [OF wf_main_menu _ _ _ main_item_sim(2) [OF assms(1)], of ?s rest "\<lambda>w. w\<lparr>sim_finish := True\<rparr>"]
    by (auto simp: exit_sim_def)
  then have "menu_prompt (MAIN_MENU fw) s ((?s\<lparr>sim_finish := True\<rparr>)\<lparr>cin := rest, cout := cout ?s @ out'\<rparr>)"
    by (rule prompt_again [OF prompt_again [OF prompt_start t]])
  moreover have "(?s\<lparr>sim_finish := True\<rparr>)\<lparr>cin := rest, cout := cout ?s @ out'\<rparr> =
      s\<lparr>cin := rest, cout := cout s @ (out @ out'), sim_trace := True, sim_finish := True\<rparr>" by simp
  ultimately show ?thesis by metis
qed

text \<open>An instruction that, as an addition, always answers and reads no input.\<close>

definition always_answers :: "'a console_scheme instruction \<Rightarrow> bool" where
  "always_answers op \<longleftrightarrow> (\<forall>a b w. \<exists>r t. op 0 0 a b w = Some (r, t) \<and> cin t = cin w)"

text \<open>The exercise of the project menu ends and reads nothing if the instruction does.\<close>

lemma exercise_returns:
  fixes op :: "'a console_scheme instruction"
  assumes "always_answers op"
  shows "\<exists>t. do_exercise_cfu_op0 op s = Some t \<and> cin t = cin s"
proof -
  have one: "\<exists>c' t. exercise_one op a b (c, w) = Some (c', t) \<and> cin t = cin w" for a b c and w :: "'a console_scheme"
  proof -
    obtain r t where "op 0 0 a b w = Some (r, t)" "cin t = cin w" using assms unfolding always_answers_def by blast
    moreover obtain n p q where "c = (n, p, q)" by (cases c) auto
    ultimately show ?thesis by (auto simp: exercise_one_def print_def)
  qed
  have "\<exists>c' t. each (\<lambda>(a, b). exercise_one op a b) ps (c, w) = Some (c', t) \<and> cin t = cin w" for ps c and w :: "'a console_scheme"
  proof (induction ps arbitrary: c w)
    case Nil
    show ?case by (cases c) simp
  next
    case (Cons x ps)
    obtain a b where x: "x = (a, b)" by (cases x)
    obtain c' t where "exercise_one op a b (c, w) = Some (c', t)" "cin t = cin w" using one by blast
    with Cons.IH [of c' t] show ?case by (auto simp: x)
  qed
  moreover have "cin (puts str w) = cin w" for str and w :: "'a console_scheme" by (simp add: puts_def print_def)
  ultimately obtain c' t where "each (\<lambda>(a, b). exercise_one op a b) exercise_grid
      ((0, 0, 0), puts ([CR, LF] @ ''Exercise CFU Op0 aka ADD'' @ [CR, LF]) s) = Some (c', t)" "cin t = cin s"
    by metis
  moreover obtain n p q where "c' = (n, p, q)" by (cases c') auto
  ultimately show ?thesis by (simp add: do_exercise_cfu_op0_def exercise_loops print_def)
qed

lemma proj_items_return:
  fixes op :: "'a console_scheme instruction"
  assumes "always_answers op"
  shows "items_return (PROJ_MENU op)"
  using exercise_returns [OF assms]
  by (auto simp: items_return_def PROJ_MENU_def MENU_ITEM_def MENU_END_def MENU_SENTINEL_def proj_hello_world_def puts_def print_def)

text \<open>
  C39. A session with the project menu: whatever keys follow the 3, the first x leads back to the prompt
  of the main program, with the rest of the input unread, if the instruction always answers.
\<close>
theorem project_session:
  fixes s :: "'a world_scheme"
  assumes "always_answers (op_current fw)"
    and "cin s = CHR ''3'' # pre @ CHR ''x'' # rest" and "CHR ''x'' \<notin> set pre"
  shows "\<exists>t. menu_prompt (MAIN_MENU fw) s t \<and> cin t = rest"
proof -
  let ?sub = "PROJ_MENU (op_current fw)"
  have only_x: "\<not> exits ?sub d" if "d \<noteq> CHR ''x''" for d
    using that by (auto simp: exits_def PROJ_MENU_def MENU_ITEM_def MENU_END_def MENU_SENTINEL_def split: if_splits)
  obtain out where round: "menu_round (MAIN_MENU fw) s = map_option (\<lambda>t. Inl (puts ''---'' t))
      (do_proj_menu (op_current fw) (s\<lparr>cin := pre @ CHR ''x'' # rest, cout := out\<rparr>))"
    using menu_round_key [OF wf_main_menu assms(2) _ _ main_item_project] by (auto simp: MENU_ITEM_def)
  have "wf_menu ?sub" "exits ?sub (CHR ''x'')"
    using standard_menu [OF standard_proj(1)] by (auto simp: unambiguous_def)
  moreover have "\<forall>d\<in>set pre. \<not> exits ?sub d" using only_x assms(3) by metis
  ultimately have "\<exists>t. menu_run ?sub (s\<lparr>cin := pre @ CHR ''x'' # rest, cout := out\<rparr>) = Some t \<and> cin t = rest"
    by (intro menu_run_returns proj_items_return assms(1)) simp_all
  then obtain t where "do_proj_menu (op_current fw) (s\<lparr>cin := pre @ CHR ''x'' # rest, cout := out\<rparr>) = Some t" "cin t = rest"
    unfolding do_proj_menu_def by blast
  with round have "menu_prompt (MAIN_MENU fw) s (puts ''---'' t)" "cin (puts ''---'' t) = rest"
    by (auto simp: puts_def print_def intro: menu_prompt.intros)
  then show ?thesis by blast
qed

section \<open>An example\<close>

text \<open>A simulation without models, on the emulated instruction.\<close>

definition example_world :: world where
  "example_world = model_state.extend example_model
     (world.fields cfu_init (some_cpu 0 0 0) False False)"

definition example_firmware :: "world firmware" where
  "example_firmware = \<lparr>SKIP_TFLM = True, PLATFORM_sim = True, DIV_UNIMPLEMENTED = False, the_build = only_examples,
     the_site = example_site, conv_test = (\<lambda>s. Some (0, s)), depthwise_conv_test = (\<lambda>s. Some (0, s)),
     op_current = cfu_op_sw accel_software_cfu, op_hardware = unit_op_hw, op_software = cfu_op_sw accel_software_cfu,
     soc_flash = None, flash_phy = False, DIVISOR = 0, flash_pointer = (\<lambda>p. hex (uint p)), flash_crc32 = (\<lambda>_. 0),
     flash_bus = (\<lambda>_ _. 0), BUF_SIZE = 1024, bench_buf = [], div_exec = riscv_exec, uart_init = (\<lambda>c. c)\<rparr>"

lemma simulation_keys_witness:
  "\<exists>out. menu_prompt (MAIN_MENU example_firmware) (example_world\<lparr>cin := ''tQ2''\<rparr>)
    ((example_world\<lparr>cin := ''tQ2''\<rparr>)\<lparr>cin := ''2'', cout := cout example_world @ out, sim_trace := True, sim_finish := True\<rparr>)"
  using simulation_keys [of example_firmware "example_world\<lparr>cin := ''tQ2''\<rparr>" "''2''"] by (simp add: example_firmware_def)

lemma project_session_witness:
  "\<exists>t. menu_prompt (MAIN_MENU example_firmware) (example_world\<lparr>cin := ''30hx2''\<rparr>) t \<and> cin t = ''2''"
proof (rule project_session)
  show "always_answers (op_current example_firmware)"
    by (simp add: always_answers_def example_firmware_def cfu_op_sw_def)
  show "cin (example_world\<lparr>cin := ''30hx2''\<rparr>) = CHR ''3'' # ''0h'' @ CHR ''x'' # ''2''" by simp
qed simp

end
