(* ===== verification/Hps_Session.thy ===== *)
theory Hps_Session
  imports Model_Facts Menu_Steps
begin

text \<open>
  The invariant of the HPS menu: at every prompt the interpreter holds the model whose column of
  expected results \<open>loaded_model\<close> selects, so that the golden tests compare a model with its own
  results. Loading a model establishes it (\<open>hps_init_consistent\<close>); everything else keeps the two.
\<close>

section \<open>What a classification keeps\<close>

definition kept :: "'a model_state_scheme \<Rightarrow> i8 list option \<times> int" where
  "kept s = (map_option model (interpreter s), loaded_model s)"

lemma kept_more: "perf.more t = perf.more s \<Longrightarrow> kept t = kept s"
  by (cases s; cases t) (simp add: kept_def)

lemma kept_simps [simp]:
  "kept (print str s) = kept s" "kept (puts str s) = kept s" "kept (s\<lparr>cin := i\<rparr>) = kept s"
  "kept (s\<lparr>tensor_arena := a\<rparr>) = kept s" "kept (s\<lparr>profiler := p\<rparr>) = kept s" "kept (report_input pt done t s) = kept s"
  by (simp_all add: kept_def print_def puts_def report_input_def)

lemma kept_interpreter: "kept (s\<lparr>interpreter := Some ip\<rparr>) = (Some (model ip), snd (kept s))"
  by (simp add: kept_def)

text \<open>The planner and the operators leave the interpreter object and the program's own variables alone.\<close>

definition library_keeps :: "'a model_state_scheme tflm \<Rightarrow> bool" where
  "library_keeps lib \<longleftrightarrow>
     (\<forall>m n s a t. allocate lib m n s = Some (a, t) \<longrightarrow> kept t = kept s) \<and>
     (\<forall>m node s r t. node \<in> set (operators lib m) \<and> op_invoke node s = Some (r, t) \<longrightarrow> kept t = kept s)"

lemmas kept_frames = frames [THEN kept_more]

lemma kept_InvokeSubgraph:
  assumes "InvokeSubgraph pt nodes i s = Some (r, t)"
    and "\<And>node s r t. node \<in> set nodes \<Longrightarrow> op_invoke node s = Some (r, t) \<Longrightarrow> kept t = kept s"
  shows "kept t = kept s"
  using assms
proof (induction nodes arbitrary: i s)
  case (Cons node nodes)
  from Cons.prems(1) show ?case
  proof (rule InvokeSubgraph_node)
    fix h p s1 st s2 s3 q s4
    assume b: "ProgressProfiler_BeginEvent (HIDE_DOTS pt) (cpu_clock pt) (op_name node) (profiler s, s) = Some (h, p, s1)"
      and o: "op_invoke node (s1\<lparr>profiler := p\<rparr>) = Some (st, s2)"
      and m: "(if st = kTfLiteError
       then MicroPrintf [Lit ''Node '', Str (op_name node), Lit '' (number '', Int32 (word_of_int i),
              Lit '') failed to invoke with status '', Int32 1] s2 else Some s2) = Some s3"
      and e: "EndEvent (NDEBUG pt) (cpu_clock pt) h (profiler s3, s3) = Some (q, s4)"
      and rest: "(if st \<noteq> kTfLiteOk then Some (st, s4\<lparr>profiler := q\<rparr>)
        else InvokeSubgraph pt nodes (i + 1) (s4\<lparr>profiler := q\<rparr>)) = Some (r, t)"
    have "kept s4 = kept s3" using kept_more [OF events_more(2) [OF e]] .
    also have "\<dots> = kept s2" using m by (auto split: if_splits dest!: MicroPrintf_more intro: kept_more)
    also have "\<dots> = kept s1" using Cons.prems(2) [OF _ o] by simp
    also have "\<dots> = kept s" using kept_more [OF events_more(1) [OF b]] .
    finally have s4: "kept (s4\<lparr>profiler := q\<rparr>) = kept s" by simp
    show ?thesis
    proof (cases "st = kTfLiteOk")
      case True
      then have "InvokeSubgraph pt nodes (i + 1) (s4\<lparr>profiler := q\<rparr>) = Some (r, t)" using rest by simp
      then show ?thesis using Cons.IH Cons.prems(2) s4 by (metis list.set_intros(2))
    qed (use rest s4 in simp)
  qed
qed simp

lemma kept_Invoke:
  assumes "library_keeps lib" and "Invoke pt lib s = Some (r, t)"
  shows "kept t = kept s"
proof -
  obtain ip where ip: "interpreter s = Some ip" using assms(2) by (auto simp: Invoke_def split: bind_splits)
  show ?thesis
  proof (cases "initialized_ok ip")
    case False
    then obtain u where "MicroPrintf [Lit (''Invoke() called after initialization failed'' @ [LF])] s = Some u" "t = u"
      using assms(2) ip by (auto simp: Invoke_def split: bind_splits)
    then show ?thesis using MicroPrintf_more [THEN kept_more] by blast
  next
    case True
    then obtain st ip' s1 where s1: "(if tensors_allocated ip then Some (kTfLiteOk, ip, s) else AllocateTensors lib ip s) = Some (st, ip', s1)"
      and rest: "(if st \<noteq> kTfLiteOk then Some (st, s1\<lparr>interpreter := Some ip'\<rparr>)
        else InvokeSubgraph pt (operators lib (model ip')) 0 (s1\<lparr>interpreter := Some ip'\<rparr>)) = Some (r, t)"
      using assms(2) ip by (auto simp: Invoke_def Let_def split: bind_splits if_splits)
    have "model ip' = model ip \<and> kept s1 = kept s"
      using s1 assms(1) by (auto simp: AllocateTensors_def Let_def library_keeps_def split: if_splits bind_splits)
    then have ready: "kept (s1\<lparr>interpreter := Some ip'\<rparr>) = kept s" using ip by (simp add: kept_interpreter) (simp add: kept_def)
    show ?thesis
    proof (cases "st = kTfLiteOk")
      case True
      then have "InvokeSubgraph pt (operators lib (model ip')) 0 (s1\<lparr>interpreter := Some ip'\<rparr>) = Some (r, t)" using rest by simp
      then have "kept t = kept (s1\<lparr>interpreter := Some ip'\<rparr>)"
        by (rule kept_InvokeSubgraph) (use assms(1) in \<open>auto simp: library_keeps_def\<close>)
      then show ?thesis using ready by simp
    qed (use rest ready in simp)
  qed
qed

lemma kept_classify:
  assumes "library_keeps lib" and "tflite_classify pt lib s = Some t"
  shows "kept t = kept s"
proof -
  let ?s = "s\<lparr>profiler := ClearEvents (profiler s)\<rparr>"
  obtain s1 start s2 st s3 stop s4 where s1: "perf_reset_all_counters (PERF_CSRS pt) (cpu_clock pt) ?s = Some s1"
    and s2: "perf_get_mcycle64 (cpu_clock pt) s1 = Some (start, s2)" and s3: "Invoke pt lib s2 = Some (st, s3)"
    and s4: "perf_get_mcycle64 (cpu_clock pt) (if st \<noteq> kTfLiteOk then puts ''Invoke failed.'' s3 else s3) = Some (stop, s4)"
    and t: "report_cycles pt (stop - start) s4 = Some t"
    using assms(2) unfolding tflite_classify_def Let_def by (auto elim!: bindE)
  have "kept s2 = kept s" using kept_more [OF reset_more [OF s1]] kept_more [OF mcycle64_more [OF s2]] by simp
  moreover have "kept s3 = kept s2" by (rule kept_Invoke [OF assms(1) s3])
  moreover have "kept t = kept s3"
    using kept_more [OF report_cycles_more [OF t]] kept_more [OF mcycle64_more [OF s4]] by (simp split: if_splits)
  ultimately show ?thesis by simp
qed

section \<open>The items of the menu\<close>

lemma kept_inputs:
  "tflite_set_input_unsigned pt data s = Some t \<Longrightarrow> kept t = kept s"
  "tflite_set_input_zeros pt s = Some t \<Longrightarrow> kept t = kept s"
  unfolding tflite_set_input_unsigned_def tflite_set_input_zeros_def by (elim bindE, force)+

lemma kept_hps_classify:
  assumes "library_keeps (the_lib w)" and "hps_classify w s = Some (v, t)"
  shows "kept t = kept s"
  using assms(2) kept_classify [OF assms(1)] unfolding hps_classify_def by (auto elim!: bindE)

definition hps_keeps :: "('a model_state_scheme site \<Rightarrow> 'a model_state_scheme \<Rightarrow> (int \<times> 'a model_state_scheme) option) \<Rightarrow> bool" where
  "hps_keeps f \<longleftrightarrow> (\<forall>w s v t. library_keeps (the_lib w) \<and> f w s = Some (v, t) \<longrightarrow> kept t = kept s)"

lemma hps_keeps_image: "hps_keeps (classify_image name)"
  unfolding hps_keeps_def classify_image_def
  by (auto elim!: bindE dest!: kept_inputs(1) kept_hps_classify [rotated])

lemma hps_keeps_all:
  "hps_keeps classify_cat" "hps_keeps classify_diagram" "hps_keeps classify_zeros" "hps_keeps classify_hps_0"
  "hps_keeps classify_hps_1" "hps_keeps classify_hps_2"
proof -
  show "hps_keeps classify_zeros"
    unfolding hps_keeps_def classify_zeros_def
    by (auto elim!: bindE dest!: kept_inputs(2) kept_hps_classify [rotated])
qed (simp_all add: hps_keeps_image classify_cat_def classify_diagram_def classify_hps_0_def classify_hps_1_def classify_hps_2_def)

lemma kept_item:
  assumes "hps_keeps f" and "library_keeps (the_lib w)" and "hps_item f w s = Some t"
  shows "kept t = kept s"
  using assms unfolding hps_item_def hps_keeps_def by (auto elim!: bindE)

lemma kept_golden_one:
  assumes "library_keeps (the_lib w)" and "hps_keeps (test_fn test)" and "hps_golden_one w i test s = Some (b, t)"
  shows "kept t = kept s"
  using assms unfolding hps_golden_one_def Let_def hps_keeps_def by (fastforce elim!: bindE split: if_splits)

lemma kept_golden_loop:
  assumes "library_keeps (the_lib w)" and "\<forall>test\<in>set tests. hps_keeps (test_fn test)"
    and "golden_loop (hps_golden_one w) i tests failed s = Some (b, t)"
  shows "kept t = kept s"
  using assms(2,3)
proof (induction tests arbitrary: i failed s)
  case (Cons test tests)
  then obtain bad u where u: "hps_golden_one w i test s = Some (bad, u)"
    "golden_loop (hps_golden_one w) (i + 1) tests (failed \<or> bad) u = Some (b, t)" by (auto elim!: bindE)
  then show ?case using Cons kept_golden_one [OF assms(1)] by (metis list.set_intros)
qed simp

lemma kept_golden_tests:
  assumes "library_keeps (the_lib w)" and "hps_golden_tests w s = Some t"
  shows "kept t = kept s"
proof -
  obtain failed u where u: "golden_loop (hps_golden_one w) 0 hps_golden_test_list False s = Some (failed, u)" "t = golden_verdict failed u"
    using assms(2) unfolding hps_golden_tests_def by (auto elim!: bindE)
  have "kept u = kept s"
    using u(1) by (rule kept_golden_loop [OF assms(1), rotated]) (simp add: hps_golden_test_list_def hps_keeps_all)
  then show ?thesis by (simp add: u(2) golden_verdict_def)
qed

section \<open>The invariant\<close>

text \<open>The models, in the order of the columns of expected results.\<close>

definition hps_models :: "string list" where
  "hps_models =
     [''hps_model_2021_09_20_tiled'', ''hps_model_2022_01_05_74ops'', ''hps_model_2022_01_05_89ops'',
      ''presence_0_320_240_1_20220117_140437_201k_26k_96ops'', ''second_0_320_240_1_20220117_135512_201k_26k_96ops'',
      ''presence_0_320_240_1_20220415_172145_201k_26k_96ops'', ''second_0_320_240_1_20220416_163802_201k_26k_96ops'']"

definition hps_consistent :: "'a model_state_scheme site \<Rightarrow> 'a model_state_scheme \<Rightarrow> bool" where
  "hps_consistent w s \<longleftrightarrow> (\<exists>k<7. kept s = (Some (blob w (hps_models ! k)), int k))"

lemma hps_consistent_cong: "kept t = kept s \<Longrightarrow> hps_consistent w t = hps_consistent w s"
  by (simp add: hps_consistent_def)

lemma hps_init_establishes:
  assumes "hps_init str (hps_models ! k) (int k) w s = Some t" and "k < 7"
  shows "hps_consistent w t"
  using hps_init_consistent [OF assms(1)] assms(2) by (auto simp: hps_consistent_def kept_def)

lemma hps_init_items:
  "do_init_09_20 = hps_init ''Loading HPS 09_20 model'' (hps_models ! 0) (int 0)"
  "do_init_01_05_74ops = hps_init ''Loading HPS 01_05_74ops model'' (hps_models ! 1) (int 1)"
  "do_init_01_05_89ops = hps_init ''Loading HPS 01_05_89ops model'' (hps_models ! 2) (int 2)"
  "do_init_presence_2022017_96ops = hps_init ''Loading Presence 20220117 96ops model'' (hps_models ! 3) (int 3)"
  "do_init_second_2022017_96ops = hps_init ''Loading Second 20220117 96ops model'' (hps_models ! 4) (int 4)"
  "do_init_presence_20220415_96ops = hps_init ''Loading Presence 20220415 96ops model'' (hps_models ! 5) (int 5)"
  "do_init_second_20220416_96ops = hps_init ''Loading Second 20220416 96ops model'' (hps_models ! 6) (int 6)"
  by (simp_all add: hps_models_def do_init_09_20_def do_init_01_05_74ops_def do_init_01_05_89ops_def
    do_init_presence_2022017_96ops_def do_init_second_2022017_96ops_def do_init_presence_20220415_96ops_def
    do_init_second_20220416_96ops_def)

definition hps_load :: "'a model_state_scheme site \<Rightarrow> ('a model_state_scheme \<Rightarrow> 'a model_state_scheme option) \<Rightarrow> bool" where
  "hps_load w f \<longleftrightarrow> (\<exists>str k. f = hps_init str (hps_models ! k) (int k) w \<and> k < 7)"

lemma hps_loads:
  "hps_load w (do_init_09_20 w)" "hps_load w (do_init_01_05_74ops w)" "hps_load w (do_init_01_05_89ops w)"
  "hps_load w (do_init_presence_2022017_96ops w)" "hps_load w (do_init_second_2022017_96ops w)"
  "hps_load w (do_init_presence_20220415_96ops w)" "hps_load w (do_init_second_20220416_96ops w)"
  unfolding hps_load_def hps_init_items by (intro exI, rule conjI, rule refl, simp)+

lemma hps_menu_functions:
  assumes "p \<in> set (items (HPS_MENU w))" "fn p = Some f"
  shows "(\<exists>g. hps_keeps g \<and> f = hps_item g w) \<or> f = hps_golden_tests w \<or> hps_load w f"
proof -
  have "f \<in> {hps_item classify_cat w, hps_item classify_diagram w, hps_item classify_zeros w, hps_item classify_hps_0 w,
      hps_item classify_hps_1 w, hps_item classify_hps_2 w, hps_golden_tests w, do_init_09_20 w, do_init_01_05_74ops w,
      do_init_01_05_89ops w, do_init_presence_2022017_96ops w, do_init_second_2022017_96ops w,
      do_init_presence_20220415_96ops w, do_init_second_20220416_96ops w}"
    using assms by (auto simp: HPS_MENU_def MENU_ITEM_def MENU_END_def MENU_SENTINEL_def do_classify_cat_def do_classify_diagram_def
      do_classify_zeros_def do_classify_hps_0_def do_classify_hps_1_def do_classify_hps_2_def)
  then show ?thesis using hps_keeps_all by (elim insertE emptyE) (blast intro: hps_loads)+
qed

lemma hps_menu_keeps:
  assumes lib: "library_keeps (the_lib w)"
    and p: "p \<in> set (items (HPS_MENU w))" "fn p = Some f" and s: "hps_consistent w s" "f s = Some t"
  shows "hps_consistent w t"
  using hps_menu_functions [OF p]
proof (elim disjE exE conjE)
  fix g
  assume "hps_keeps g" "f = hps_item g w"
  then show ?thesis using s kept_item [OF _ lib] hps_consistent_cong by metis
next
  assume "f = hps_golden_tests w"
  then show ?thesis using s kept_golden_tests [OF lib] hps_consistent_cong by metis
next
  assume "hps_load w f"
  then show ?thesis using s(2) hps_init_establishes unfolding hps_load_def by metis
qed

text \<open>
  C28. At every prompt of the HPS menu, after any sequence of keys, \<open>loaded_model\<close> is the column of the
  golden results that belongs to the model in the interpreter: no item loads one without the other.
\<close>
theorem hps_session_consistent:
  assumes "library_keeps (the_lib w)"
    and "do_init_01_05_74ops w s0 = Some s" and "menu_prompt (HPS_MENU w) s t"
  shows "\<exists>k<7. loaded_model t = int k \<and> (\<exists>ip. interpreter t = Some ip \<and> model ip = blob w (hps_models ! k))"
proof -
  have "hps_consistent w t"
  proof (rule menu_prompt_invariant [OF assms(3)])
    show "hps_consistent w s" using assms(2) hps_init_establishes [of _ 1] by (simp add: hps_init_items)
    show "hps_consistent w (s\<lparr>cin := i, cout := u\<rparr>) \<longleftrightarrow> hps_consistent w s" for s i u
      by (rule hps_consistent_cong) (simp add: kept_def)
  qed (rule hps_menu_keeps [OF assms(1)])
  then show ?thesis by (auto simp: hps_consistent_def kept_def)
qed

section \<open>Witness\<close>

text \<open>Loading the second model and then pressing 5; the contents of a model are here its name.\<close>

definition hps_site :: "'a model_state_scheme site" where
  "hps_site = example_site\<lparr>blob := map of_char\<rparr>"

lemma error_reporter_ok: "MicroPrintf [Lit ''Error_reporter OK!''] s = Some (print (''Error_reporter OK!'' @ [CR, LF]) s)"
  by (subst MicroPrintf_fits) (auto simp: kMaxIntCharsNeeded_def)

lemma hps_site_loads: "\<exists>t. hps_init str name k hps_site s = Some t \<and> cin t = cin s"
  by (cases "tfl_initialized s"; cases "interpreter s")
    (simp_all add: hps_init_def load_blob_def tflite_load_model_def tflite_init_def Let_def error_reporter_ok
    puts_def print_def drop_interpreter_def hps_site_def example_site_def idle_lib_def AllocateTensors_def
    tflite_preload_def tflite_postload_def input0_def rd_def report_dims_def cfor_step cfor_done print_dim_def new_interpreter_def)

lemma hps_site_keeps: "library_keeps (the_lib hps_site)"
  by (auto simp: library_keeps_def hps_site_def example_site_def idle_lib_def)

lemma hps_session_consistent_witness:
  "\<exists>s t. do_init_01_05_74ops hps_site (example_model\<lparr>cin := ''5''\<rparr>) = Some s \<and> menu_prompt (HPS_MENU hps_site) s t \<and>
     loaded_model t = 5 \<and>
     (\<exists>ip. interpreter t = Some ip \<and> model ip = map of_char ''presence_0_320_240_1_20220415_172145_201k_26k_96ops'')"
proof -
  let ?w = "hps_site :: model_state site"
  obtain s where s: "do_init_01_05_74ops ?w (example_model\<lparr>cin := ''5''\<rparr>) = Some s" "cin s = ''5''"
    using hps_site_loads [of _ _ _ "example_model\<lparr>cin := ''5''\<rparr>"] unfolding do_init_01_05_74ops_def by fastforce
  obtain out u where "menu_round (HPS_MENU ?w) s = map_option (\<lambda>t. Inl (puts ''---'' t)) (do_init_presence_20220415_96ops ?w u)"
    using menu_round_key [of "HPS_MENU ?w" s "CHR ''5''" "[]" "MENU_ITEM (CHR ''5'') ''Reinitialize with presence_20220415_96ops model'' (do_init_presence_20220415_96ops ?w)"
      "do_init_presence_20220415_96ops ?w"] s(2)
    by (auto simp: wf_menu_def HPS_MENU_def MENU_ITEM_def MENU_END_def MENU_SENTINEL_def)
  moreover obtain v where v: "do_init_presence_20220415_96ops ?w u = Some v"
    using hps_site_loads unfolding do_init_presence_20220415_96ops_def by blast
  ultimately have t: "menu_prompt (HPS_MENU ?w) s (puts ''---'' v)" by (auto intro: menu_prompt.intros)
  have five: "loaded_model (puts ''---'' v) = 5"
    using v by (auto simp: do_init_presence_20220415_96ops_def hps_init_def puts_def print_def split: bind_splits)
  obtain k where k: "k < 7" "loaded_model (puts ''---'' v) = int k"
    "\<exists>ip. interpreter (puts ''---'' v) = Some ip \<and> model ip = blob ?w (hps_models ! k)"
    using hps_session_consistent [OF hps_site_keeps s(1) t] by blast
  then have "k = 5" using five by simp
  with k s(1) t five show ?thesis by (auto simp: hps_models_def hps_site_def)
qed

end
