(* ===== verification/Spec2Isabelle.thy ===== *)
theory Spec2Isabelle
  imports Conv_Accel Renode_Conv Framebuffer_Text Print_Params Playground Hps_Session
begin

text \<open>
  A verification development for Conv2D_CFU, the CFU Playground with custom function units that
  accelerate the 8-bit convolution of TensorFlow Lite Micro.

  The program. A RISC-V soft core runs a C++ program (\<open>common/src\<close>); a project under \<open>proj/\<close>
  replaces the convolution kernel of the library and adds a custom function unit, gateware that the
  CPU reaches with the custom instruction \<open>cfu_op\<close>. The baseline project holds the reference
  kernels; \<open>proj/accel\<close> has the unit \<open>cfu.v\<close> and a kernel that drives it; \<open>proj/example_renode\<close>
  has four stages of a kernel and the SIMD unit of \<open>amaranth_cfu\<close>. The rest of \<open>common/src\<close> is
  the program around the kernels: \<open>main.c\<close> with its menus, the interface to TensorFlow Lite and the
  test programs of the models, console, performance counters, framebuffer, trap handler, SPI flash,
  benchmarks and utilities.

  Conventions. A function that can fail (failed check, access out of bounds, undefined operation,
  input that never comes) is a function into \<open>option\<close>; \<open>ok m Q\<close> is total correctness. A C
  integer is a word of its width, an array a list with checked access, a \<open>for\<close> loop \<open>cfor\<close>, a
  loop that may not end a \<open>partial_function\<close>. Preconditions of the language are checked by the
  model; the theorems show that they hold.

  Theories, in the order of their imports.

  \<^item> \<open>Prelude\<close>: the statements (\<open>rd\<close>, \<open>wr\<close>, \<open>cfor\<close>, \<open>dcheck\<close>), their proof rules (the collection
    \<open>ok_simps\<close>, \<open>ok_cfor\<close>) and \<open>wrote\<close>, the relation between an array before and after.
  \<^item> \<open>Fixedpoint\<close> (\<open>gemmlowp/fixedpoint.h\<close>, \<open>kernels/internal/common.h\<close>): the high multiplication,
    the rounding division and \<open>MultiplyByQuantizedMultiplier\<close>; error bounds and saturation.
  \<^item> \<open>Runtime_Shape\<close> (\<open>runtime_shape.h\<close>, \<open>types.h\<close>): tensor shapes; \<open>Offset\<close> is a bijection.
  \<^item> \<open>Conv_Spec\<close>, \<open>Conv_Ref\<close>, \<open>Conv_Unrolled\<close>: what the kernels share, the sum they are meant to
    compute, and the kernels of \<open>proj/baseline\<close>.
  \<^item> \<open>Bytes\<close>, \<open>Mac\<close>, \<open>Cfu\<close>, \<open>Tile_Engine\<close>, \<open>Conv_Accel\<close> (\<open>proj/accel\<close>): the function unit register
    by register and clock edge by clock edge, the interface that the kernel relies on as the locale
    \<open>tile_engine\<close>, interpreted on the unit, and the kernel.
  \<^item> \<open>Simd_Mac\<close>, \<open>Renode_Conv\<close> (\<open>proj/example_renode\<close>, \<open>python/amaranth_cfu\<close>): the state machine of the
    unit with any delay of the response, the locale \<open>simd_mac\<close> and the kernels that use it.
  \<^item> \<open>Console\<close> (\<open>stdio.c\<close>, \<open>read_val\<close> of \<open>base.c\<close>), \<open>Menu\<close> (\<open>menu.h\<close>, \<open>menu.cc\<close>): characters read
    and printed, the conversions of \<open>printf\<close>, \<open>strtol\<close>, and the menu loop over any state that
    extends the console. \<open>Menu_Steps\<close>: the loop as a step relation, with invariants at the prompts.
  \<^item> \<open>Perf\<close> (\<open>perf.h\<close>, \<open>perf.cc\<close>): counters in a file of registers that the CPU changes between two
    accesses; what it does is an argument.
  \<^item> \<open>Framebuffer\<close>, \<open>Framebuffer_Draw\<close>, \<open>Framebuffer_Line\<close>, \<open>Framebuffer_Text\<close> (\<open>fb_util.h\<close>,
    \<open>fb_util.c\<close>): the drawing routines, and the exact set of pixels each of them changes.
  \<^item> \<open>Trap\<close> (\<open>base.c\<close>, \<open>instruction_handler.cc\<close>): the trap handler, which emulates the divisions; it
    is proved against the definition of the RISC-V instructions.
  \<^item> \<open>Util\<close>, \<open>Soft_Float\<close>, \<open>Print_Params\<close> (\<open>playground_util\<close>): hash, pseudo-random numbers, dumps, the
    floating-point demonstration over numbers rounded to 24 bits, and the printers of the layer
    parameters, whose lines can be read back.
  \<^item> \<open>Micro_Profiler\<close>, \<open>Tflite\<close>, \<open>Tflite_Facts\<close> (\<open>tflite.cc\<close>, \<open>proj_tflite.cc\<close>, \<open>debug_log.cc\<close>,
    \<open>micro_time.cc\<close> and what they use of the vendored library): the log and the profiler, and every
    function of \<open>tflite.cc\<close> over one arena and one interpreter. The planner, the operators of a model
    and the destructor of the interpreter are the record \<open>tflm\<close>. The facts: calls keep the state
    well-formed, what the inputs store, what a failed load leads to, what a profile reports.
  \<^item> \<open>Mnist_Images\<close>, \<open>Model_Tests\<close>, \<open>Models\<close>, \<open>Tiny_Models\<close>, \<open>Model_Facts\<close> (\<open>models/*\<close>): the ten test
    programs and their menu; the model and image files that the build converts to arrays are the
    function \<open>blob\<close>. \<open>Hps_Session\<close>: the invariant of the HPS menu.
  \<^item> \<open>Flash\<close> (\<open>spiflash.c\<close>), \<open>Benchmarks\<close> (\<open>benchmarks.c\<close>): the menu of the SPI flash and the memory
    benchmarks, whose \<open>int\<close> arithmetic may overflow.
  \<^item> \<open>Cfu_Tests\<close> (\<open>cfu.h\<close>, \<open>software_cfu.cc\<close>, \<open>functional_cfu_tests.cc\<close>, \<open>proj_menu.cc\<close>): the tests
    of the function unit against its emulation; the locale \<open>answering\<close> is the contract of an
    instruction, interpreted on the emulation and on the gateware of \<open>Cfu\<close>.
  \<^item> \<open>Playground\<close> (\<open>main.c\<close>, \<open>tflite_unit_tests.cc\<close>): the main menu over the state of all components, the
    \<open>world\<close>, for every configuration (\<open>firmware\<close>); that no menu is ambiguous, and sessions.
  \<^item> This theory: the properties that relate the kernels to each other and to the specification.

  What the theorems show. The reference kernel computes the requantized convolution sum; the
  unrolled, the accelerated and the SIMD kernel compute what the reference kernel computes on the
  layers they are made for, through the gateware and whatever the timing of the handshake, and
  differ from it on one input channel, where the theorems say how. The program around them is
  characterized routine by routine, including the inputs where it reads or writes out of bounds,
  loses a digit or repeats a trap, and as a whole: from the prompt of the main menu the user reaches
  the menus of the components and comes back, and the program never ends.

  Bounds. The kernels are proved for every well-formed argument (\<open>conv_ok\<close> and its extensions), the
  lines and strings for screens below 16384 columns and rows, where their \<open>int32_t\<close> offsets do not
  overflow. No definition takes fuel; the loops that may not end are \<open>menu_run\<close> and
  \<open>perf_get_mcycle64\<close>, and theorems say when they do.

  Not modelled. \<open>proj/accel/temp_files/conv_initial.h\<close> is a draft that uses an undeclared variable
  and is in no build. The macros of \<open>micro_test.h\<close> only occur in vendored tests; the two tests the
  program runs are fields of \<open>firmware\<close>. The font and the files of the models are data and are
  arguments. \<open>sim_main.cpp\<close> connects a simulation to classes outside the repository. The vendored
  library is modelled as far as the own code calls it and is an argument beyond; the Python that
  generates gateware and SoC is modelled where the Renode example uses it.
\<close>

section \<open>Inputs of the witnesses\<close>

definition shape_of :: "int list \<Rightarrow> RuntimeShape" where
  "shape_of ds = \<lparr>shape_size = int (length ds), shape_dims = take 5 (map word_of_int ds @ [0, 0, 0, 0, 0])\<rparr>"

definition conv_params :: "int \<Rightarrow> int \<Rightarrow> int \<Rightarrow> ConvParams" where
  "conv_params margin zp offset = \<lparr>padding_type = kSame,
     padding_values = \<lparr>pad_width = word_of_int margin, pad_height = word_of_int margin, width_offset = 0, height_offset = 0\<rparr>,
     stride_width = 1, stride_height = 1, dilation_width_factor = 1, dilation_height_factor = 1,
     input_offset = word_of_int zp, weights_offset = 0, output_offset = word_of_int offset,
     conv_output_multiplier = 0, conv_output_shift = 0,
     quantized_activation_min = - 128, quantized_activation_max = 127\<rparr>"

definition small_args :: "(i8, i32) conv_args" where
  "small_args = \<lparr>params = conv_params 0 128 (- 128), output_multiplier = [0x40000000], output_shift = [- 2],
     input_shape = shape_of [1, 2, 2, 1], input_data = [- 128, 0, 5, 127],
     filter_shape = shape_of [1, 1, 2, 1], filter_data = [3, - 1],
     bias_shape = shape_of [1], bias_data = Some [100], output_shape = shape_of [1, 2, 1, 1]\<rparr>"

definition block_args :: "int \<Rightarrow> int \<Rightarrow> int list \<Rightarrow> (i8, i32) conv_args" where
  "block_args depth n shifts = \<lparr>params = conv_params 1 128 (- 128), output_multiplier = replicate 8 0x40000000,
     output_shift = map word_of_int shifts,
     input_shape = shape_of [1, n, n, depth], input_data = replicate (nat (n * n * depth)) (- 128),
     filter_shape = shape_of [8, 3, 3, depth], filter_data = replicate (nat (72 * depth)) 3,
     bias_shape = shape_of [8], bias_data = Some (replicate 8 100), output_shape = shape_of [1, 4, 4, 8]\<rparr>"

definition uneven_args :: "(i8, i32) conv_args" where
  "uneven_args = block_args 1 28 [0, - 1, 0, 0, 0, 0, 0, 0]"

definition window_args :: "int \<Rightarrow> (i8, i32) conv_args" where
  "window_args depth = \<lparr>params = conv_params 0 128 (- 128), output_multiplier = [0x40000000, 0x60000000],
     output_shift = [- 2, - 4],
     input_shape = shape_of [1, 3, 3, depth], input_data = replicate (nat (9 * depth)) 5,
     filter_shape = shape_of [2, 3, 3, depth], filter_data = replicate (nat (18 * depth)) (- 1),
     bias_shape = shape_of [2], bias_data = None, output_shape = shape_of [1, 1, 1, 2]\<rparr>"

definition signed_args :: "(i8, i32) conv_args" where
  "signed_args = \<lparr>params = conv_params 0 128 (- 128), output_multiplier = [0x40000000],
     output_shift = [- 5],
     input_shape = shape_of [1, 3, 3, 1], input_data = replicate 9 (- 128),
     filter_shape = shape_of [1, 3, 3, 1], filter_data = replicate 9 (- 1),
     bias_shape = shape_of [1], bias_data = Some [4000], output_shape = shape_of [1, 1, 1, 1]\<rparr>"

definition final_args :: "(i8, i32) conv_args" where
  "final_args = \<lparr>params = conv_params 0 128 (- 128), output_multiplier = replicate 12 0x40000000,
     output_shift = replicate 12 (- 5),
     input_shape = shape_of [1, 28, 28, 1], input_data = replicate 784 (- 128),
     filter_shape = shape_of [12, 3, 3, 1], filter_data = replicate 108 (- 1),
     bias_shape = shape_of [12], bias_data = None, output_shape = shape_of [1, 26, 26, 12]\<rparr>"

definition args16 :: "(i16, 'w::len word) conv_args" where
  "args16 = \<lparr>params = (conv_params 0 0 0)\<lparr>quantized_activation_min := - 32768, quantized_activation_max := 32767\<rparr>,
     output_multiplier = [0x40000000], output_shift = [- 2],
     input_shape = shape_of [1, 2, 2, 1], input_data = [- 300, 0, 500, 12000],
     filter_shape = shape_of [1, 1, 2, 1], filter_data = [3, - 1],
     bias_shape = shape_of [1], bias_data = Some [100], output_shape = shape_of [1, 2, 1, 1]\<rparr>"

lemma small_args_ok: "conv_ok small_args" "int (length [0 :: i8, 0]) = elems (output_shape small_args)"
  by code_simp+

lemma block4_ok: "accel_ok (block_args 4 4 [0, - 1, 0, 0, 0, 0, 0, 0])" 
  by code_simp

lemma block1_ok: "accel_ok (block_args 1 28 [0, - 1, 0, 0, 0, 0, 0, 0])" 
  by code_simp

lemma window_args_ok: "renode_ok (window_args 12)" "renode_ok (window_args 1)" 
  "int (length [0 :: i8, 0]) = elems (output_shape (window_args 12))" "int (length [0 :: i8, 0]) = elems (output_shape (window_args 1))"
  "dim (input_shape (window_args 12)) 3 = 12" "dim (input_shape (window_args 1)) 3 = 1"
  "input_offset (params (window_args 12)) = 128"  "input_offset (params (window_args 1)) = 128"
  "output_offset (params (window_args 12)) = - 128"  "output_offset (params (window_args 1)) = - 128"
  by code_simp+

lemma args16_ok:
  "conv_ok (args16 :: (i16, i32) conv_args)" "conv_ok (args16 :: (i16, i64) conv_args)"
  "int (length [0 :: i16, 0]) = elems (output_shape (args16 :: (i16, i32) conv_args))"
  "int (length [0 :: i16, 0]) = elems (output_shape (args16 :: (i16, i64) conv_args))"
  "\<forall>s \<in> set (output_shift (args16 :: (i16, i64) conv_args)). sint s < 8"
  by code_simp+

lemma small_sum: "conv_sum small_args 128 0 0 0 0 = - 128" "bias_at small_args 0 = 100"
  by code_simp+

section \<open>Helper lemmas\<close>

lemma small_args_params: "sint (input_offset (params small_args)) = 128" "output_offset (params small_args) = - 128"
  by (simp_all add: small_args_def conv_params_def)

lemma small_args_run: "baseline_ConvPerChannel False small_args [0, 0] = Some [- 128, - 97]"
proof -
  have "baseline_ConvPerChannel False small_args [0, 0] = Some [scast (- 128 :: i32), scast (4294967199 :: i32)]"
    by code_simp
  then show ?thesis by (simp add: scast_sint)
qed

lemma conv_sum_padding_only:
  fixes a :: "(i8, 'b) conv_args"
  assumes "conv_ok a" and "input_data a = replicate n (- 128)" and "0 \<le> b" and "b < dim (output_shape a) 0"
  shows "conv_sum a 128 b oy ox k = 0"
proof -
  have "input_at a b y x c + 128 = 0" if "in_image a y x" "0 \<le> c" "c < dim (input_shape a) 3" for y x c
  proof -
    have "index4 (input_shape a) b y x c"
      using that assms(3,4) conv_ok_shapes(4) [OF assms(1)] by (simp add: index4_def in_image_def point_inside_def)
    from pos4_bounds [OF this] have "nat (pos4 (input_shape a) b y x c) < n"
      using conv_ok_lengths(1) [OF assms(1)] assms(2) by simp
    then show ?thesis by (simp add: input_at_def assms(2))
  qed
  then have "tap_sum a 128 b k fy fx y x = 0" for fy fx y x
    by (auto simp: tap_sum_def intro!: sum.neutral)
  then show ?thesis by (simp add: conv_sum_def conv_sum_at_def)
qed

lemma at_output_pos4:
  assumes "index4 (output_shape a) b y x k"
  shows "at_output a V (pos4 (output_shape a) b y x k) = V b y x k"
  using assms by (simp add: at_output_def pos4_def flat4_decode index4_def Let_def)

lemma simd_idle_init: "simd_idle simd_init"
  by (simp add: simd_idle_def simd_init_def)

section \<open>The reference kernels\<close>





text \<open>
  Every value the reference kernel stores lies in the activation range.
\<close>

theorem output_in_activation_range:
  assumes "conv_ok a" and "int (length output_data) = elems (output_shape a)"
    and "- 128 \<le> sint (quantized_activation_min (params a))" and "sint (quantized_activation_max (params a)) \<le> 127"
    and "baseline_ConvPerChannel nd a output_data = Some ys" and "v \<in> set ys"
  shows "sint (quantized_activation_min (params a)) \<le> sint v \<and> sint v \<le> sint (quantized_activation_max (params a))"
proof -
  let ?lo = "sint (quantized_activation_min (params a))" and ?hi = "sint (quantized_activation_max (params a))"
  have order: "?lo \<le> ?hi" using assms(1) by (simp add: conv_ok_def word_sle_eq)
  have range: "?lo \<le> sint r \<and> sint r \<le> ?hi" if r: "requantize a offset k acc = Some r" for offset k acc r
  proof -
    obtain x where "r = scast (std_min (std_max x (quantized_activation_min (params a))) (quantized_activation_max (params a)))"
      using r by (auto simp: requantize_def Let_def bind_eq_Some_conv)
    moreover have "?lo \<le> sint (std_min (std_max x (quantized_activation_min (params a))) (quantized_activation_max (params a)))"
      "sint (std_min (std_max x (quantized_activation_min (params a))) (quantized_activation_max (params a))) \<le> ?hi"
      using order by (simp_all add: sint_std_min sint_std_max)
    ultimately show ?thesis using assms(3,4) by (simp add: sint_scast_8)
  qed
  have "?lo \<le> sint (conv_out a zp offset b y x k) \<and> sint (conv_out a zp offset b y x k) \<le> ?hi"
    if "0 \<le> k" "k < dim (output_shape a) 3" for zp offset b y x k
    using requantize_defined [OF assms(1) that] range unfolding conv_out_def by fastforce
  moreover have "0 < dim (output_shape a) 3" if "length output_data \<noteq> 0"
    using that assms(2) conv_ok_shapes(3) [OF assms(1)]
    by (cases "dim (output_shape a) 3 = 0") (auto simp: elems_def shape4_def)
  moreover obtain i where i: "i < length output_data"
      "v = at_output a (conv_out a (sint (input_offset (params a))) (output_offset (params a))) (int i)"
    using assms(5,6) by (auto simp: baseline_ConvPerChannel_value [OF assms(1,2)])
  moreover have "length output_data \<noteq> 0" using i(1) by auto
  ultimately show ?thesis by (simp add: at_output_def Let_def)
qed

theorem output_in_activation_range_witness:
  "baseline_ConvPerChannel False small_args [0, 0] = Some [- 128, - 97] \<and> - 128 \<le> sint (- 97 :: i8) \<and> sint (- 97 :: i8) \<le> 127"
proof -
  have run: "baseline_ConvPerChannel False small_args [0, 0] = Some [- 128, - 97]"
  proof -
    have "baseline_ConvPerChannel False small_args [0, 0] = Some [scast (- 128 :: i32), scast (4294967199 :: i32)]"
      by code_simp
    then show ?thesis by (simp add: scast_sint)
  qed
  have "sint (quantized_activation_min (params small_args)) = - 128" "sint (quantized_activation_max (params small_args)) = 127"
    by code_simp+
  with output_in_activation_range [OF small_args_ok _ _ run, of "- 97"] run show ?thesis by simp
qed

text \<open>
  The 16-bit kernel with 32-bit accumulators stores at every position the requantized sum
  without an input offset, for every build.
\<close>

theorem conv16_int32_correct:
  fixes a :: "(i16, i32) conv_args"
  assumes "conv_ok a" and "int (length output_data) = elems (output_shape a)"
  shows "baseline_ConvPerChannel16 MultiplyByQuantizedMultiplier nd a output_data =
    Some (map (\<lambda>i. at_output a (conv_out16 MultiplyByQuantizedMultiplier a) (int i)) [0..<length output_data])"
  by (rule baseline_ConvPerChannel16_value [OF assms scaling_defined_32 [OF assms(1)]])

theorem conv16_int32_correct_witness:
  "baseline_ConvPerChannel16 MultiplyByQuantizedMultiplier False args16 [0, 0] =
    Some (map (\<lambda>i. at_output (args16 :: (i16, i32) conv_args) (conv_out16 MultiplyByQuantizedMultiplier args16) (int i)) [0..<2])"
  using conv16_int32_correct [OF args16_ok(1,3)] by (simp add: numeral_2_eq_2)

text \<open>
  The 16-bit kernel with 64-bit accumulators does so for shifts below 8, the range its scaling
  supports.
\<close>

theorem conv16_int64_correct:
  fixes a :: "(i16, i64) conv_args"
  assumes "conv_ok a" and "\<forall>s \<in> set (output_shift a). sint s < 8"
    and "int (length output_data) = elems (output_shape a)"
  shows "baseline_ConvPerChannel16 (MultiplyByQuantizedMultiplier64 True) True a output_data =
    Some (map (\<lambda>i. at_output a (conv_out16 (MultiplyByQuantizedMultiplier64 True) a) (int i)) [0..<length output_data])"
  by (rule baseline_ConvPerChannel16_value [OF assms(1,3) scaling_defined_64 [OF assms(1,2)]])

theorem conv16_int64_correct_witness:
  "baseline_ConvPerChannel16 (MultiplyByQuantizedMultiplier64 True) True args16 [0, 0] =
    Some (map (\<lambda>i. at_output (args16 :: (i16, i64) conv_args) (conv_out16 (MultiplyByQuantizedMultiplier64 True) args16) (int i)) [0..<2])"
  using conv16_int64_correct [OF args16_ok(2,5,4)] by (simp add: numeral_2_eq_2)

text \<open>
  C13. The kernel that handles four input channels in each iteration is equivalent to the
  reference kernel when there is one channel or a multiple of four.
\<close>

theorem unrolled_equals_baseline:
  assumes "conv_ok a" and "int (length output_data) = elems (output_shape a)"
    and "dim (input_shape a) 3 = 1 \<or> 4 dvd dim (input_shape a) 3"
  shows "unrolled_ConvPerChannel nd a output_data = baseline_ConvPerChannel nd a output_data"
  using unrolled_ConvPerChannel_value [OF assms, of nd] baseline_ConvPerChannel_value [OF assms(1,2), of nd] by simp

theorem unrolled_equals_baseline_witness:
  "unrolled_ConvPerChannel False (window_args 12) [0, 0] = baseline_ConvPerChannel False (window_args 12) [0, 0]"
  by (rule unrolled_equals_baseline [OF renode_okD(1) [OF window_args_ok(1)] window_args_ok(3)])
    (simp add: window_args_ok)

section \<open>The accelerated kernel\<close>

text \<open>
  C1. The kernel that runs on the function unit of \<open>cfu.v\<close> computes, on the arguments it is made
  for, exactly what the reference kernel computes, and leaves the pipelines of the unit empty for
  the next call.
\<close>

theorem accel_equals_baseline:
  assumes "accel_ok a" and "dim (input_shape a) 3 \<noteq> 1"
    and "input_offset (params a) = 128" and "output_offset (params a) = - 128"
    and "int (length output_data) = elems (output_shape a)" and "quiet s"
  shows "\<exists>s' ys. accel_ConvPerChannel (cfu_op 0) nd a (s, output_data) = Some (s', ys) \<and>
    baseline_ConvPerChannel nd a output_data = Some ys \<and> quiet s'"
  using accel_value [OF assms(1,5,6), of nd] baseline_ConvPerChannel_value [OF accel_okD(1) [OF assms(1)] assms(5), of nd]
    assms(2-4)
  by (auto simp: scale_channel_def [abs_def] accel_out_conv)

theorem accel_equals_baseline_witness:
  "\<exists>s' ys. accel_ConvPerChannel (cfu_op 0) False (block_args 4 4 [0, - 1, 0, 0, 0, 0, 0, 0]) (cfu_init, replicate 128 0) =
      Some (s', ys) \<and>
    baseline_ConvPerChannel False (block_args 4 4 [0, - 1, 0, 0, 0, 0, 0, 0]) (replicate 128 0) = Some ys \<and> quiet s'"
proof (rule accel_equals_baseline [OF block4_ok])
  show "quiet cfu_init" by (rule quiet_init)
qed (code_simp | simp add: block_args_def conv_params_def)+

text \<open>
  With a single input channel it agrees with the reference kernel as long as the channels of
  each block of eight share their multiplier and their shift.
\<close>

theorem accel_depth1_uniform:
  assumes "accel_ok a" and "dim (input_shape a) 3 = 1"
    and "input_offset (params a) = 128" and "output_offset (params a) = - 128"
    and "\<forall>k. 0 \<le> k \<and> k < dim (output_shape a) 3 \<longrightarrow>
      mult_at a k = mult_at a (k - k mod 8) \<and> shift_at a k = shift_at a (k - k mod 8)"
    and "int (length output_data) = elems (output_shape a)" and "quiet s"
  shows "\<exists>s' ys. accel_ConvPerChannel (cfu_op 0) nd a (s, output_data) = Some (s', ys) \<and>
    baseline_ConvPerChannel nd a output_data = Some ys \<and> quiet s'"
proof -
  have "requantize a (- 128) (k - k mod 8) acc = requantize a (- 128) k acc"
    if "0 \<le> k" "k < dim (output_shape a) 3" for k acc
  proof -
    define q where "q = k - k mod 8"
    have q: "0 \<le> q" "q \<le> k"
      using that(1) by (simp_all add: q_def minus_mod_eq_mult_div)
    have "mult_at a k = mult_at a q" "shift_at a k = shift_at a q"
      using assms(5) that unfolding q_def by blast+
    then have "output_multiplier a ! nat k = output_multiplier a ! nat q" "output_shift a ! nat k = output_shift a ! nat q"
      by (simp_all add: mult_at_def shift_at_def signed_word_eqI)
    then show ?thesis
      using that q conv_ok_lengths(3,4) [OF accel_okD(1) [OF assms(1)]]
      by (simp add: requantize_def rd_def Let_def flip: q_def)
  qed
  then have eq: "accel_out a (\<lambda>k. k - k mod 8) b y x k = conv_out a 128 (- 128) b y x k"
    if "0 \<le> k" "k < dim (output_shape a) 3" for b y x k
    using that by (simp add: accel_out_def conv_out_def)
  have "at_output a (accel_out a (scale_channel a)) (int i) = at_output a (conv_out a 128 (- 128)) (int i)"
    if "i < length output_data" for i
  proof -
    have "0 < dim (output_shape a) 3"
      using that assms(6) conv_ok_shapes(3) [OF accel_okD(1) [OF assms(1)]]
      by (cases "dim (output_shape a) 3 = 0") (auto simp: elems_def shape4_def)
    with eq assms(2) show ?thesis
      by (simp add: at_output_def scale_channel_def [abs_def] Let_def)
  qed
  then show ?thesis
    using accel_value [OF assms(1,6,7), of nd]
      baseline_ConvPerChannel_value [OF accel_okD(1) [OF assms(1)] assms(6), of nd] assms(3,4)
    by auto
qed

theorem accel_depth1_uniform_witness:
  "\<exists>s' ys. accel_ConvPerChannel (cfu_op 0) False (block_args 1 28 [- 1, - 1, - 1, - 1, - 1, - 1, - 1, - 1])
      (cfu_init, replicate 128 0) = Some (s', ys) \<and>
    baseline_ConvPerChannel False (block_args 1 28 [- 1, - 1, - 1, - 1, - 1, - 1, - 1, - 1]) (replicate 128 0) = Some ys \<and>
    quiet s'"
proof (rule accel_depth1_uniform)
  let ?a = "block_args 1 28 [- 1, - 1, - 1, - 1, - 1, - 1, - 1, - 1]"
  have "mult_at ?a k = mult_at ?a (k - k mod 8) \<and> shift_at ?a k = shift_at ?a (k - k mod 8)" if "0 \<le> k" "k < 8" for k
  proof -
    have "k = int (nat k)" "nat k \<in> {0, 1, 2, 3, 4, 5, 6, 7}" using that by auto
    then show ?thesis by (auto simp: mult_at_def shift_at_def block_args_def)
  qed
  moreover have d: "dim (output_shape ?a) 3 = 8" by code_simp
  ultimately show "\<forall>k. 0 \<le> k \<and> k < dim (output_shape ?a) 3 \<longrightarrow>
      mult_at ?a k = mult_at ?a (k - k mod 8) \<and> shift_at ?a k = shift_at ?a (k - k mod 8)"
    unfolding d by blast
  show "quiet cfu_init" by (rule quiet_init)
qed (code_simp | simp add: block_args_def conv_params_def)+


section \<open>The kernels of the Renode example\<close>

text \<open>
  The kernel with constant parameters is equivalent to the reference kernel on the model
  it was made for.
\<close>

theorem constant_equals_baseline:
  assumes "renode_ok a" and "input_offset (params a) = 128" and "output_offset (params a) = - 128"
    and "int (length output_data) = elems (output_shape a)"
  shows "constant_ConvPerChannel nd a output_data = baseline_ConvPerChannel nd a output_data"
  using constant_ConvPerChannel_value [OF assms(1,4), of nd]
    baseline_ConvPerChannel_value [OF renode_okD(1) [OF assms(1)] assms(4), of nd] assms(2,3) by simp

theorem constant_equals_baseline_witness:
  "constant_ConvPerChannel False (window_args 12) [0, 0] = baseline_ConvPerChannel False (window_args 12) [0, 0]"
  by (rule constant_equals_baseline [OF window_args_ok(1)]) (simp_all add: window_args_ok del: list.size)

text \<open>
  C15. So is the unrolled kernel for 12 channels and for one; for any other depth it stores
  nothing.
\<close>

theorem renode_unrolled_correct:
  assumes "renode_ok a" and "input_offset (params a) = 128" and "output_offset (params a) = - 128"
    and "int (length output_data) = elems (output_shape a)"
  shows "renode_ConvPerChannel nd a output_data =
    (if dim (input_shape a) 3 = 12 \<or> dim (input_shape a) 3 = 1 then baseline_ConvPerChannel nd a output_data
     else Some output_data)"
  using renode_ConvPerChannel_value [OF assms(1,4), of nd]
    baseline_ConvPerChannel_value [OF renode_okD(1) [OF assms(1)] assms(4), of nd] assms(2,3) by simp

theorem renode_unrolled_correct_witness:
  "renode_ConvPerChannel False (window_args 1) [0, 0] = baseline_ConvPerChannel False (window_args 1) [0, 0]"
  using renode_unrolled_correct [OF window_args_ok(2,8,10,4), of False] by (simp add: window_args_ok)

text \<open>
  C5. With 12 input channels the SIMD kernel, on the gateware and whatever the delay of its
  responses, computes what the reference kernel computes.
\<close>

theorem simd_equals_baseline:
  assumes "renode_ok a" and "dim (input_shape a) 3 = 12"
    and "input_offset (params a) = 128" and "output_offset (params a) = - 128"
    and "int (length output_data) = elems (output_shape a)" and "simd_idle s"
  shows "\<exists>s' ys. simd_ConvPerChannel (simd_op delay 0) nd a (s, output_data) = Some (s', ys) \<and>
    baseline_ConvPerChannel nd a output_data = Some ys \<and> simd_idle s'"
  using gateware.ok_simd_kernel [OF assms(1,5,6), of delay nd]
    baseline_ConvPerChannel_value [OF renode_okD(1) [OF assms(1)] assms(5), of nd] assms(2-4)
  by (auto simp: ok_iff simd_output_def)

theorem simd_equals_baseline_witness:
  "\<exists>s' ys. simd_ConvPerChannel (simd_op 3 0) False (window_args 12) (simd_init, [0, 0]) = Some (s', ys) \<and>
    baseline_ConvPerChannel False (window_args 12) [0, 0] = Some ys \<and> simd_idle s'"
  by (rule simd_equals_baseline [OF window_args_ok(1,5,7,9,3) simd_idle_init])

text \<open>
  C16. With one input channel it does not: each tap with a negative weight loses three times 127
  or 128, the products of the sign bits in the unused lanes.
\<close>

theorem simd_depth1_error:
  assumes "renode_ok a" and "dim (input_shape a) 3 = 1"
    and "int (length output_data) = elems (output_shape a)" and "simd_idle s"
  shows "\<exists>s'. simd_ConvPerChannel (simd_op delay 0) nd a (s, output_data) =
    Some (s', map (\<lambda>i. at_output a (\<lambda>b y x k. the (requantize a (- 128) k (word_of_int
        (conv_sum a 128 b y x k + bias_at a k -
         (\<Sum>fy\<in>{0..<3}. \<Sum>fx\<in>{0..<3}. if in_image a (y + fy) (x + fx) \<and> filter_at a k fy fx 0 < 0
           then 3 * (if input_at a b (y + fy) (x + fx) 0 < 0 then 127 else 128) else 0))))) (int i))
      [0..<length output_data])"
proof -
  let ?e = "\<lambda>b y x k fy fx. if in_image a (y + fy) (x + fx) \<and> filter_at a k fy fx 0 < 0
           then 3 * (if input_at a b (y + fy) (x + fx) 0 < 0 then 127 else 128) else 0"
  have one: "{0..<1 :: int} = {0}" by auto
  have "(if in_image a (y + fy) (x + fx) then simd1_tap a b k fy fx (y + fy) (x + fx) else 0) =
      (if in_image a (y + fy) (x + fx) then tap_sum a 128 b k fy fx (y + fy) (x + fx) else 0) - ?e b y x k fy fx"
    for b y x k fy fx
    by (simp add: simd1_tap_error tap_sum_def assms(2) one)
  then have "taps_total a (simd1_tap a) b y x k =
      taps_total a (tap_sum a 128) b y x k - (\<Sum>fy\<in>{0..<3}. \<Sum>fx\<in>{0..<3}. ?e b y x k fy fx)" for b y x k
    by (simp only: taps_total_def sum_subtractf)
  then have "taps_out a (simd1_tap a) = (\<lambda>b y x k. the (requantize a (- 128) k (word_of_int
        (conv_sum a 128 b y x k + bias_at a k - (\<Sum>fy\<in>{0..<3}. \<Sum>fx\<in>{0..<3}. ?e b y x k fy fx)))))"
    by (simp only: taps_out_def [abs_def] taps_total_conv [OF assms(1)] add_diff_eq diff_add_eq)
  with gateware.ok_simd_kernel [OF assms(1,3,4), of delay nd] assms(2) show ?thesis
    by (auto simp: ok_iff simd_output_def simp del: of_int_diff of_int_add of_int_sum)
qed

theorem simd_depth1_error_witness:
  "\<exists>s' ys. simd_ConvPerChannel (simd_op 2 0) False (window_args 1) (simd_init, [0, 0]) = Some (s', ys)"
  using simd_depth1_error [OF window_args_ok(2,6,4) simd_idle_init, of 2 False] by blast

text \<open>
  A concrete case: the SIMD kernel stores -119 where the reference kernel stores -65.
\<close>

theorem simd_depth1_differs:
  "renode_ok signed_args \<and> input_offset (params signed_args) = 128 \<and> output_offset (params signed_args) = - 128 \<and>
   map_option snd (simd_ConvPerChannel (simd_op 0 0) False signed_args (simd_init, [0])) = Some [- 119] \<and>
   baseline_ConvPerChannel False signed_args [0] = Some [- 65]"
proof (intro conjI)
  show "renode_ok signed_args" "input_offset (params signed_args) = 128" "output_offset (params signed_args) = - 128"
    by code_simp+
  have "map_option snd (simd_ConvPerChannel (simd_op 0 0) False signed_args (simd_init, [0])) = Some [scast (4294967177 :: i32)]"
    by code_simp
  then show "map_option snd (simd_ConvPerChannel (simd_op 0 0) False signed_args (simd_init, [0])) = Some [- 119]"
    by (simp add: scast_sint)
  have "baseline_ConvPerChannel False signed_args [0] = Some [scast (4294967231 :: i32)]"
    by code_simp
  then show "baseline_ConvPerChannel False signed_args [0] = Some [- 65]"
    by (simp add: scast_sint)
qed

text \<open>
  On the two layers it was made for, the final kernel, whose loop bounds are literals, behaves
  as the SIMD kernel in every state of the unit.
\<close>

theorem final_equals_simd:
  assumes "conv_ok a" and "final_shapes a"
  shows "final_ConvPerChannel (simd_op delay 0) nd a (s, output_data) =
    simd_ConvPerChannel (simd_op delay 0) nd a (s, output_data)"
  by (rule final_simd [OF assms])

theorem final_equals_simd_witness:
  "final_ConvPerChannel (simd_op 0 0) False final_args (simd_init, []) =
    simd_ConvPerChannel (simd_op 0 0) False final_args (simd_init, [])"
  by (rule final_equals_simd) (code_simp)+

end
